theory Spec2Isabelle
  imports Main "HOL-Library.Word"
begin

unbundle bit_operations_syntax

section \<open>The NEMA command-list interpreter (hw/slate/nema.c, nema.h)\<close>

text \<open>
  A shallow embedding of the software GPU of the slate board. The device state, the
  command record, the command list and the pipeline context are records with the
  fields of the C structs. Every \<open>exit(EXIT_FAILURE)\<close> of the source and every access
  that C leaves undefined is a value of type \<open>fault\<close>; a function that can reach one
  returns a sum, with the device state at that moment beside the fault. Calls into
  the libraries (pixman, cairo, the IRQ line, the memory API) are recorded, with the
  arguments the source passes, in a log that is a field of the device state.
\<close>

subsection \<open>C integers\<close>

type_synonym byte = "8 word"

text \<open>The C conversions to a narrower integer type, on mathematical integers.\<close>

definition to_uint8 :: "int \<Rightarrow> int" where
  "to_uint8 x = x mod 256"

definition to_int16 :: "int \<Rightarrow> int" where
  "to_int16 x = (x + 32768) mod 65536 - 32768"

definition to_uint16 :: "int \<Rightarrow> int" where
  "to_uint16 x = x mod 65536"

definition to_int32 :: "int \<Rightarrow> int" where
  "to_int32 x = (x + 2147483648) mod 4294967296 - 2147483648"

definition to_uint32 :: "int \<Rightarrow> int" where
  "to_uint32 x = x mod 4294967296"

text \<open>The remainder of C: the sign of the result is the sign of the dividend.\<close>

definition c_rem :: "int \<Rightarrow> int \<Rightarrow> int" where
  "c_rem a b = sgn a * (\<bar>a\<bar> mod \<bar>b\<bar>)"

subsection \<open>nema.h: constants and records\<close>

definition NEMA_MAX_CMD_COUNT :: nat where "NEMA_MAX_CMD_COUNT = 250"

definition NEMA_REG_OP :: "64 word" where "NEMA_REG_OP = 0"
definition NEMA_REG_SIG :: "64 word" where "NEMA_REG_SIG = 1"
definition NEMA_REG_OP_SUBMIT_COMMAND_LIST :: "64 word" where "NEMA_REG_OP_SUBMIT_COMMAND_LIST = 2"
definition NEMA_REG_OP_SIGNAL_RECEIVED :: "64 word" where "NEMA_REG_OP_SIGNAL_RECEIVED = 3"

definition NEMA_OP_BIND_TEX :: byte where "NEMA_OP_BIND_TEX = 1"
definition NEMA_OP_SET_CLIP :: byte where "NEMA_OP_SET_CLIP = 2"
definition NEMA_OP_SET_BLEND_BLIT :: byte where "NEMA_OP_SET_BLEND_BLIT = 3"
definition NEMA_OP_SET_BLEND_FILL :: byte where "NEMA_OP_SET_BLEND_FILL = 4"
definition NEMA_OP_SET_CONST_COLOR :: byte where "NEMA_OP_SET_CONST_COLOR = 5"
definition NEMA_OP_DRAW_LINE :: byte where "NEMA_OP_DRAW_LINE = 6"
definition NEMA_OP_BLIT :: byte where "NEMA_OP_BLIT = 7"
definition NEMA_OP_FILL_RECT :: byte where "NEMA_OP_FILL_RECT = 8"
definition NEMA_OP_DRAW_RECT :: byte where "NEMA_OP_DRAW_RECT = 9"
definition NEMA_OP_FILL_RECT_ROUNDED :: byte where "NEMA_OP_FILL_RECT_ROUNDED = 10"
definition NEMA_OP_DRAW_RECT_ROUNDED :: byte where "NEMA_OP_DRAW_RECT_ROUNDED = 11"

text \<open>\<open>enum { NEMA_NOTEX, NEMA_TEX0, NEMA_TEX1, NEMA_TEX2, NEMA_TEX3 }\<close>\<close>

definition NEMA_TEX0 :: byte where "NEMA_TEX0 = 1"
definition NEMA_TEX1 :: byte where "NEMA_TEX1 = 2"
definition NEMA_TEX3 :: byte where "NEMA_TEX3 = 4"

definition NEMA_BL_SIMPLE :: byte where "NEMA_BL_SIMPLE = 1"
definition NEMA_BL_MASK :: byte where "NEMA_BL_MASK = 2"
definition NEMA_BL_OPA :: byte where "NEMA_BL_OPA = 4"

text \<open>
  \<open>nema_cmd_t\<close>. The fields \<open>int_a\<close> .. \<open>int_d\<close> are \<open>int32_t\<close>: they are read with
  \<open>sint\<close>; the others are unsigned and read with \<open>uint\<close> or \<open>unat\<close>.
\<close>

record nema_cmd =
  op :: byte
  addr_a :: "32 word"
  addr_b :: "32 word"
  u_int_8_a :: byte
  u_int_a :: "32 word"
  u_int_b :: "32 word"
  u_int_c :: "32 word"
  int_a :: "32 word"
  int_b :: "32 word"
  int_c :: "32 word"
  int_d :: "32 word"

text \<open>
  \<open>nema_cmdlist_t\<close>: the array \<open>list[NEMA_MAX_CMD_COUNT]\<close> and the \<open>uint8_t\<close> count. A list
  as the guest can write it has exactly 250 entries (\<open>cl_wf\<close>).
\<close>

record nema_cmdlist =
  list :: "nema_cmd list"
  next_cmd_slot :: byte

definition cl_wf :: "nema_cmdlist \<Rightarrow> bool" where
  "cl_wf cl \<longleftrightarrow> length (list cl) = NEMA_MAX_CMD_COUNT"

text \<open>
  \<open>sizeof(nema_cmdlist_t)\<close> with the natural alignment of the fields: a record is 44
  bytes, the count byte follows the array and the struct is padded to a multiple of 4.
\<close>

definition sizeof_nema_cmdlist_t :: nat where
  "sizeof_nema_cmdlist_t = 250 * 44 + 4"

text \<open>\<open>nema_region_t\<close>, its fields \<open>x\<close>, \<open>y\<close> (\<open>int\<close>) and \<open>w\<close>, \<open>h\<close> (\<open>uint32_t\<close>) prefixed with
  \<open>reg_\<close>.\<close>

record nema_region =
  reg_x :: "32 word"
  reg_y :: "32 word"
  reg_w :: "32 word"
  reg_h :: "32 word"

definition region_zero :: nema_region where
  "region_zero = \<lparr>reg_x = 0, reg_y = 0, reg_w = 0, reg_h = 0\<rparr>"

subsection \<open>Images, surfaces and the pipeline context\<close>

datatype pixman_format = PIXMAN_a8r8g8b8 | PIXMAN_a8

text \<open>
  The memory behind an image: a write mapping of guest memory (address and length), or
  a block from \<open>g_malloc\<close> with its bytes. A block of size 0 is the null pointer of
  \<open>g_malloc(0)\<close> and has no bytes.
\<close>

datatype buffer = Mapped "32 word" nat | Heap "byte list"

text \<open>
  What \<open>pixman_image_create_bits(format, width, height, bits, stride)\<close> is given; the
  library's \<open>int\<close> parameters are mathematical integers here.
\<close>

record pixman_image =
  format :: pixman_format
  width :: int
  height :: int
  bits :: buffer
  stride :: int

definition pixman_image_create_bits ::
  "pixman_format \<Rightarrow> int \<Rightarrow> int \<Rightarrow> buffer \<Rightarrow> int \<Rightarrow> pixman_image" where
  "pixman_image_create_bits f wd ht b st =
     \<lparr>format = f, width = wd, height = ht, bits = b, stride = st\<rparr>"

text \<open>What \<open>cairo_image_surface_create_for_data\<close> is given (the format is always ARGB32).\<close>

record cairo_surface =
  cs_data :: buffer
  cs_width :: int
  cs_height :: int
  cs_stride :: int

datatype blend_option = BLEND_FILL | BLEND_BLIT

text \<open>
  \<open>pipeline_ctx_t\<close>; a null pointer is \<open>None\<close>. The field \<open>rects\<close> is never read or
  written by the source and is left out.
\<close>

record pipeline_ctx =
  dest_tex :: "pixman_image option"
  src_tex :: "pixman_image option"
  mask_tex :: "pixman_image option"
  dest_surface :: "cairo_surface option"
  src_surface :: "cairo_surface option"
  const_color :: "32 word"
  const_color_set :: bool
  blending_mode :: byte
  blending_option :: blend_option

text \<open>The context after \<open>pipeline_ctx_t ctx = {0}\<close> or \<open>memset(ctx, 0, sizeof(pipeline_ctx_t))\<close>.\<close>

definition pipeline_ctx_zero :: pipeline_ctx where
  "pipeline_ctx_zero =
     \<lparr>dest_tex = None, src_tex = None, mask_tex = None, dest_surface = None,
      src_surface = None, const_color = 0, const_color_set = False, blending_mode = 0,
      blending_option = BLEND_FILL\<rparr>"

subsection \<open>Faults, library calls and the device state\<close>

text \<open>
  One constructor for each \<open>exit(EXIT_FAILURE)\<close> of nema.c, in the order of the source,
  then what C leaves undefined or what aborts inside a library: an access outside a
  buffer, an index outside \<open>list\<close>, an allocation of a negative size.
\<close>

datatype fault =
    Clip_area_not_set
  | Dest_tex_not_set
  | Dest_surface_not_set
  | Mask_on_mask_tex_not_set
  | Mask_off_mask_tex_set
  | Opa_on_const_color_not_set
  | Opa_off_const_color_set
  | Cairo_mask_not_implemented
  | Blend_dest_tex_null
  | Assert_not_null string
  | Tex_mem_map_failed
  | Itcm_read_failed
  | Invalid_tex_id
  | Unsupported_command byte
  | Cl_load_failed
  | Buffer_overrun
  | List_index_out_of_bounds nat
  | Alloc_negative_size

text \<open>
  The source of a composite: the solid fill of a colour, or the bound source image.
\<close>

datatype composite_source = Solid_fill "32 word" | Image_source pixman_image

text \<open>
  The calls on a cairo context between \<open>cairo_create\<close> and \<open>cairo_destroy\<close>. A colour
  is kept as the ARGB word it is computed from; \<open>Set_source_rgba c (Some o)\<close> is the
  colour \<open>c\<close> with its alpha multiplied by \<open>o / 255\<close>. \<open>Rounded_path\<close> stands for the
  sub-path of four arcs of the rounded rectangles, with the command's parameters
  (the radius is floating-point arithmetic on them).
\<close>

datatype cairo_call =
    Apply_clip nema_region
  | Rectangle int int int int
  | Rounded_path int int int int int
  | Set_source_rgba "32 word" "byte option"
  | Set_line_cap_round
  | Set_line_width int
  | Move_to int int
  | Line_to int int
  | Stroke
  | Fill

text \<open>
  The log: one entry for each record handed to \<open>process_cmd\<close>, each change of the
  interrupt line, each \<open>pixman_image_composite\<close> (source, mask, destination, the clip
  region set on the destination, then \<open>src_x\<close>, \<open>src_y\<close>, \<open>mask_x\<close>, \<open>mask_y\<close>, \<open>dest_x\<close>,
  \<open>dest_y\<close>, \<open>width\<close>, \<open>height\<close> as the callee receives them: the first six are
  \<open>int16_t\<close> parameters, the last two \<open>uint16_t\<close>), each cairo context with the surface
  it is created on, and each \<open>cpu_physical_memory_unmap\<close> of a destination.
\<close>

datatype event =
    Dispatch nema_cmd
  | Irq_raise
  | Irq_lower
  | Composite composite_source "pixman_image option" "pixman_image option" nema_region
      int int int int int int int int
  | Cairo "cairo_surface option" "cairo_call list"
  | Unmap pixman_image

text \<open>
  Guest memory as the device sees it at one moment: the bytes of main memory and of
  the ITCM address space, whether an ITCM read of a range fails, what
  \<open>cpu_physical_memory_map\<close> answers to a write mapping of a range (\<open>None\<close> for a null
  pointer, else the length it mapped), the mapping of the command-list block (length
  and contents), and the bytes found in a fresh \<open>g_malloc\<close> block.
\<close>

record guest_mem =
  ram :: "nat \<Rightarrow> byte"
  itcm :: "nat \<Rightarrow> byte"
  itcm_fails :: "nat \<Rightarrow> nat \<Rightarrow> bool"
  map_write :: "32 word \<Rightarrow> nat \<Rightarrow> nat option"
  map_cl :: "nat \<times> nema_cmdlist"
  uninit :: "nat \<Rightarrow> byte"

text \<open>
  \<open>NEMAState\<close>: the level of the line \<open>inst_processed\<close>, the clip state, the log, and
  guest memory, which may differ after every logged call (drawing writes to it, the
  guest rewrites the command list between submissions).
\<close>

record NEMAState =
  inst_processed :: bool
  has_clip_set :: bool
  pixman_clip_region :: nema_region
  nema_clip_region :: nema_region
  trace :: "event list"
  guest :: "event list \<Rightarrow> guest_mem"

type_synonym 'a result = "(fault \<times> NEMAState) + 'a"

definition log_event :: "event \<Rightarrow> NEMAState \<Rightarrow> NEMAState" where
  "log_event e ds = ds\<lparr>trace := trace ds @ [e]\<rparr>"

definition qemu_irq_raise :: "NEMAState \<Rightarrow> NEMAState" where
  "qemu_irq_raise ds = log_event Irq_raise (ds\<lparr>inst_processed := True\<rparr>)"

definition qemu_irq_lower :: "NEMAState \<Rightarrow> NEMAState" where
  "qemu_irq_lower ds = log_event Irq_lower (ds\<lparr>inst_processed := False\<rparr>)"

subsection \<open>Buffers\<close>

text \<open>
  \<open>memcpy(dst + d, src + s, n)\<close> and \<open>memset(dst + d, v, n)\<close> on buffers as lists. A
  negative count, which C converts to a huge \<open>size_t\<close>, and a range outside either
  buffer are \<open>None\<close>.
\<close>

definition memcpy :: "byte list \<Rightarrow> int \<Rightarrow> byte list \<Rightarrow> int \<Rightarrow> int \<Rightarrow> byte list option" where
  "memcpy dst d src s n =
     (if n < 0 \<or> d < 0 \<or> s < 0 \<or> int (length src) < s + n \<or> int (length dst) < d + n
      then None
      else Some (take (nat d) dst @ take (nat n) (drop (nat s) src) @ drop (nat (d + n)) dst))"

definition memset :: "byte list \<Rightarrow> int \<Rightarrow> byte \<Rightarrow> int \<Rightarrow> byte list option" where
  "memset dst d v n =
     (if n < 0 \<or> d < 0 \<or> int (length dst) < d + n then None
      else Some (take (nat d) dst @ replicate (nat n) v @ drop (nat (d + n)) dst))"

text \<open>A fresh block of \<open>n\<close> bytes, with whatever the heap holds.\<close>

definition g_malloc :: "(nat \<Rightarrow> byte) \<Rightarrow> nat \<Rightarrow> byte list" where
  "g_malloc junk n = map junk [0..<n]"

subsection \<open>round_mask_if_needed\<close>

text \<open>\<open>lv_coord_t\<close> is \<open>int16_t\<close>: a 16-bit word read with \<open>sint\<close>.\<close>

type_synonym lv_coord_t = "16 word"

text \<open>
  The loop of \<open>round_mask_if_needed\<close> from iteration \<open>i\<close> (a \<open>uint16_t\<close>), with the two
  running pointers as offsets into the mask and into \<open>buf\<close>.
\<close>

function round_mask_rows ::
  "byte list \<Rightarrow> int \<Rightarrow> int \<Rightarrow> lv_coord_t \<Rightarrow> nat \<Rightarrow> int \<Rightarrow> int \<Rightarrow> byte list \<Rightarrow> byte list option"
where
  "round_mask_rows msk strd padding hgt i src_ptr dest_ptr buf =
     (if int i < sint hgt then
        (case memcpy buf dest_ptr msk src_ptr strd of
           None \<Rightarrow> None
         | Some buf1 \<Rightarrow>
            (case memset buf1 (dest_ptr + strd) 0 padding of
               None \<Rightarrow> None
             | Some buf2 \<Rightarrow>
                 round_mask_rows msk strd padding hgt ((i + 1) mod 65536)
                   (src_ptr + strd) (dest_ptr + (strd + padding)) buf2))
      else Some buf)"
  by pat_completeness auto
termination
proof (relation "measure (\<lambda>(msk, strd, padding, hgt, i, rest). nat (sint hgt) - i)")
  show "wf (measure (\<lambda>(msk, strd, padding, hgt, i, rest). nat (sint hgt) - i))"
    by simp
next
  fix msk :: "byte list" and strd padding :: int and hgt :: lv_coord_t and i :: nat
    and src_ptr dest_ptr :: int and buf x2 x2a :: "byte list"
  assume lt: "int i < sint hgt"
  have "sint hgt < 2 ^ (LENGTH(16) - 1)"
    by (rule sint_lt)
  then have "sint hgt < 32768"
    by simp
  with lt have "(i + 1) mod 65536 = i + 1"
    by simp
  with lt show "((msk, strd, padding, hgt, (i + 1) mod 65536, src_ptr + strd,
                  dest_ptr + (strd + padding), x2a),
                 (msk, strd, padding, hgt, i, src_ptr, dest_ptr, buf))
                \<in> measure (\<lambda>(msk, strd, padding, hgt, i, rest). nat (sint hgt) - i)"
    by simp
qed

declare round_mask_rows.simps [simp del]

text \<open>
  \<open>round_mask_if_needed(mask, stride, height)\<close>: \<open>None\<close> inside the result is the null
  pointer, returned when the stride is a multiple of 4 and also when \<open>g_malloc\<close> is
  asked for 0 bytes. The size \<open>(stride + padding) * height\<close> is an \<open>int\<close>; a negative one
  becomes a huge \<open>gsize\<close> and \<open>g_malloc\<close> aborts.
\<close>

definition round_mask_if_needed ::
  "(nat \<Rightarrow> byte) \<Rightarrow> byte list \<Rightarrow> lv_coord_t \<Rightarrow> lv_coord_t \<Rightarrow> fault + byte list option" where
  "round_mask_if_needed junk msk strd hgt =
     (if c_rem (sint strd) 4 = 0 then Inr None
      else
        let padding = to_uint8 (c_rem (4 - c_rem (sint strd) 4) 4);
            n = (sint strd + padding) * sint hgt
        in if n < 0 then Inl Alloc_negative_size
           else
             (case round_mask_rows msk (sint strd) padding hgt 0 0 0 (g_malloc junk (nat n)) of
                None \<Rightarrow> Inl Buffer_overrun
              | Some buf \<Rightarrow> Inr (if n = 0 then None else Some buf)))"

subsection \<open>read_tex\<close>

text \<open>The bytes behind a buffer: those of guest memory under a mapping.\<close>

definition buffer_bytes :: "guest_mem \<Rightarrow> buffer \<Rightarrow> byte list" where
  "buffer_bytes g b =
     (case b of
        Mapped a n \<Rightarrow> map (ram g) [unat a..<unat a + n]
      | Heap bs \<Rightarrow> bs)"

text \<open>
  The branch of \<open>read_tex\<close> for \<open>is_write = false\<close>: \<open>len\<close> bytes copied into a fresh
  block, from the ITCM address space when the address lies strictly between
  \<open>0x10000000\<close> and \<open>0x20000000\<close>, else from main memory.
\<close>

definition tex_copy :: "guest_mem \<Rightarrow> 32 word \<Rightarrow> nat \<Rightarrow> fault + byte list" where
  "tex_copy g a len =
     (if 0x10000000 < a \<and> a < 0x20000000 then
        (if itcm_fails g (unat (a - 0x10000000)) len then Inl Itcm_read_failed
         else Inr (map (itcm g) [unat (a - 0x10000000)..<unat (a - 0x10000000) + len]))
      else Inr (map (ram g) [unat a..<unat a + len]))"

text \<open>
  \<open>read_tex(ds, ctx, cmd, image, format, is_write)\<close> returns the image it stores through
  \<open>image\<close>; its buffer is the pointer the C function returns. \<open>expected_len\<close> is the
  product of an \<open>int32_t\<close> and a \<open>uint32_t\<close>, computed in \<open>uint32_t\<close>.
\<close>

definition read_tex :: "NEMAState \<Rightarrow> nema_cmd \<Rightarrow> pixman_format \<Rightarrow> bool \<Rightarrow> pixman_image result" where
  "read_tex ds cmd fmt is_write =
     (let g = guest ds (trace ds);
          expected_len = unat (int_a cmd * u_int_b cmd);
          acquired =
            (if is_write then
               (case map_write g (addr_a cmd) expected_len of
                  None \<Rightarrow> Inl Tex_mem_map_failed
                | Some read_len \<Rightarrow>
                    if expected_len \<noteq> read_len then Inl Tex_mem_map_failed
                    else Inr (Mapped (addr_a cmd) read_len))
             else map_sum id Heap (tex_copy g (addr_a cmd) expected_len))
      in case acquired of
           Inl f \<Rightarrow> Inl (f, ds)
         | Inr data \<Rightarrow>
             if fmt = PIXMAN_a8 then
               (case round_mask_if_needed (uninit g) (buffer_bytes g data)
                       (ucast (int_a cmd)) (ucast (u_int_b cmd)) of
                  Inl f \<Rightarrow> Inl (f, ds)
                | Inr None \<Rightarrow>
                    Inr (pixman_image_create_bits fmt (sint (u_int_a cmd)) (sint (u_int_b cmd))
                           data (sint (int_a cmd)))
                | Inr (Some rounded_mask) \<Rightarrow>
                    let padding = to_uint8 (4 - c_rem (sint (int_a cmd)) 4)
                    in Inr (pixman_image_create_bits fmt (sint (u_int_a cmd)) (sint (u_int_b cmd))
                              (Heap rounded_mask) (to_int32 (sint (int_a cmd) + padding))))
             else Inr (pixman_image_create_bits fmt (sint (u_int_a cmd)) (sint (u_int_b cmd))
                         data (sint (int_a cmd))))"

subsection \<open>Releasing and validating the context\<close>

text \<open>
  \<open>unmap_pixman_imgs\<close>: the destination is unmapped, which writes it back; mask and
  source are freed, which leaves no trace.
\<close>

definition unmap_pixman_imgs :: "NEMAState \<Rightarrow> pipeline_ctx \<Rightarrow> NEMAState \<times> pipeline_ctx" where
  "unmap_pixman_imgs ds ctx =
     ((case dest_tex ctx of None \<Rightarrow> ds | Some img \<Rightarrow> log_event (Unmap img) ds),
      ctx\<lparr>dest_tex := None, mask_tex := None, src_tex := None\<rparr>)"

text \<open>\<open>clean_up_ctx\<close> ends with \<open>memset(ctx, 0, sizeof(pipeline_ctx_t))\<close>: every field is zero.\<close>

definition clean_up_ctx :: "NEMAState \<Rightarrow> pipeline_ctx \<Rightarrow> NEMAState \<times> pipeline_ctx" where
  "clean_up_ctx ds ctx =
     (case unmap_pixman_imgs ds ctx of
        (ds1, ctx1) \<Rightarrow>
          (ds1, ctx1\<lparr>dest_tex := None, src_tex := None, mask_tex := None, dest_surface := None,
                  src_surface := None, const_color := 0, const_color_set := False,
                  blending_mode := 0, blending_option := BLEND_FILL\<rparr>))"

text \<open>\<open>validate_ctx\<close>: \<open>None\<close> when it returns, else the failed check, in the source's order.\<close>

definition validate_ctx :: "NEMAState \<Rightarrow> pipeline_ctx \<Rightarrow> fault option" where
  "validate_ctx ds ctx =
     (if \<not> has_clip_set ds then Some Clip_area_not_set
      else if dest_tex ctx = None then Some Dest_tex_not_set
      else if dest_surface ctx = None then Some Dest_surface_not_set
      else if (blending_mode ctx AND NEMA_BL_MASK) \<noteq> 0 \<and> mask_tex ctx = None
        then Some Mask_on_mask_tex_not_set
      else if (blending_mode ctx AND NEMA_BL_MASK) = 0 \<and> mask_tex ctx \<noteq> None
        then Some Mask_off_mask_tex_set
      else if (blending_mode ctx AND NEMA_BL_OPA) \<noteq> 0 \<and> \<not> const_color_set ctx
        then Some Opa_on_const_color_not_set
      else if (blending_mode ctx AND NEMA_BL_OPA) = 0 \<and> const_color_set ctx
        then Some Opa_off_const_color_set
      else None)"

subsection \<open>Opacity\<close>

text \<open>
  The loop over an existing mask, from index \<open>i\<close> (a \<open>uint32_t\<close> below \<open>size\<close>, here
  \<open>sz\<close>); a write past the end of the buffer is \<open>None\<close>.
\<close>

function scale_mask_bytes :: "byte list \<Rightarrow> byte \<Rightarrow> nat \<Rightarrow> nat \<Rightarrow> byte list option" where
  "scale_mask_bytes data opacity sz i =
     (if i < sz then
        (if i < length data then
           scale_mask_bytes
             (data[i := ucast (drop_bit 8 ((ucast (data ! i) :: 32 word) * ucast opacity))])
             opacity sz (i + 1)
         else None)
      else Some data)"
  by pat_completeness auto
termination
  by (relation "measure (\<lambda>(data, opacity, sz, i). sz - i)") auto

declare scale_mask_bytes.simps [simp del]

text \<open>
  \<open>blend_opacity_if_needed\<close>. The new mask's stride is an \<open>int16_t\<close> and its size a
  \<open>uint32_t\<close>; \<open>>> 2\<close> on an \<open>int\<close> is the division by 4 that rounds down. A mask is
  only ever bound with \<open>is_write = false\<close>, so its buffer is a heap block, scaled in
  place.
\<close>

definition blend_opacity_if_needed :: "NEMAState \<Rightarrow> pipeline_ctx \<Rightarrow> pipeline_ctx result" where
  "blend_opacity_if_needed ds ctx =
     (if (blending_mode ctx AND NEMA_BL_OPA) = 0 then Inr ctx
      else
        let opacity = (ucast ((drop_bit 24 (const_color ctx)) AND 0xFF) :: byte)
        in case mask_tex ctx of
             None \<Rightarrow>
               (case dest_tex ctx of
                  None \<Rightarrow> Inl (Blend_dest_tex_null, ds)
                | Some dest \<Rightarrow>
                    let dest_width = width dest;
                        dest_height = height dest;
                        strd = to_int16 (if c_rem dest_width 4 = 0 then dest_width
                                         else (dest_width div 4 + 1) * 4);
                        sz = nat (to_uint32 (dest_height * strd));
                        mask_data = replicate sz opacity
                    in Inr (ctx\<lparr>mask_tex := Some (pixman_image_create_bits PIXMAN_a8
                              dest_width dest_height (Heap mask_data) strd)\<rparr>))
           | Some m \<Rightarrow>
               (case scale_mask_bytes (buffer_bytes (guest ds (trace ds)) (bits m))
                       opacity (nat (to_uint32 (stride m * height m))) 0 of
                  None \<Rightarrow> Inl (Buffer_overrun, ds)
                | Some data \<Rightarrow> Inr (ctx\<lparr>mask_tex := Some (m\<lparr>bits := Heap data\<rparr>)\<rparr>)))"

subsection \<open>The drawing operations\<close>

text \<open>
  \<open>execute_fill_rect\<close> and \<open>execute_blit\<close> end in \<open>pixman_image_composite\<close>, whose
  coordinates are \<open>int16_t\<close> and whose sizes are \<open>uint16_t\<close>: the \<open>int32_t\<close>, \<open>uint32_t\<close>
  and \<open>int\<close> arguments of the source are converted at the call.
\<close>

definition execute_fill_rect ::
  "NEMAState \<Rightarrow> nema_cmd \<Rightarrow> pipeline_ctx \<Rightarrow> (NEMAState \<times> pipeline_ctx) result" where
  "execute_fill_rect ds cmd ctx =
     (case validate_ctx ds ctx of
        Some f \<Rightarrow> Inl (f, ds)
      | None \<Rightarrow>
          (case blend_opacity_if_needed ds ctx of
             Inl e \<Rightarrow> Inl e
           | Inr ctx1 \<Rightarrow>
               Inr (log_event
                      (Composite (Solid_fill (u_int_c cmd)) (mask_tex ctx1) (dest_tex ctx1)
                         (pixman_clip_region ds) 0 0 0 0
                         (to_int16 (sint (int_a cmd))) (to_int16 (sint (int_b cmd)))
                         (to_uint16 (uint (u_int_a cmd))) (to_uint16 (uint (u_int_b cmd)))) ds,
                    ctx1)))"

definition execute_blit :: "NEMAState \<Rightarrow> pipeline_ctx \<Rightarrow> (NEMAState \<times> pipeline_ctx) result" where
  "execute_blit ds ctx =
     (case validate_ctx ds ctx of
        Some f \<Rightarrow> Inl (f, ds)
      | None \<Rightarrow>
          (case dest_tex ctx of
             None \<Rightarrow> Inl (Assert_not_null ''dest_tex'', ds)
           | Some dest \<Rightarrow>
               (case src_tex ctx of
                  None \<Rightarrow> Inl (Assert_not_null ''src_tex'', ds)
                | Some src \<Rightarrow>
                    (case blend_opacity_if_needed ds ctx of
                       Inl e \<Rightarrow> Inl e
                     | Inr ctx1 \<Rightarrow>
                         Inr (log_event
                                (Composite (Image_source src) (mask_tex ctx1) (dest_tex ctx1)
                                   (pixman_clip_region ds) 0 0 0 0 0 0
                                   (to_uint16 (width dest)) (to_uint16 (height dest))) ds,
                              ctx1)))))"

text \<open>
  \<open>cairo_prepare_source\<close>: the call it makes on the context, or its fault.
\<close>

definition cairo_prepare_source :: "pipeline_ctx \<Rightarrow> 32 word \<Rightarrow> fault + cairo_call" where
  "cairo_prepare_source ctx color =
     (if mask_tex ctx \<noteq> None then Inl Cairo_mask_not_implemented
      else if (blending_mode ctx AND NEMA_BL_OPA) = 0 then Inr (Set_source_rgba color None)
      else Inr (Set_source_rgba color
                  (Some (ucast ((drop_bit 24 (const_color ctx)) AND 0xFF)))))"

definition execute_draw_line ::
  "NEMAState \<Rightarrow> nema_cmd \<Rightarrow> pipeline_ctx \<Rightarrow> (NEMAState \<times> pipeline_ctx) result" where
  "execute_draw_line ds cmd ctx =
     (case cairo_prepare_source ctx (u_int_b cmd) of
        Inl f \<Rightarrow> Inl (f, ds)
      | Inr source \<Rightarrow>
          Inr (log_event
                 (Cairo (dest_surface ctx)
                    [Apply_clip (nema_clip_region ds), source, Set_line_cap_round,
                     Set_line_width (uint (u_int_a cmd)),
                     Move_to (sint (int_a cmd)) (sint (int_b cmd)),
                     Line_to (sint (int_c cmd)) (sint (int_d cmd)), Stroke]) ds,
               ctx))"

definition execute_fill_rect_rounded ::
  "NEMAState \<Rightarrow> nema_cmd \<Rightarrow> pipeline_ctx \<Rightarrow> (NEMAState \<times> pipeline_ctx) result" where
  "execute_fill_rect_rounded ds cmd ctx =
     Inr (log_event
            (Cairo (dest_surface ctx)
               [Apply_clip (nema_clip_region ds),
                Rounded_path (sint (int_a cmd)) (sint (int_b cmd)) (uint (u_int_a cmd))
                  (uint (u_int_b cmd)) (sint (int_c cmd)),
                Set_source_rgba (u_int_c cmd) None, Fill]) ds,
          ctx)"

definition execute_draw_rect ::
  "NEMAState \<Rightarrow> nema_cmd \<Rightarrow> pipeline_ctx \<Rightarrow> (NEMAState \<times> pipeline_ctx) result" where
  "execute_draw_rect ds cmd ctx =
     Inr (log_event
            (Cairo (dest_surface ctx)
               [Rectangle (sint (int_a cmd)) (sint (int_b cmd)) (uint (u_int_a cmd))
                  (uint (u_int_b cmd)),
                Set_source_rgba (u_int_c cmd) None, Stroke]) ds,
          ctx)"

definition execute_draw_rect_rounded ::
  "NEMAState \<Rightarrow> nema_cmd \<Rightarrow> pipeline_ctx \<Rightarrow> (NEMAState \<times> pipeline_ctx) result" where
  "execute_draw_rect_rounded ds cmd ctx =
     Inr (log_event
            (Cairo (dest_surface ctx)
               [Apply_clip (nema_clip_region ds),
                Rounded_path (sint (int_a cmd)) (sint (int_b cmd)) (uint (u_int_a cmd))
                  (uint (u_int_b cmd)) (sint (int_c cmd)),
                Set_source_rgba (u_int_c cmd) None, Stroke]) ds,
          ctx)"

subsection \<open>process_cmd, process_cl and the register handlers\<close>

text \<open>An \<open>execute_\<close> function followed by \<open>clean_up_ctx\<close>.\<close>

definition then_clean_up ::
  "(NEMAState \<times> pipeline_ctx) result \<Rightarrow> (NEMAState \<times> pipeline_ctx) result" where
  "then_clean_up r =
     (case r of Inl e \<Rightarrow> Inl e | Inr (ds1, ctx1) \<Rightarrow> Inr (clean_up_ctx ds1 ctx1))"

definition bind_tex ::
  "NEMAState \<Rightarrow> nema_cmd \<Rightarrow> pipeline_ctx \<Rightarrow> (NEMAState \<times> pipeline_ctx) result" where
  "bind_tex ds cmd ctx =
     (if u_int_8_a cmd = NEMA_TEX0 then
        (case read_tex ds cmd PIXMAN_a8r8g8b8 True of
           Inl e \<Rightarrow> Inl e
         | Inr img \<Rightarrow>
             Inr (ds, ctx\<lparr>dest_tex := Some img,
                         dest_surface := Some \<lparr>cs_data = bits img,
                           cs_width = sint (u_int_a cmd), cs_height = sint (u_int_b cmd),
                           cs_stride = sint (int_a cmd)\<rparr>\<rparr>))
      else if u_int_8_a cmd = NEMA_TEX1 then
        (case read_tex ds cmd PIXMAN_a8r8g8b8 False of
           Inl e \<Rightarrow> Inl e
         | Inr img \<Rightarrow> Inr (ds, ctx\<lparr>src_tex := Some img\<rparr>))
      else if u_int_8_a cmd = NEMA_TEX3 then
        (case read_tex ds cmd PIXMAN_a8 False of
           Inl e \<Rightarrow> Inl e
         | Inr img \<Rightarrow> Inr (ds, ctx\<lparr>mask_tex := Some img\<rparr>))
      else Inl (Invalid_tex_id, ds))"

text \<open>
  \<open>process_cmd\<close>: the \<open>switch\<close> on \<open>cmd.op\<close>, in the order of its cases. The record is
  logged on entry. \<open>bind_tex\<close> is the inner \<open>switch\<close> of \<open>NEMA_OP_BIND_TEX\<close>.
\<close>

definition process_cmd ::
  "NEMAState \<Rightarrow> nema_cmd \<Rightarrow> pipeline_ctx \<Rightarrow> (NEMAState \<times> pipeline_ctx) result" where
  "process_cmd ds0 cmd ctx =
     (let ds = log_event (Dispatch cmd) ds0 in
      if op cmd = NEMA_OP_BIND_TEX then bind_tex ds cmd ctx
      else if op cmd = NEMA_OP_SET_CLIP then
        Inr (ds\<lparr>pixman_clip_region :=
                   \<lparr>reg_x = int_a cmd, reg_y = int_b cmd, reg_w = u_int_a cmd, reg_h = u_int_b cmd\<rparr>,
                 nema_clip_region :=
                   \<lparr>reg_x = int_a cmd, reg_y = int_b cmd, reg_w = u_int_a cmd, reg_h = u_int_b cmd\<rparr>,
                 has_clip_set := True\<rparr>, ctx)
      else if op cmd = NEMA_OP_SET_BLEND_FILL then
        Inr (ds, ctx\<lparr>blending_option := BLEND_FILL, blending_mode := ucast (u_int_a cmd)\<rparr>)
      else if op cmd = NEMA_OP_SET_BLEND_BLIT then
        Inr (ds, ctx\<lparr>blending_option := BLEND_BLIT, blending_mode := ucast (u_int_a cmd)\<rparr>)
      else if op cmd = NEMA_OP_BLIT then then_clean_up (execute_blit ds ctx)
      else if op cmd = NEMA_OP_FILL_RECT then then_clean_up (execute_fill_rect ds cmd ctx)
      else if op cmd = NEMA_OP_SET_CONST_COLOR then
        Inr (ds, ctx\<lparr>const_color := u_int_a cmd, const_color_set := True\<rparr>)
      else if op cmd = NEMA_OP_DRAW_LINE then then_clean_up (execute_draw_line ds cmd ctx)
      else if op cmd = NEMA_OP_FILL_RECT_ROUNDED
        then then_clean_up (execute_fill_rect_rounded ds cmd ctx)
      else if op cmd = NEMA_OP_DRAW_RECT_ROUNDED
        then then_clean_up (execute_draw_rect_rounded ds cmd ctx)
      else if op cmd = NEMA_OP_DRAW_RECT then then_clean_up (execute_draw_rect ds cmd ctx)
      else Inl (Unsupported_command (op cmd), ds))"

text \<open>
  \<open>cl\<close> is the pointer that \<open>cpu_physical_memory_map\<close> returns for the command-list
  block: the block is RAM, so the pointer leads into guest memory itself and every read
  through it finds what guest memory holds at that moment.
\<close>

definition cl_mapped :: "NEMAState \<Rightarrow> nema_cmdlist" where
  "cl_mapped ds = snd (map_cl (guest ds (trace ds)))"

text \<open>
  The loop of \<open>process_cl\<close> from index \<open>i\<close>, a \<open>uint8_t\<close>. Every iteration reads
  \<open>cl->next_cmd_slot\<close> and \<open>cl->list[i]\<close> through the pointer. The source does not compare
  \<open>i\<close> with the size of the array: reading \<open>list[i]\<close> outside it is a fault here.
\<close>

function process_cl_loop ::
  "NEMAState \<Rightarrow> nat \<Rightarrow> pipeline_ctx \<Rightarrow> (NEMAState \<times> pipeline_ctx) result"
where
  "process_cl_loop ds i ctx =
     (if i < unat (next_cmd_slot (cl_mapped ds)) then
        (if i < length (list (cl_mapped ds)) then
           (case process_cmd ds (list (cl_mapped ds) ! i) ctx of
              Inl e \<Rightarrow> Inl e
            | Inr (ds1, ctx1) \<Rightarrow> process_cl_loop ds1 ((i + 1) mod 256) ctx1)
         else Inl (List_index_out_of_bounds i, ds))
      else Inr (ds, ctx))"
  by pat_completeness auto
termination
proof (relation "measure (\<lambda>(ds, i, ctx). 256 - i)")
  show "wf (measure (\<lambda>(ds, i, ctx). 256 - i))"
    by simp
next
  fix ds :: NEMAState and i :: nat and ctx :: pipeline_ctx
    and x2 :: "NEMAState \<times> pipeline_ctx" and ds1 :: NEMAState and ctx1 :: pipeline_ctx
  assume lt: "i < unat (next_cmd_slot (cl_mapped ds))"
  have "unat (next_cmd_slot (cl_mapped ds)) < 2 ^ LENGTH(8)"
    by (rule unsigned_less)
  then have "unat (next_cmd_slot (cl_mapped ds)) < 256"
    by simp
  with lt have "(i + 1) mod 256 = i + 1" and "i < 255"
    by simp_all
  then show "((ds1, (i + 1) mod 256, ctx1), (ds, i, ctx)) \<in> measure (\<lambda>(ds, i, ctx). 256 - i)"
    by simp
qed

declare process_cl_loop.simps [simp del]

text \<open>\<open>process_cl\<close>: a fresh zeroed context, the loop, then the interrupt.\<close>

definition process_cl :: "NEMAState \<Rightarrow> NEMAState result" where
  "process_cl ds =
     (case process_cl_loop ds 0 pipeline_ctx_zero of
        Inl e \<Rightarrow> Inl e
      | Inr (ds1, ctx1) \<Rightarrow> Inr (qemu_irq_raise ds1))"

text \<open>
  \<open>on_nema_io_write(opaque, offset, val, size)\<close>; \<open>sz\<close> is the access size, which the
  source ignores. \<open>len\<close> is the length that the mapping of the command-list block
  answers.
\<close>

definition on_nema_io_write :: "NEMAState \<Rightarrow> 64 word \<Rightarrow> 64 word \<Rightarrow> nat \<Rightarrow> NEMAState result" where
  "on_nema_io_write ds offset val sz =
     (if offset = NEMA_REG_OP \<and> val = NEMA_REG_OP_SUBMIT_COMMAND_LIST then
        (let len = fst (map_cl (guest ds (trace ds))) in
         if len \<noteq> sizeof_nema_cmdlist_t then Inl (Cl_load_failed, ds)
         else process_cl ds)
      else if offset = NEMA_REG_SIG \<and> val = NEMA_REG_OP_SIGNAL_RECEIVED then
        Inr (qemu_irq_lower ds)
      else Inr ds)"

text \<open>\<open>on_nema_io_read(opaque, addr, size)\<close>: the value returned and the device state.\<close>

definition on_nema_io_read :: "NEMAState \<Rightarrow> 64 word \<Rightarrow> nat \<Rightarrow> 64 word \<times> NEMAState" where
  "on_nema_io_read ds addr sz = (0, ds)"

subsection \<open>Reading the log\<close>

text \<open>The six drawing operations.\<close>

definition is_drawing_op :: "byte \<Rightarrow> bool" where
  "is_drawing_op c \<longleftrightarrow>
     c = NEMA_OP_DRAW_LINE \<or> c = NEMA_OP_BLIT \<or> c = NEMA_OP_FILL_RECT \<or> c = NEMA_OP_DRAW_RECT
     \<or> c = NEMA_OP_FILL_RECT_ROUNDED \<or> c = NEMA_OP_DRAW_RECT_ROUNDED"

text \<open>The records handed to \<open>process_cmd\<close>, in the order of the log.\<close>

fun dispatched :: "event list \<Rightarrow> nema_cmd list" where
  "dispatched [] = []"
| "dispatched (Dispatch c # es) = c # dispatched es"
| "dispatched (e # es) = dispatched es"

text \<open>The entries that are calls into pixman, cairo or the memory API.\<close>

fun is_lib_call :: "event \<Rightarrow> bool" where
  "is_lib_call (Composite s m d r sx sy mx my dx dy w h) = True"
| "is_lib_call (Cairo t cs) = True"
| "is_lib_call (Unmap i) = True"
| "is_lib_call e = False"

definition add_events :: "event list \<Rightarrow> NEMAState \<Rightarrow> NEMAState" where
  "add_events es ds = ds\<lparr>trace := trace ds @ es\<rparr>"

text \<open>
  The cairo contexts logged between two device states: the surface each was created on
  and the calls made on it.
\<close>

definition cairo_calls ::
  "NEMAState \<Rightarrow> NEMAState \<Rightarrow> (cairo_surface option \<times> cairo_call list) list" where
  "cairo_calls ds ds' =
     concat (map (\<lambda>e. case e of Cairo t cs \<Rightarrow> [(t, cs)] | _ \<Rightarrow> [])
       (drop (length (trace ds)) (trace ds')))"

text \<open>
  Readiness as the specification lists it: a clip has been set, a destination image and
  surface are bound, a mask is bound exactly when the has-mask flag is set, and the
  constant colour is set exactly when the has-opacity flag is set.
\<close>

definition ctx_ready :: "NEMAState \<Rightarrow> pipeline_ctx \<Rightarrow> bool" where
  "ctx_ready ds ctx \<longleftrightarrow>
     has_clip_set ds \<and> dest_tex ctx \<noteq> None \<and> dest_surface ctx \<noteq> None
     \<and> (((blending_mode ctx AND NEMA_BL_MASK) \<noteq> 0) = (mask_tex ctx \<noteq> None))
     \<and> (((blending_mode ctx AND NEMA_BL_OPA) \<noteq> 0) = const_color_set ctx)"

subsection \<open>The compositor\<close>

text \<open>
  Modelled from the spec: \<open>pixman_image_composite\<close> is a function of the pixman library,
  which is not part of the repository. The specification has the compositor put the
  source over the destination, \<open>destination = source * alpha + destination * (1 - alpha)\<close>,
  at the requested rectangle and inside the destination's clip region, with an optional
  mask that combines with the alpha multiplicatively. Here a pixel is a 32-bit ARGB
  word, stored with its low byte first; a channel and the coverage of a mask byte run
  from 0 to 255; a position outside a source image is transparent and one outside the
  mask has coverage 0; without a mask the coverage is 255. The pixel of the source and of
  the mask for the destination pixel \<open>(X, Y)\<close> is at \<open>(src_x + X - dest_x, src_y + Y - dest_y)\<close>
  and \<open>(mask_x + X - dest_x, mask_y + Y - dest_y)\<close>. A read outside the buffer of an image
  is \<open>None\<close>.
\<close>

definition argb_at :: "byte list \<Rightarrow> int \<Rightarrow> 32 word option" where
  "argb_at data off =
     (if 0 \<le> off \<and> off + 4 \<le> int (length data) then
        Some (word_of_nat (unat (data ! nat off) + 256 * unat (data ! nat (off + 1))
                + 65536 * unat (data ! nat (off + 2)) + 16777216 * unat (data ! nat (off + 3))))
      else None)"

definition channel :: "nat \<Rightarrow> 32 word \<Rightarrow> nat" where
  "channel k p = unat p div 256 ^ k mod 256"

definition over :: "nat \<Rightarrow> 32 word \<Rightarrow> 32 word \<Rightarrow> 32 word" where
  "over coverage s d =
     (let alpha = channel 3 s * coverage div 255;
          mix = (\<lambda>k. (channel k s * alpha + channel k d * (255 - alpha)) div 255)
      in word_of_nat (mix 0 + 256 * mix 1 + 65536 * mix 2 + 16777216 * mix 3))"

definition source_pixel :: "guest_mem \<Rightarrow> composite_source \<Rightarrow> int \<Rightarrow> int \<Rightarrow> 32 word option" where
  "source_pixel g src i j =
     (case src of
        Solid_fill c \<Rightarrow> Some c
      | Image_source img \<Rightarrow>
          if 0 \<le> i \<and> i < width img \<and> 0 \<le> j \<and> j < height img
          then argb_at (buffer_bytes g (bits img)) (j * stride img + 4 * i)
          else Some 0)"

definition mask_coverage :: "guest_mem \<Rightarrow> pixman_image option \<Rightarrow> int \<Rightarrow> int \<Rightarrow> nat option" where
  "mask_coverage g msk i j =
     (case msk of
        None \<Rightarrow> Some 255
      | Some m \<Rightarrow>
          if 0 \<le> i \<and> i < width m \<and> 0 \<le> j \<and> j < height m then
            (let off = j * stride m + i
             in if 0 \<le> off \<and> off < int (length (buffer_bytes g (bits m)))
                then Some (unat (buffer_bytes g (bits m) ! nat off))
                else None)
          else Some 0)"

definition in_clip :: "nema_region \<Rightarrow> int \<Rightarrow> int \<Rightarrow> bool" where
  "in_clip r X Y \<longleftrightarrow>
     sint (reg_x r) \<le> X \<and> X < sint (reg_x r) + uint (reg_w r)
     \<and> sint (reg_y r) \<le> Y \<and> Y < sint (reg_y r) + uint (reg_h r)"

text \<open>The destination pixel \<open>(X, Y)\<close> after the call.\<close>

definition composite_pixel ::
  "guest_mem \<Rightarrow> composite_source \<Rightarrow> pixman_image option \<Rightarrow> pixman_image \<Rightarrow> nema_region
   \<Rightarrow> int \<Rightarrow> int \<Rightarrow> int \<Rightarrow> int \<Rightarrow> int \<Rightarrow> int \<Rightarrow> int \<Rightarrow> int \<Rightarrow> int \<Rightarrow> int \<Rightarrow> 32 word option" where
  "composite_pixel g src msk dest clip src_x src_y mask_x mask_y dest_x dest_y w h X Y =
     (case argb_at (buffer_bytes g (bits dest)) (Y * stride dest + 4 * X) of
        None \<Rightarrow> None
      | Some old \<Rightarrow>
          if dest_x \<le> X \<and> X < dest_x + w \<and> dest_y \<le> Y \<and> Y < dest_y + h \<and> in_clip clip X Y then
            (case source_pixel g src (src_x + X - dest_x) (src_y + Y - dest_y) of
               None \<Rightarrow> None
             | Some s \<Rightarrow>
                 (case mask_coverage g msk (mask_x + X - dest_x) (mask_y + Y - dest_y) of
                    None \<Rightarrow> None
                  | Some c \<Rightarrow> Some (over c s old)))
          else Some old)"

text \<open>The rows of the destination after the call, each a list of pixels.\<close>

definition pixman_image_composite ::
  "guest_mem \<Rightarrow> composite_source \<Rightarrow> pixman_image option \<Rightarrow> pixman_image \<Rightarrow> nema_region
   \<Rightarrow> int \<Rightarrow> int \<Rightarrow> int \<Rightarrow> int \<Rightarrow> int \<Rightarrow> int \<Rightarrow> int \<Rightarrow> int \<Rightarrow> 32 word list list option" where
  "pixman_image_composite g src msk dest clip src_x src_y mask_x mask_y dest_x dest_y w h =
     those (map (\<lambda>Y. those (map (\<lambda>X.
         composite_pixel g src msk dest clip src_x src_y mask_x mask_y dest_x dest_y w h
           (int X) (int Y))
       [0..<nat (width dest)])) [0..<nat (height dest)])"

text \<open>
  The destination pixels that a logged composite call leaves, computed on guest memory
  as it is at the call; and those left by \<open>execute_fill_rect\<close> and \<open>execute_blit\<close>, whose
  last logged call is the composite.
\<close>

definition drawn_pixels :: "guest_mem \<Rightarrow> event \<Rightarrow> 32 word list list option" where
  "drawn_pixels g e =
     (case e of
        Composite src msk (Some dest) clip src_x src_y mask_x mask_y dest_x dest_y w h \<Rightarrow>
          pixman_image_composite g src msk dest clip src_x src_y mask_x mask_y dest_x dest_y w h
      | _ \<Rightarrow> None)"

definition pixels_after ::
  "NEMAState \<Rightarrow> (NEMAState \<times> pipeline_ctx) result \<Rightarrow> fault + 32 word list list option" where
  "pixels_after ds r =
     map_sum fst (\<lambda>r. drawn_pixels (guest ds (trace ds)) (last (trace (fst r)))) r"

subsection \<open>Functions used to state the claims\<close>

text \<open>
  The contract of the dispatcher in the words of the specification: the records are
  handed to their handlers in index order with the shared context, a handler that faults
  ends the submission, and after the last record the completion signal is raised once.
\<close>

fun spec_dispatch ::
  "NEMAState \<Rightarrow> pipeline_ctx \<Rightarrow> nema_cmd list \<Rightarrow> (NEMAState \<times> pipeline_ctx) result" where
  "spec_dispatch ds ctx [] = Inr (ds, ctx)"
| "spec_dispatch ds ctx (c # cs) =
     (case process_cmd ds c ctx of
        Inl e \<Rightarrow> Inl e
      | Inr (ds1, ctx1) \<Rightarrow> spec_dispatch ds1 ctx1 cs)"

definition spec_submit :: "NEMAState \<Rightarrow> nema_cmd list \<Rightarrow> NEMAState result" where
  "spec_submit ds cs =
     (case spec_dispatch ds pipeline_ctx_zero cs of
        Inl e \<Rightarrow> Inl e
      | Inr (ds1, ctx1) \<Rightarrow> Inr (qemu_irq_raise ds1))"

text \<open>The entries logged between two device states.\<close>

definition new_events :: "NEMAState \<Rightarrow> NEMAState \<Rightarrow> event list" where
  "new_events ds ds' = drop (length (trace ds)) (trace ds')"

text \<open>The four operations that only set a value: they touch no memory and never fault.\<close>

definition is_setting_op :: "byte \<Rightarrow> bool" where
  "is_setting_op c \<longleftrightarrow>
     c = NEMA_OP_SET_CLIP \<or> c = NEMA_OP_SET_BLEND_FILL \<or> c = NEMA_OP_SET_BLEND_BLIT
     \<or> c = NEMA_OP_SET_CONST_COLOR"

text \<open>The clip state of the device: the flag and the two copies of the rectangle.\<close>

definition clip_state :: "NEMAState \<Rightarrow> bool \<times> nema_region \<times> nema_region" where
  "clip_state ds = (has_clip_set ds, pixman_clip_region ds, nema_clip_region ds)"

text \<open>
  The clip state after a sequence of records: each SET_CLIP overwrites it with its
  rectangle, every other record leaves it.
\<close>

fun clip_after :: "bool \<times> nema_region \<times> nema_region \<Rightarrow> nema_cmd list
    \<Rightarrow> bool \<times> nema_region \<times> nema_region" where
  "clip_after s [] = s"
| "clip_after s (c # cs) =
     clip_after
       (if op c = NEMA_OP_SET_CLIP then
          (True,
           \<lparr>reg_x = int_a c, reg_y = int_b c, reg_w = u_int_a c, reg_h = u_int_b c\<rparr>,
           \<lparr>reg_x = int_a c, reg_y = int_b c, reg_w = u_int_a c, reg_h = u_int_b c\<rparr>)
        else s) cs"

text \<open>The top byte of the constant colour.\<close>

definition opacity_byte :: "pipeline_ctx \<Rightarrow> byte" where
  "opacity_byte ctx = ucast (drop_bit 24 (const_color ctx))"

text \<open>\<open>(byte * opacity) >> 8\<close> on the values of the two bytes.\<close>

definition scale_byte :: "byte \<Rightarrow> byte \<Rightarrow> byte" where
  "scale_byte opacity b = word_of_nat (unat b * unat opacity div 256)"

text \<open>The least multiple of 4 that is not below \<open>n\<close>.\<close>

definition round_up_4 :: "int \<Rightarrow> int" where
  "round_up_4 n = (n + 3) div 4 * 4"

text \<open>
  The alpha-only image of the size of \<open>dest\<close> whose bytes are all 255, its rows as long
  as the width rounded up to a multiple of 4.
\<close>

definition opaque_mask :: "pixman_image \<Rightarrow> pixman_image" where
  "opaque_mask dest =
     \<lparr>format = PIXMAN_a8, width = width dest, height = height dest,
      bits = Heap (replicate (nat (height dest * round_up_4 (width dest))) 0xFF),
      stride = round_up_4 (width dest)\<rparr>"

text \<open>
  Row \<open>r\<close> of a mask of row length \<open>s\<close>, followed by \<open>p\<close> zero bytes; and the first \<open>n\<close>
  such rows.
\<close>

definition padded_row :: "nat \<Rightarrow> nat \<Rightarrow> byte list \<Rightarrow> nat \<Rightarrow> byte list" where
  "padded_row s p msk r = take s (drop (r * s) msk) @ replicate p 0"

definition padded_rows :: "nat \<Rightarrow> nat \<Rightarrow> byte list \<Rightarrow> nat \<Rightarrow> byte list" where
  "padded_rows s p msk n = concat (map (padded_row s p msk) [0..<n])"

text \<open>
  Of the result of a record: the fault, or the stride, height and buffer of the mask
  bound in the context.
\<close>

definition mask_summary ::
  "(NEMAState \<times> pipeline_ctx) result \<Rightarrow> fault + (int \<times> int \<times> buffer) option" where
  "mask_summary r =
     map_sum fst (\<lambda>r. map_option (\<lambda>m. (stride m, height m, bits m)) (mask_tex (snd r))) r"

subsection \<open>Concrete inputs\<close>

definition cmd_zero :: nema_cmd where
  "cmd_zero = \<lparr>op = 0, addr_a = 0, addr_b = 0, u_int_8_a = 0, u_int_a = 0, u_int_b = 0,
     u_int_c = 0, int_a = 0, int_b = 0, int_c = 0, int_d = 0\<rparr>"

definition ex_cl_empty :: nema_cmdlist where
  "ex_cl_empty = \<lparr>list = replicate 250 cmd_zero, next_cmd_slot = 0\<rparr>"

text \<open>
  A guest whose main memory holds at each address the low byte of the address, whose
  ITCM is zero, and where every mapping succeeds.
\<close>

definition ex_guest :: guest_mem where
  "ex_guest = \<lparr>ram = (\<lambda>a. word_of_nat a), itcm = (\<lambda>a. 0), itcm_fails = (\<lambda>a n. False),
     map_write = (\<lambda>a n. Some n), map_cl = (sizeof_nema_cmdlist_t, ex_cl_empty),
     uninit = (\<lambda>a. 0xAA)\<rparr>"

text \<open>A device on which no clip has been set, and one with the clip \<open>(0, 0, 8, 8)\<close>.\<close>

definition ex_ds :: NEMAState where
  "ex_ds = \<lparr>inst_processed = False, has_clip_set = False, pixman_clip_region = region_zero,
     nema_clip_region = region_zero, trace = [], guest = (\<lambda>tr. ex_guest)\<rparr>"

definition ex_clip :: nema_region where
  "ex_clip = \<lparr>reg_x = 0, reg_y = 0, reg_w = 8, reg_h = 8\<rparr>"

definition ex_ds_clip :: NEMAState where
  "ex_ds_clip = ex_ds\<lparr>has_clip_set := True, pixman_clip_region := ex_clip,
     nema_clip_region := ex_clip\<rparr>"

text \<open>An 8 by 8 destination, a context that binds it, and one that also has opacity on.\<close>

definition ex_dest :: pixman_image where
  "ex_dest = \<lparr>format = PIXMAN_a8r8g8b8, width = 8, height = 8, bits = Mapped 0x1000 256,
     stride = 32\<rparr>"

definition ex_surface :: cairo_surface where
  "ex_surface = \<lparr>cs_data = Mapped 0x1000 256, cs_width = 8, cs_height = 8, cs_stride = 32\<rparr>"

definition ex_ctx_dest :: pipeline_ctx where
  "ex_ctx_dest = pipeline_ctx_zero\<lparr>dest_tex := Some ex_dest, dest_surface := Some ex_surface\<rparr>"

definition ex_ctx_opa :: pipeline_ctx where
  "ex_ctx_opa = ex_ctx_dest\<lparr>const_color := 0x80000000, const_color_set := True,
     blending_mode := 4\<rparr>"

definition ex_fill :: nema_cmd where
  "ex_fill = cmd_zero\<lparr>op := NEMA_OP_FILL_RECT, u_int_a := 8, u_int_b := 8, u_int_c := 0xFFFF0000\<rparr>"

definition ex_draw_rect :: nema_cmd where
  "ex_draw_rect = cmd_zero\<lparr>op := NEMA_OP_DRAW_RECT, u_int_a := 8, u_int_b := 8,
     u_int_c := 0xFFFF0000\<rparr>"

text \<open>A bound 8 by 8 mask with the has-mask flag on, and a line.\<close>

definition ex_mask :: pixman_image where
  "ex_mask = \<lparr>format = PIXMAN_a8, width = 8, height = 8, bits = Heap (replicate 64 0xFF),
     stride = 8\<rparr>"

definition ex_ctx_mask :: pipeline_ctx where
  "ex_ctx_mask = ex_ctx_dest\<lparr>mask_tex := Some ex_mask, blending_mode := 2\<rparr>"

definition ex_line :: nema_cmd where
  "ex_line = cmd_zero\<lparr>op := NEMA_OP_DRAW_LINE, u_int_a := 1, u_int_b := 0xFFFF0000, int_c := 7,
     int_d := 7\<rparr>"

text \<open>A record that sets the clip \<open>(0, 0, 8, 8)\<close> and one that sets a constant colour.\<close>

definition ex_set_clip :: nema_cmd where
  "ex_set_clip = cmd_zero\<lparr>op := NEMA_OP_SET_CLIP, u_int_a := 8, u_int_b := 8\<rparr>"

definition ex_set_color :: nema_cmd where
  "ex_set_color = cmd_zero\<lparr>op := NEMA_OP_SET_CONST_COLOR, u_int_a := 0x80000000\<rparr>"

text \<open>
  A list of three records that sets the clip, binds the 8 by 8 destination at
  \<open>0x1000\<close> and fills it, on a guest whose command-list block always reads this list.
\<close>

definition ex_bind_dest :: nema_cmd where
  "ex_bind_dest = cmd_zero\<lparr>op := NEMA_OP_BIND_TEX, u_int_8_a := NEMA_TEX0, addr_a := 0x1000,
     u_int_a := 8, u_int_b := 8, int_a := 32\<rparr>"

definition ex_cl_draw :: nema_cmdlist where
  "ex_cl_draw = \<lparr>list = ex_set_clip # ex_bind_dest # ex_fill # replicate 247 cmd_zero,
     next_cmd_slot = 3\<rparr>"

definition ex_ds_draw :: NEMAState where
  "ex_ds_draw = ex_ds\<lparr>guest := (\<lambda>tr. ex_guest\<lparr>map_cl := (sizeof_nema_cmdlist_t, ex_cl_draw)\<rparr>)\<rparr>"

text \<open>
  A list that draws into its own block. The block lies at \<open>0x22201000\<close>
  (\<open>NEMA_CL_MEM_START\<close>); its count byte follows the 250 records of 44 bytes, at
  \<open>0x22203AF8\<close>. The second record binds a destination of one pixel on the four bytes
  there, the third fills that pixel with \<open>0xFF000000\<close>, whose low byte, 0, is stored on the
  count byte. The guest's block reads the list with its count of 4 until a composite is
  logged, and with the count 0 from then on.
\<close>

fun is_composite :: "event \<Rightarrow> bool" where
  "is_composite (Composite s m d r sx sy mx my dx dy w h) = True"
| "is_composite e = False"

definition ex_bind_count :: nema_cmd where
  "ex_bind_count = cmd_zero\<lparr>op := NEMA_OP_BIND_TEX, u_int_8_a := NEMA_TEX0,
     addr_a := 0x22203AF8, u_int_a := 1, u_int_b := 1, int_a := 4\<rparr>"

definition ex_fill_count :: nema_cmd where
  "ex_fill_count = cmd_zero\<lparr>op := NEMA_OP_FILL_RECT, u_int_a := 1, u_int_b := 1,
     u_int_c := 0xFF000000\<rparr>"

definition ex_cl_self :: nema_cmdlist where
  "ex_cl_self = \<lparr>list = ex_set_clip # ex_bind_count # ex_fill_count # ex_set_color
       # replicate 246 cmd_zero,
     next_cmd_slot = 4\<rparr>"

definition ex_ds_self :: NEMAState where
  "ex_ds_self = ex_ds\<lparr>guest := (\<lambda>tr. ex_guest\<lparr>map_cl :=
     (sizeof_nema_cmdlist_t,
      if list_ex is_composite tr then ex_cl_self\<lparr>next_cmd_slot := 0\<rparr> else ex_cl_self)\<rparr>)\<rparr>"

text \<open>
  A list of two records that sets the clip and the constant colour, a list that binds the
  destination and fills it, and a guest whose block reads the first list until an
  interrupt has been raised and the second list afterwards.
\<close>

definition ex_cl_two :: nema_cmdlist where
  "ex_cl_two = \<lparr>list = ex_set_clip # ex_set_color # replicate 248 cmd_zero, next_cmd_slot = 2\<rparr>"

definition ex_cl_fill :: nema_cmdlist where
  "ex_cl_fill = \<lparr>list = ex_bind_dest # ex_fill # replicate 248 cmd_zero, next_cmd_slot = 2\<rparr>"

definition ex_ds_pair :: NEMAState where
  "ex_ds_pair = ex_ds\<lparr>guest := (\<lambda>tr. ex_guest\<lparr>map_cl :=
     (sizeof_nema_cmdlist_t, if Irq_raise \<in> set tr then ex_cl_fill else ex_cl_two)\<rparr>)\<rparr>"

text \<open>A list of 250 SET_CLIP records whose count byte is 251, and a guest that maps it.\<close>

definition ex_cl_251 :: nema_cmdlist where
  "ex_cl_251 = \<lparr>list = replicate 250 ex_set_clip, next_cmd_slot = 251\<rparr>"

definition ex_ds_251 :: NEMAState where
  "ex_ds_251 = ex_ds\<lparr>guest := (\<lambda>tr. ex_guest\<lparr>map_cl := (sizeof_nema_cmdlist_t, ex_cl_251)\<rparr>)\<rparr>"

text \<open>
  A destination 32765 pixels wide and one row high, with opacity on; a mask whose buffer
  is shorter than its stride times its height, as a bind with stride 65537 leaves it;
  and the 8 by 8 mask with both the has-mask and the has-opacity flag.
\<close>

definition ex_dest_wide :: pixman_image where
  "ex_dest_wide = \<lparr>format = PIXMAN_a8r8g8b8, width = 32765, height = 1,
     bits = Mapped 0x1000 131060, stride = 131060\<rparr>"

definition ex_ctx_wide :: pipeline_ctx where
  "ex_ctx_wide = pipeline_ctx_zero\<lparr>dest_tex := Some ex_dest_wide,
     dest_surface := Some \<lparr>cs_data = Mapped 0x1000 131060, cs_width = 32765, cs_height = 1,
       cs_stride = 131060\<rparr>,
     const_color := 0x80000000, const_color_set := True, blending_mode := 4\<rparr>"

definition ex_mask_short :: pixman_image where
  "ex_mask_short = \<lparr>format = PIXMAN_a8, width = 5, height = 1, bits = Heap [16, 0, 0, 0],
     stride = 65540\<rparr>"

definition ex_ctx_mask_short :: pipeline_ctx where
  "ex_ctx_mask_short = ex_ctx_dest\<lparr>mask_tex := Some ex_mask_short, const_color := 0x80000000,
     const_color_set := True, blending_mode := 6\<rparr>"

definition ex_ctx_mask_opa :: pipeline_ctx where
  "ex_ctx_mask_opa = ex_ctx_dest\<lparr>mask_tex := Some ex_mask, const_color := 0x80000000,
     const_color_set := True, blending_mode := 6\<rparr>"

text \<open>A mask bind at address 16 with width 5, stride \<open>s\<close> and height \<open>n\<close>.\<close>

definition ex_bind_mask :: "32 word \<Rightarrow> 32 word \<Rightarrow> nema_cmd" where
  "ex_bind_mask s n = cmd_zero\<lparr>op := NEMA_OP_BIND_TEX, u_int_8_a := NEMA_TEX3, addr_a := 16,
     u_int_a := 5, u_int_b := n, int_a := s\<rparr>"

text \<open>
  A destination of two pixels on one row at \<open>0x1000\<close>, a source of a red and a green
  pixel, a context that binds both, the same context with the has-opacity flag and a
  constant colour whose top byte is 255, a fill of three pixels that starts one pixel left
  of the destination, and a fill of the two pixels of the destination.
\<close>

definition ex_dest_row :: pixman_image where
  "ex_dest_row = \<lparr>format = PIXMAN_a8r8g8b8, width = 2, height = 1, bits = Mapped 0x1000 8,
     stride = 8\<rparr>"

definition ex_src_row :: pixman_image where
  "ex_src_row = \<lparr>format = PIXMAN_a8r8g8b8, width = 2, height = 1,
     bits = Heap [0, 0, 0xFF, 0xFF, 0, 0xFF, 0, 0xFF], stride = 8\<rparr>"

definition ex_ctx_row :: pipeline_ctx where
  "ex_ctx_row = pipeline_ctx_zero\<lparr>dest_tex := Some ex_dest_row, src_tex := Some ex_src_row,
     dest_surface := Some \<lparr>cs_data = Mapped 0x1000 8, cs_width = 2, cs_height = 1,
       cs_stride = 8\<rparr>\<rparr>"

definition ex_ctx_row_opaque :: pipeline_ctx where
  "ex_ctx_row_opaque = ex_ctx_row\<lparr>const_color := 0xFF000000, const_color_set := True,
     blending_mode := 4\<rparr>"

definition ex_fill_left :: nema_cmd where
  "ex_fill_left = cmd_zero\<lparr>op := NEMA_OP_FILL_RECT, int_a := - 1, u_int_a := 3, u_int_b := 1,
     u_int_c := 0xFFFF0000\<rparr>"

definition ex_fill_row :: nema_cmd where
  "ex_fill_row = cmd_zero\<lparr>op := NEMA_OP_FILL_RECT, u_int_a := 2, u_int_b := 1,
     u_int_c := 0xFFFF0000\<rparr>"

text \<open>
  A destination 32765 pixels wide and two rows high with a context that binds it, and the
  same context with the has-opacity flag and the opaque constant colour.
\<close>

definition ex_dest_wide2 :: pixman_image where
  "ex_dest_wide2 = \<lparr>format = PIXMAN_a8r8g8b8, width = 32765, height = 2,
     bits = Mapped 0x1000 262120, stride = 131060\<rparr>"

definition ex_ctx_wide2 :: pipeline_ctx where
  "ex_ctx_wide2 = pipeline_ctx_zero\<lparr>dest_tex := Some ex_dest_wide2,
     dest_surface := Some \<lparr>cs_data = Mapped 0x1000 262120, cs_width = 32765, cs_height = 2,
       cs_stride = 131060\<rparr>\<rparr>"

definition ex_ctx_wide2_opaque :: pipeline_ctx where
  "ex_ctx_wide2_opaque = ex_ctx_wide2\<lparr>const_color := 0xFF000000, const_color_set := True,
     blending_mode := 4\<rparr>"

section \<open>Lemmas\<close>

lemmas nema_op_defs =
  NEMA_OP_BIND_TEX_def NEMA_OP_SET_CLIP_def NEMA_OP_SET_BLEND_BLIT_def
  NEMA_OP_SET_BLEND_FILL_def NEMA_OP_SET_CONST_COLOR_def NEMA_OP_DRAW_LINE_def
  NEMA_OP_BLIT_def NEMA_OP_FILL_RECT_def NEMA_OP_DRAW_RECT_def
  NEMA_OP_FILL_RECT_ROUNDED_def NEMA_OP_DRAW_RECT_ROUNDED_def

subsection \<open>The context after a drawing operation\<close>

lemma clean_up_ctx_zero: "snd (clean_up_ctx ds ctx) = pipeline_ctx_zero"
  by (simp add: clean_up_ctx_def unmap_pixman_imgs_def pipeline_ctx_zero_def split: prod.splits)

lemma then_clean_up_Inr:
  "then_clean_up r = Inr (ds', ctx') \<Longrightarrow> ctx' = pipeline_ctx_zero"
  using clean_up_ctx_zero
  by (auto simp: then_clean_up_def split: sum.splits prod.splits) (metis snd_conv)

lemmas ex_defs = ex_cl_empty_def ex_guest_def ex_ds_def ex_clip_def ex_ds_clip_def cmd_zero_def
  ex_dest_def ex_surface_def ex_ctx_dest_def ex_ctx_opa_def ex_fill_def ex_draw_rect_def
  ex_mask_def ex_ctx_mask_def ex_line_def
  pipeline_ctx_zero_def region_zero_def

lemmas run_defs = process_cmd_def then_clean_up_def clean_up_ctx_def unmap_pixman_imgs_def
  execute_fill_rect_def execute_blit_def execute_draw_line_def execute_draw_rect_def
  execute_fill_rect_rounded_def execute_draw_rect_rounded_def cairo_prepare_source_def
  validate_ctx_def blend_opacity_if_needed_def log_event_def pixman_image_create_bits_def
  NEMA_BL_MASK_def NEMA_BL_OPA_def NEMA_BL_SIMPLE_def nema_op_defs
  to_int16_def to_uint32_def to_uint8_def to_int32_def c_rem_def

subsection \<open>What each function adds to the log\<close>

lemma add_events_Nil [simp]: "add_events [] ds = ds"
  by (simp add: add_events_def)

lemma add_events_add_events [simp]: "add_events es (add_events fs ds) = add_events (fs @ es) ds"
  by (simp add: add_events_def)

lemma log_event_add: "log_event e ds = add_events [e] ds"
  by (simp add: log_event_def add_events_def)

lemma lib_callI: "is_lib_call e \<Longrightarrow> \<exists>e'. is_lib_call e' \<and> add_events [e] ds = add_events [e'] ds"
  by blast

lemma read_tex_Inl: "read_tex ds cmd fmt wr = Inl (f, dx) \<Longrightarrow> dx = ds"
  by (auto simp: read_tex_def Let_def split: sum.splits option.splits if_splits)

lemma blend_opacity_Inl: "blend_opacity_if_needed ds ctx = Inl (f, dx) \<Longrightarrow> dx = ds"
  by (auto simp: blend_opacity_if_needed_def Let_def split: sum.splits option.splits if_splits)

lemma bind_tex_Inl: "bind_tex ds cmd ctx = Inl (f, dx) \<Longrightarrow> dx = ds"
  by (auto simp: bind_tex_def dest: read_tex_Inl split: sum.splits if_splits)

lemma bind_tex_Inr: "bind_tex ds cmd ctx = Inr (ds', ctx') \<Longrightarrow> ds' = ds"
  by (auto simp: bind_tex_def split: sum.splits if_splits)

lemma execute_fill_rect_Inl: "execute_fill_rect ds cmd ctx = Inl (f, dx) \<Longrightarrow> dx = ds"
  by (auto simp: execute_fill_rect_def dest: blend_opacity_Inl split: sum.splits option.splits)

lemma execute_fill_rect_Inr:
  "execute_fill_rect ds cmd ctx = Inr (ds', ctx') \<Longrightarrow>
     \<exists>e. is_lib_call e \<and> ds' = add_events [e] ds"
  by (auto simp: execute_fill_rect_def log_event_add intro!: lib_callI
      split: sum.splits option.splits)

lemma execute_blit_Inl: "execute_blit ds ctx = Inl (f, dx) \<Longrightarrow> dx = ds"
  by (auto simp: execute_blit_def dest: blend_opacity_Inl split: sum.splits option.splits)

lemma execute_blit_Inr:
  "execute_blit ds ctx = Inr (ds', ctx') \<Longrightarrow> \<exists>e. is_lib_call e \<and> ds' = add_events [e] ds"
  by (auto simp: execute_blit_def log_event_add intro!: lib_callI
      split: sum.splits option.splits)

lemma execute_draw_line_Inl: "execute_draw_line ds cmd ctx = Inl (f, dx) \<Longrightarrow> dx = ds"
  by (auto simp: execute_draw_line_def split: sum.splits)

lemma execute_draw_line_Inr:
  "execute_draw_line ds cmd ctx = Inr (ds', ctx') \<Longrightarrow>
     \<exists>e. is_lib_call e \<and> ds' = add_events [e] ds"
  by (auto simp: execute_draw_line_def log_event_add intro!: lib_callI split: sum.splits)

lemma execute_vector_Inr:
  "execute_fill_rect_rounded ds cmd ctx = Inr (ds', ctx') \<Longrightarrow>
     \<exists>e. is_lib_call e \<and> ds' = add_events [e] ds"
  "execute_draw_rect_rounded ds cmd ctx = Inr (ds', ctx') \<Longrightarrow>
     \<exists>e. is_lib_call e \<and> ds' = add_events [e] ds"
  "execute_draw_rect ds cmd ctx = Inr (ds', ctx') \<Longrightarrow>
     \<exists>e. is_lib_call e \<and> ds' = add_events [e] ds"
  by (auto simp: execute_fill_rect_rounded_def execute_draw_rect_rounded_def
      execute_draw_rect_def log_event_add intro!: lib_callI)

lemma execute_vector_not_Inl:
  "execute_fill_rect_rounded ds cmd ctx \<noteq> Inl e"
  "execute_draw_rect_rounded ds cmd ctx \<noteq> Inl e"
  "execute_draw_rect ds cmd ctx \<noteq> Inl e"
  by (simp_all add: execute_fill_rect_rounded_def execute_draw_rect_rounded_def
      execute_draw_rect_def)

lemma clean_up_ctx_events:
  "\<exists>es. list_all is_lib_call es \<and> clean_up_ctx ds ctx = (add_events es ds, pipeline_ctx_zero)"
proof (cases "dest_tex ctx")
  case None
  then have "clean_up_ctx ds ctx = (add_events [] ds, pipeline_ctx_zero)"
    by (simp add: clean_up_ctx_def unmap_pixman_imgs_def pipeline_ctx_zero_def)
  then show ?thesis
    by (intro exI [where x = "[]"]) simp
next
  case (Some img)
  then have "clean_up_ctx ds ctx = (add_events [Unmap img] ds, pipeline_ctx_zero)"
    by (simp add: clean_up_ctx_def unmap_pixman_imgs_def pipeline_ctx_zero_def log_event_add)
  moreover have "list_all is_lib_call [Unmap img]"
    by simp
  ultimately show ?thesis
    by blast
qed

lemma then_clean_up_Inl:
  "then_clean_up r = Inl e \<Longrightarrow> r = Inl e"
  by (auto simp: then_clean_up_def split: sum.splits prod.splits)

lemma then_clean_up_events:
  assumes "then_clean_up r = Inr (ds', ctx')"
    and "\<forall>d c. r = Inr (d, c) \<longrightarrow> (\<exists>e. is_lib_call e \<and> d = add_events [e] ds)"
  shows "\<exists>es. list_all is_lib_call es \<and> ds' = add_events es ds \<and> ctx' = pipeline_ctx_zero"
proof -
  from assms(1) obtain d c where r: "r = Inr (d, c)" and c: "clean_up_ctx d c = (ds', ctx')"
    by (auto simp: then_clean_up_def split: sum.splits prod.splits)
  from assms(2) r obtain e where e: "is_lib_call e" "d = add_events [e] ds"
    by blast
  from clean_up_ctx_events [of d c] c obtain es where
    es: "list_all is_lib_call es" "ds' = add_events es d" "ctx' = pipeline_ctx_zero"
    by auto
  from e es have "list_all is_lib_call (e # es)" "ds' = add_events (e # es) ds"
    by simp_all
  with es(3) show ?thesis
    by blast
qed

text \<open>What a record that is not SET_CLIP does to the device state: it only extends the log.\<close>

lemma process_cmd_Inr_events:
  assumes "process_cmd ds cmd ctx = Inr (ds', ctx')" and "op cmd \<noteq> NEMA_OP_SET_CLIP"
  shows "\<exists>es. list_all is_lib_call es \<and> ds' = add_events (Dispatch cmd # es) ds"
proof -
  let ?d = "log_event (Dispatch cmd) ds"
  have d: "add_events es ?d = add_events (Dispatch cmd # es) ds" for es
    by (simp add: log_event_add)
  consider (bind) "op cmd = NEMA_OP_BIND_TEX"
    | (blend) "op cmd = NEMA_OP_SET_BLEND_FILL \<or> op cmd = NEMA_OP_SET_BLEND_BLIT
        \<or> op cmd = NEMA_OP_SET_CONST_COLOR"
    | (blit) "op cmd = NEMA_OP_BLIT" | (fill) "op cmd = NEMA_OP_FILL_RECT"
    | (line) "op cmd = NEMA_OP_DRAW_LINE" | (frr) "op cmd = NEMA_OP_FILL_RECT_ROUNDED"
    | (drr) "op cmd = NEMA_OP_DRAW_RECT_ROUNDED" | (dr) "op cmd = NEMA_OP_DRAW_RECT"
    | (other) "\<not> is_drawing_op (op cmd)" "op cmd \<noteq> NEMA_OP_BIND_TEX"
        "op cmd \<noteq> NEMA_OP_SET_BLEND_FILL" "op cmd \<noteq> NEMA_OP_SET_BLEND_BLIT"
        "op cmd \<noteq> NEMA_OP_SET_CONST_COLOR"
    by (auto simp: is_drawing_op_def)
  then show ?thesis
  proof cases
    case bind
    with assms have "bind_tex ?d cmd ctx = Inr (ds', ctx')"
      by (simp add: process_cmd_def Let_def)
    then have "ds' = add_events [] ?d"
      by (simp add: bind_tex_Inr)
    then show ?thesis
      by (intro exI [where x = "[]"]) (simp add: d)
  next
    case blend
    with assms have "ds' = add_events [] ?d"
      by (auto simp: process_cmd_def Let_def nema_op_defs split: if_splits)
    then show ?thesis
      by (intro exI [where x = "[]"]) (simp add: d)
  next
    case blit
    with assms have "then_clean_up (execute_blit ?d ctx) = Inr (ds', ctx')"
      by (simp add: process_cmd_def Let_def nema_op_defs)
    moreover have "\<forall>d c. execute_blit ?d ctx = Inr (d, c)
        \<longrightarrow> (\<exists>e. is_lib_call e \<and> d = add_events [e] ?d)"
      using execute_blit_Inr by blast
    ultimately show ?thesis
      using then_clean_up_events d by metis
  next
    case fill
    with assms have "then_clean_up (execute_fill_rect ?d cmd ctx) = Inr (ds', ctx')"
      by (simp add: process_cmd_def Let_def nema_op_defs)
    moreover have "\<forall>d c. execute_fill_rect ?d cmd ctx = Inr (d, c)
        \<longrightarrow> (\<exists>e. is_lib_call e \<and> d = add_events [e] ?d)"
      using execute_fill_rect_Inr by blast
    ultimately show ?thesis
      using then_clean_up_events d by metis
  next
    case line
    with assms have "then_clean_up (execute_draw_line ?d cmd ctx) = Inr (ds', ctx')"
      by (simp add: process_cmd_def Let_def nema_op_defs)
    moreover have "\<forall>d c. execute_draw_line ?d cmd ctx = Inr (d, c)
        \<longrightarrow> (\<exists>e. is_lib_call e \<and> d = add_events [e] ?d)"
      using execute_draw_line_Inr by blast
    ultimately show ?thesis
      using then_clean_up_events d by metis
  next
    case frr
    with assms have "then_clean_up (execute_fill_rect_rounded ?d cmd ctx) = Inr (ds', ctx')"
      by (simp add: process_cmd_def Let_def nema_op_defs)
    moreover have "\<forall>d c. execute_fill_rect_rounded ?d cmd ctx = Inr (d, c)
        \<longrightarrow> (\<exists>e. is_lib_call e \<and> d = add_events [e] ?d)"
      using execute_vector_Inr(1) by blast
    ultimately show ?thesis
      using then_clean_up_events d by metis
  next
    case drr
    with assms have "then_clean_up (execute_draw_rect_rounded ?d cmd ctx) = Inr (ds', ctx')"
      by (simp add: process_cmd_def Let_def nema_op_defs)
    moreover have "\<forall>d c. execute_draw_rect_rounded ?d cmd ctx = Inr (d, c)
        \<longrightarrow> (\<exists>e. is_lib_call e \<and> d = add_events [e] ?d)"
      using execute_vector_Inr(2) by blast
    ultimately show ?thesis
      using then_clean_up_events d by metis
  next
    case dr
    with assms have "then_clean_up (execute_draw_rect ?d cmd ctx) = Inr (ds', ctx')"
      by (simp add: process_cmd_def Let_def nema_op_defs)
    moreover have "\<forall>d c. execute_draw_rect ?d cmd ctx = Inr (d, c)
        \<longrightarrow> (\<exists>e. is_lib_call e \<and> d = add_events [e] ?d)"
      using execute_vector_Inr(3) by blast
    ultimately show ?thesis
      using then_clean_up_events d by metis
  next
    case other
    with assms show ?thesis
      by (simp add: process_cmd_def Let_def is_drawing_op_def)
  qed
qed

lemma process_cmd_Inl:
  assumes "process_cmd ds cmd ctx = Inl (f, dx)"
  shows "dx = log_event (Dispatch cmd) ds"
proof -
  let ?d = "log_event (Dispatch cmd) ds"
  have "bind_tex ?d cmd ctx = Inl (f, dx) \<or> then_clean_up (execute_blit ?d ctx) = Inl (f, dx)
    \<or> then_clean_up (execute_fill_rect ?d cmd ctx) = Inl (f, dx)
    \<or> then_clean_up (execute_draw_line ?d cmd ctx) = Inl (f, dx)
    \<or> then_clean_up (execute_fill_rect_rounded ?d cmd ctx) = Inl (f, dx)
    \<or> then_clean_up (execute_draw_rect_rounded ?d cmd ctx) = Inl (f, dx)
    \<or> then_clean_up (execute_draw_rect ?d cmd ctx) = Inl (f, dx)
    \<or> dx = ?d"
    using assms by (simp add: process_cmd_def Let_def split: if_splits)
  then show ?thesis
    by (auto dest!: then_clean_up_Inl
        dest: bind_tex_Inl execute_blit_Inl execute_fill_rect_Inl execute_draw_line_Inl
        simp: execute_vector_not_Inl)
qed

lemma process_cmd_set_clip:
  "op cmd = NEMA_OP_SET_CLIP \<Longrightarrow>
   process_cmd ds cmd ctx =
     Inr ((log_event (Dispatch cmd) ds)
            \<lparr>pixman_clip_region :=
               \<lparr>reg_x = int_a cmd, reg_y = int_b cmd, reg_w = u_int_a cmd, reg_h = u_int_b cmd\<rparr>,
             nema_clip_region :=
               \<lparr>reg_x = int_a cmd, reg_y = int_b cmd, reg_w = u_int_a cmd, reg_h = u_int_b cmd\<rparr>,
             has_clip_set := True\<rparr>, ctx)"
  by (simp add: process_cmd_def Let_def nema_op_defs)

lemma dispatched_append: "dispatched (es @ fs) = dispatched es @ dispatched fs"
  by (induction es rule: dispatched.induct) simp_all

lemma dispatched_lib_calls: "list_all is_lib_call es \<Longrightarrow> dispatched es = []"
  by (induction es rule: dispatched.induct) simp_all

lemma lib_calls_no_irq: "list_all is_lib_call es \<Longrightarrow> Irq_raise \<notin> set es"
  by (induction es) auto

text \<open>Every record that returns logs its dispatch, then only library calls.\<close>

lemma process_cmd_Inr_trace:
  assumes "process_cmd ds cmd ctx = Inr (ds', ctx')"
  shows "\<exists>es. list_all is_lib_call es \<and> trace ds' = trace ds @ Dispatch cmd # es
           \<and> guest ds' = guest ds \<and> inst_processed ds' = inst_processed ds"
proof (cases "op cmd = NEMA_OP_SET_CLIP")
  case True
  from assms show ?thesis
    unfolding process_cmd_set_clip [OF True]
    by (intro exI [where x = "[]"]) (auto simp: log_event_def)
next
  case False
  from process_cmd_Inr_events [OF assms False] show ?thesis
    by (auto simp: add_events_def)
qed

lemma process_cmd_Inr_clip:
  assumes "process_cmd ds cmd ctx = Inr (ds', ctx')" and "op cmd \<noteq> NEMA_OP_SET_CLIP"
  shows "has_clip_set ds' = has_clip_set ds \<and> nema_clip_region ds' = nema_clip_region ds
         \<and> pixman_clip_region ds' = pixman_clip_region ds"
  using process_cmd_Inr_events [OF assms] by (auto simp: add_events_def)

subsection \<open>Validation and the cairo calls\<close>

lemma validate_ctx_ready: "validate_ctx ds ctx = None \<longleftrightarrow> ctx_ready ds ctx"
  by (auto simp: validate_ctx_def ctx_ready_def)

lemma clean_up_ctx_snd: "\<exists>d. clean_up_ctx ds ctx = (d, pipeline_ctx_zero)"
  using clean_up_ctx_events by blast

lemma cairo_calls_clean_up:
  "clean_up_ctx (log_event (Cairo t cs) (log_event (Dispatch cmd) ds)) ctx = (ds', ctx') \<Longrightarrow>
   cairo_calls ds ds' = [(t, cs)]"
  by (cases "dest_tex ctx")
    (auto simp: clean_up_ctx_def unmap_pixman_imgs_def log_event_def cairo_calls_def)

subsection \<open>The clip state\<close>

lemma not_ready_faults:
  assumes "op cmd = NEMA_OP_BLIT \<or> op cmd = NEMA_OP_FILL_RECT" and "\<not> ctx_ready ds ctx"
  shows "\<exists>f. process_cmd ds cmd ctx = Inl (f, log_event (Dispatch cmd) ds)"
proof -
  let ?d = "log_event (Dispatch cmd) ds"
  from assms have "\<not> ctx_ready ?d ctx"
    by (simp add: ctx_ready_def log_event_def)
  then obtain f where f: "validate_ctx ?d ctx = Some f"
    using validate_ctx_ready by (cases "validate_ctx ?d ctx") auto
  then have "execute_blit ?d ctx = Inl (f, ?d)" "execute_fill_rect ?d cmd ctx = Inl (f, ?d)"
    by (simp_all add: execute_blit_def execute_fill_rect_def)
  with assms have "process_cmd ds cmd ctx = Inl (f, ?d)"
    by (auto simp: process_cmd_def Let_def nema_op_defs then_clean_up_def)
  then show ?thesis
    by blast
qed

lemma process_cmd_clip_state:
  assumes "process_cmd ds cmd ctx = Inr (ds', ctx')"
  shows "clip_state ds' = clip_after (clip_state ds) [cmd]"
proof (cases "op cmd = NEMA_OP_SET_CLIP")
  case True
  from assms show ?thesis
    unfolding process_cmd_set_clip [OF True]
    by (auto simp: clip_state_def True log_event_def)
next
  case False
  from process_cmd_Inr_clip [OF assms False] False show ?thesis
    by (simp add: clip_state_def)
qed

lemma clip_after_append: "clip_after s (cs @ ds) = clip_after (clip_after s cs) ds"
  by (induction cs arbitrary: s) simp_all

lemma clip_after_no_set_clip:
  "\<forall>c \<in> set cs. op c \<noteq> NEMA_OP_SET_CLIP \<Longrightarrow> clip_after s cs = s"
  by (induction cs arbitrary: s) simp_all

subsection \<open>The loop of process_cl\<close>

lemma loop_step:
  assumes "i < unat (next_cmd_slot cl)"
  shows "(i + 1) mod 256 = Suc i"
proof -
  have "unat (next_cmd_slot cl) < 2 ^ LENGTH(8)"
    by (rule unsigned_less)
  with assms show ?thesis
    by simp
qed

lemma process_cl_loop_done:
  "\<not> i < unat (next_cmd_slot (cl_mapped ds)) \<Longrightarrow> process_cl_loop ds i ctx = Inr (ds, ctx)"
  by (simp add: process_cl_loop.simps)

lemma process_cl_loop_step:
  assumes "i < unat (next_cmd_slot (cl_mapped ds))" and "i < length (list (cl_mapped ds))"
  shows "process_cl_loop ds i ctx =
     (case process_cmd ds (list (cl_mapped ds) ! i) ctx of
        Inl e \<Rightarrow> Inl e
      | Inr (ds1, ctx1) \<Rightarrow> process_cl_loop ds1 (Suc i) ctx1)"
proof -
  have s: "Suc i mod 256 = Suc i"
    using loop_step [OF assms(1)] by simp
  show ?thesis
    by (subst process_cl_loop.simps) (simp add: assms s cong: sum.case_cong)
qed

lemma process_cl_loop_oob:
  "i < unat (next_cmd_slot (cl_mapped ds)) \<Longrightarrow> \<not> i < length (list (cl_mapped ds)) \<Longrightarrow>
   process_cl_loop ds i ctx = Inl (List_index_out_of_bounds i, ds)"
  by (subst process_cl_loop.simps) simp

text \<open>
  A record that returns leaves the guest untouched as a function of the log, and the log
  longer by its dispatch and by library calls.
\<close>

lemma cl_mapped_after:
  assumes "trace ds1 = trace ds @ es" and "guest ds1 = guest ds"
  shows "cl_mapped ds1 = snd (map_cl (guest ds (trace ds @ es)))"
  using assms by (simp add: cl_mapped_def)

subsection \<open>The dispatcher of the specification\<close>

lemma spec_dispatch_Inr:
  "spec_dispatch ds ctx cs = Inr (ds', ctx') \<Longrightarrow>
   \<exists>es. trace ds' = trace ds @ es \<and> Irq_raise \<notin> set es \<and> dispatched es = cs
     \<and> guest ds' = guest ds \<and> inst_processed ds' = inst_processed ds"
proof (induction cs arbitrary: ds ctx)
  case Nil
  then show ?case
    by simp
next
  case (Cons c cs)
  from Cons.prems obtain ds1 ctx1 where
    cmd: "process_cmd ds c ctx = Inr (ds1, ctx1)" and
    rest: "spec_dispatch ds1 ctx1 cs = Inr (ds', ctx')"
    by (auto split: sum.splits)
  from Cons.IH [OF rest] obtain es where
    es: "trace ds' = trace ds1 @ es" "Irq_raise \<notin> set es" "dispatched es = cs"
      "guest ds' = guest ds1" "inst_processed ds' = inst_processed ds1"
    by blast
  from process_cmd_Inr_trace [OF cmd] obtain fs where
    fs: "list_all is_lib_call fs" "trace ds1 = trace ds @ Dispatch c # fs"
      "guest ds1 = guest ds" "inst_processed ds1 = inst_processed ds"
    by blast
  from es fs have "trace ds' = trace ds @ (Dispatch c # fs @ es)"
    "Irq_raise \<notin> set (Dispatch c # fs @ es)"
    "dispatched (Dispatch c # fs @ es) = c # cs"
    "guest ds' = guest ds" "inst_processed ds' = inst_processed ds"
    by (simp_all add: dispatched_append dispatched_lib_calls lib_calls_no_irq)
  then show ?case
    by blast
qed

lemma spec_dispatch_Inl:
  "spec_dispatch ds ctx cs = Inl (f, dx) \<Longrightarrow>
   \<exists>es k s c. k < length cs \<and> trace dx = trace ds @ es \<and> Irq_raise \<notin> set es
     \<and> dispatched es = take (Suc k) cs \<and> inst_processed dx = inst_processed ds
     \<and> process_cmd s (cs ! k) c = Inl (f, dx)"
proof (induction cs arbitrary: ds ctx)
  case Nil
  then show ?case
    by simp
next
  case (Cons c cs)
  show ?case
  proof (cases "process_cmd ds c ctx")
    case (Inl e)
    with Cons.prems have e: "process_cmd ds c ctx = Inl (f, dx)"
      by simp
    then have "dx = log_event (Dispatch c) ds"
      using process_cmd_Inl by blast
    then have "trace dx = trace ds @ [Dispatch c]" "inst_processed dx = inst_processed ds"
      by (simp_all add: log_event_def)
    with e show ?thesis
      by (intro exI [where x = "[Dispatch c]"] exI [where x = 0] exI [where x = ds]
          exI [where x = ctx]) simp
  next
    case (Inr r)
    obtain ds1 ctx1 where r: "r = (ds1, ctx1)"
      by (cases r)
    with Inr have cmd: "process_cmd ds c ctx = Inr (ds1, ctx1)"
      by simp
    with Cons.prems have rest: "spec_dispatch ds1 ctx1 cs = Inl (f, dx)"
      by simp
    from Cons.IH [OF rest] obtain es k s c' where
      es: "k < length cs" "trace dx = trace ds1 @ es" "Irq_raise \<notin> set es"
        "dispatched es = take (Suc k) cs" "inst_processed dx = inst_processed ds1"
        "process_cmd s (cs ! k) c' = Inl (f, dx)"
      by blast
    from process_cmd_Inr_trace [OF cmd] obtain fs where
      fs: "list_all is_lib_call fs" "trace ds1 = trace ds @ Dispatch c # fs"
        "inst_processed ds1 = inst_processed ds"
      by blast
    from es fs have "Suc k < length (c # cs)"
      "trace dx = trace ds @ (Dispatch c # fs @ es)"
      "Irq_raise \<notin> set (Dispatch c # fs @ es)"
      "dispatched (Dispatch c # fs @ es) = take (Suc (Suc k)) (c # cs)"
      "inst_processed dx = inst_processed ds"
      "process_cmd s ((c # cs) ! Suc k) c' = Inl (f, dx)"
      by (simp_all add: dispatched_append dispatched_lib_calls lib_calls_no_irq)
    then show ?thesis
      by blast
  qed
qed

lemma setting_op_returns:
  "is_setting_op (op c) \<Longrightarrow> \<exists>r. process_cmd ds c ctx = Inr r"
  by (auto simp: is_setting_op_def process_cmd_def Let_def nema_op_defs)

lemma spec_dispatch_setting:
  "\<forall>c \<in> set cs. is_setting_op (op c) \<Longrightarrow> \<exists>r. spec_dispatch ds ctx cs = Inr r"
proof (induction cs arbitrary: ds ctx)
  case Nil
  then show ?case
    by simp
next
  case (Cons c cs)
  then obtain ds1 ctx1 where "process_cmd ds c ctx = Inr (ds1, ctx1)"
    using setting_op_returns [of c ds ctx] by auto
  with Cons show ?case
    by simp
qed

text \<open>
  While the command-list block reads \<open>cl\<close>, the loop of the source is the dispatcher of
  the specification on the records from index \<open>i\<close> up to the count.
\<close>

lemma loop_refines:
  assumes "\<forall>es. Irq_raise \<notin> set es \<longrightarrow> snd (map_cl (guest ds (trace ds @ es))) = cl"
    and "unat (next_cmd_slot cl) \<le> length (list cl)" and "i \<le> unat (next_cmd_slot cl)"
  shows "process_cl_loop ds i ctx =
     spec_dispatch ds ctx (drop i (take (unat (next_cmd_slot cl)) (list cl)))"
  using assms
proof (induction "unat (next_cmd_slot cl) - i" arbitrary: ds i ctx)
  case 0
  from "0.prems"(1) have m: "cl_mapped ds = cl"
    by (simp add: cl_mapped_def) (metis append_Nil2 empty_iff list.set(1))
  from 0 have "i = unat (next_cmd_slot cl)"
    by simp
  with m show ?case
    by (simp add: process_cl_loop_done)
next
  case (Suc k)
  let ?n = "unat (next_cmd_slot cl)"
  from Suc.prems(1) have m: "cl_mapped ds = cl"
    by (simp add: cl_mapped_def) (metis append_Nil2 empty_iff list.set(1))
  from Suc.hyps(2) have lt: "i < ?n"
    by simp
  with Suc.prems have len: "i < length (list cl)"
    by simp
  have d: "drop i (take ?n (list cl)) = list cl ! i # drop (Suc i) (take ?n (list cl))"
    using lt len by (simp add: Cons_nth_drop_Suc [symmetric])
  show ?case
  proof (cases "process_cmd ds (list cl ! i) ctx")
    case (Inl e)
    with m lt len d show ?thesis
      by (simp add: process_cl_loop_step)
  next
    case (Inr r)
    obtain ds1 ctx1 where r: "r = (ds1, ctx1)"
      by (cases r)
    with Inr have cmd: "process_cmd ds (list cl ! i) ctx = Inr (ds1, ctx1)"
      by simp
    from process_cmd_Inr_trace [OF cmd] obtain fs where
      fs: "list_all is_lib_call fs" "trace ds1 = trace ds @ Dispatch (list cl ! i) # fs"
        "guest ds1 = guest ds"
      by blast
    have st: "\<forall>es. Irq_raise \<notin> set es \<longrightarrow> snd (map_cl (guest ds1 (trace ds1 @ es))) = cl"
    proof (intro allI impI)
      fix es :: "event list"
      assume "Irq_raise \<notin> set es"
      with fs(1) have "Irq_raise \<notin> set (Dispatch (list cl ! i) # fs @ es)"
        by (simp add: lib_calls_no_irq)
      with Suc.prems(1) have
        "snd (map_cl (guest ds (trace ds @ (Dispatch (list cl ! i) # fs @ es)))) = cl"
        by blast
      with fs show "snd (map_cl (guest ds1 (trace ds1 @ es))) = cl"
        by simp
    qed
    have k: "k = ?n - Suc i" and le: "Suc i \<le> ?n"
      using Suc.hyps(2) lt by simp_all
    from Suc.hyps(1) [OF k st Suc.prems(2) le] have
      "process_cl_loop ds1 (Suc i) ctx1 = spec_dispatch ds1 ctx1 (drop (Suc i) (take ?n (list cl)))" .
    with m lt len d cmd show ?thesis
      by (simp add: process_cl_loop_step)
  qed
qed

text \<open>The clip state after the loop, whatever the block holds while it runs.\<close>

lemma process_cl_loop_Inr:
  "process_cl_loop ds i ctx = Inr (ds', ctx') \<Longrightarrow>
   \<exists>es. trace ds' = trace ds @ es \<and> Irq_raise \<notin> set es \<and> guest ds' = guest ds
     \<and> inst_processed ds' = inst_processed ds
     \<and> clip_state ds' = clip_after (clip_state ds) (dispatched es)"
proof (induction ds i ctx rule: process_cl_loop.induct)
  case (1 ds i ctx)
  let ?cl = "cl_mapped ds"
  show ?case
  proof (cases "i < unat (next_cmd_slot ?cl)")
    case False
    with "1.prems" have "ds' = ds"
      by (simp add: process_cl_loop.simps)
    then show ?thesis
      by simp
  next
    case lt: True
    with "1.prems" have len: "i < length (list ?cl)"
      by (auto simp: process_cl_loop.simps [of ds i] split: if_splits)
    from lt len "1.prems" obtain ds1 ctx1 where
      cmd: "process_cmd ds (list ?cl ! i) ctx = Inr (ds1, ctx1)" and
      rest: "process_cl_loop ds1 ((i + 1) mod 256) ctx1 = Inr (ds', ctx')"
      by (subst (asm) process_cl_loop.simps) (auto split: sum.splits)
    from "1.IH" [OF lt len cmd refl rest] obtain es where
      es: "trace ds' = trace ds1 @ es" "Irq_raise \<notin> set es" "guest ds' = guest ds1"
        "inst_processed ds' = inst_processed ds1"
        "clip_state ds' = clip_after (clip_state ds1) (dispatched es)"
      by blast
    from process_cmd_Inr_trace [OF cmd] obtain fs where
      fs: "list_all is_lib_call fs" "trace ds1 = trace ds @ Dispatch (list ?cl ! i) # fs"
        "guest ds1 = guest ds" "inst_processed ds1 = inst_processed ds"
      by blast
    let ?es = "Dispatch (list ?cl ! i) # fs @ es"
    from es fs have "trace ds' = trace ds @ ?es" "Irq_raise \<notin> set ?es"
      "guest ds' = guest ds" "inst_processed ds' = inst_processed ds"
      by (simp_all add: lib_calls_no_irq)
    moreover from es(5) fs(1) process_cmd_clip_state [OF cmd] have
      "clip_state ds' = clip_after (clip_state ds) (dispatched ?es)"
      by (simp add: dispatched_append dispatched_lib_calls)
    ultimately show ?thesis
      by blast
  qed
qed

subsection \<open>A count of 251\<close>

lemmas ex_cl_defs = ex_set_clip_def ex_set_color_def ex_cl_251_def ex_ds_251_def

lemma oversized_loop:
  "guest ds = guest ex_ds_251 \<Longrightarrow> i \<le> 250 \<Longrightarrow>
   \<exists>dx. process_cl_loop ds i ctx = Inl (List_index_out_of_bounds 250, dx)
     \<and> dispatched (trace dx) = dispatched (trace ds) @ replicate (250 - i) ex_set_clip"
proof (induction "250 - i" arbitrary: i ds)
  case 0
  then have i: "i = 250"
    by simp
  from "0.prems"(1) have m: "cl_mapped ds = ex_cl_251"
    by (simp add: cl_mapped_def ex_ds_251_def)
  have "process_cl_loop ds 250 ctx = Inl (List_index_out_of_bounds 250, ds)"
    by (rule process_cl_loop_oob) (simp_all add: m ex_cl_251_def)
  with i show ?case
    by simp
next
  case (Suc k)
  then have lt: "i < 250"
    by simp
  from Suc.prems(1) have m: "cl_mapped ds = ex_cl_251"
    by (simp add: cl_mapped_def ex_ds_251_def)
  have sc: "op ex_set_clip = NEMA_OP_SET_CLIP"
    by (simp add: ex_set_clip_def)
  let ?d = "(log_event (Dispatch ex_set_clip) ds)
            \<lparr>pixman_clip_region :=
               \<lparr>reg_x = int_a ex_set_clip, reg_y = int_b ex_set_clip, reg_w = u_int_a ex_set_clip,
                  reg_h = u_int_b ex_set_clip\<rparr>,
             nema_clip_region :=
               \<lparr>reg_x = int_a ex_set_clip, reg_y = int_b ex_set_clip, reg_w = u_int_a ex_set_clip,
                  reg_h = u_int_b ex_set_clip\<rparr>,
             has_clip_set := True\<rparr>"
  have "process_cl_loop ds i ctx = process_cl_loop ?d (Suc i) ctx"
    using lt by (subst process_cl_loop_step) (simp_all add: m ex_cl_251_def process_cmd_set_clip [OF sc])
  moreover have k: "k = 250 - Suc i" and le: "Suc i \<le> 250"
    using Suc.hyps(2) lt by simp_all
  have g: "guest ?d = guest ex_ds_251"
    using Suc.prems(1) by (simp add: log_event_def)
  from Suc.hyps(1) [OF k g le] obtain dx where
    "process_cl_loop ?d (Suc i) ctx = Inl (List_index_out_of_bounds 250, dx)"
    "dispatched (trace dx) = dispatched (trace ?d) @ replicate (250 - Suc i) ex_set_clip"
    by blast
  moreover have "dispatched (trace ?d) = dispatched (trace ds) @ [ex_set_clip]"
    by (simp add: log_event_def dispatched_append)
  moreover have "replicate (250 - i) ex_set_clip = ex_set_clip # replicate (250 - Suc i) ex_set_clip"
    using lt by (simp add: Suc_diff_Suc flip: replicate_Suc)
  ultimately show ?case
    by simp
qed

subsection \<open>The opacity mask\<close>

lemma opacity_byte_code:
  "(ucast ((drop_bit 24 (const_color ctx)) AND 0xFF) :: byte) = opacity_byte ctx"
proof -
  have m: "(0xFF :: 32 word) = mask 8"
    by (simp add: mask_eq_exp_minus_1)
  show ?thesis
    unfolding opacity_byte_def m
    by (intro bit_word_eqI) (auto simp: bit_simps)
qed

lemma scale_byte_code:
  "(ucast (drop_bit 8 ((ucast b :: 32 word) * ucast opacity)) :: byte) = scale_byte opacity b"
proof -
  have b: "unat b < 256" "unat opacity < 256"
    using unsigned_less [of b] unsigned_less [of opacity] by simp_all
  then have "unat b * unat opacity \<le> 255 * 255"
    by (intro mult_mono) simp_all
  then have lt: "unat b * unat opacity < 2 ^ 32"
    by simp
  have "unat ((ucast b :: 32 word) * ucast opacity) = unat b * unat opacity"
    using lt b by (simp add: unat_word_ariths unsigned_ucast_eq take_bit_nat_eq_self)
  then have "unat (drop_bit 8 ((ucast b :: 32 word) * ucast opacity)) = unat b * unat opacity div 256"
    unfolding unat_drop_bit_eq by (simp add: drop_bit_eq_div)
  then show ?thesis
    unfolding scale_byte_def by (metis of_nat_unat)
qed

lemma scale_mask_bytes_eq:
  "i \<le> sz \<Longrightarrow> sz \<le> length data \<Longrightarrow>
   scale_mask_bytes data opacity sz i =
     Some (take i data @ map (scale_byte opacity) (drop i (take sz data)) @ drop sz data)"
proof (induction data opacity sz i rule: scale_mask_bytes.induct)
  case (1 data opacity sz i)
  show ?case
  proof (cases "i < sz")
    case False
    with "1.prems" have "i = sz"
      by simp
    then show ?thesis
      by (simp add: scale_mask_bytes.simps [of data opacity sz sz])
  next
    case True
    with "1.prems" have len: "i < length data"
      by simp
    let ?v = "ucast (drop_bit 8 ((ucast (data ! i) :: 32 word) * ucast opacity)) :: byte"
    let ?data = "data[i := ?v]"
    have v: "?v = scale_byte opacity (data ! i)"
      by (rule scale_byte_code)
    from "1.IH" [OF True len] True "1.prems" have
      "scale_mask_bytes ?data opacity sz (i + 1) =
         Some (take (i + 1) ?data @ map (scale_byte opacity) (drop (i + 1) (take sz ?data))
               @ drop sz ?data)"
      by simp
    moreover have "take (i + 1) ?data = take i data @ [scale_byte opacity (data ! i)]"
      using len v by (simp add: take_Suc_conv_app_nth)
    moreover have "drop (i + 1) (take sz ?data) = drop (i + 1) (take sz data)"
      using True by (simp add: drop_take)
    moreover have "drop sz ?data = drop sz data"
      using True by simp
    moreover have "drop i (take sz data) = data ! i # drop (i + 1) (take sz data)"
      using True len by (simp add: Cons_nth_drop_Suc [symmetric])
    ultimately show ?thesis
      using True len by (subst scale_mask_bytes.simps) simp
  qed
qed

lemma scale_mask_bytes_all:
  "sz = length data \<Longrightarrow> scale_mask_bytes data opacity sz 0 = Some (map (scale_byte opacity) data)"
  by (simp add: scale_mask_bytes_eq)

lemma round_up_4_code:
  "(if c_rem n 4 = 0 then n else (n div 4 + 1) * 4) = round_up_4 n"
proof -
  have "c_rem n 4 = 0 \<longleftrightarrow> n mod 4 = 0"
    by (auto simp: c_rem_def sgn_if abs_if; presburger)
  then show ?thesis
    unfolding round_up_4_def by (simp; presburger)
qed

lemma round_up_4_props: "4 dvd round_up_4 n" "n \<le> round_up_4 n" "round_up_4 n < n + 4"
  unfolding round_up_4_def by presburger+

lemma blend_flag_clear:
  "(blending_mode ctx AND NEMA_BL_OPA) = 0 \<Longrightarrow> blend_opacity_if_needed ds ctx = Inr ctx"
  by (simp add: blend_opacity_if_needed_def)

lemma blend_new_mask:
  assumes "(blending_mode ctx AND NEMA_BL_OPA) \<noteq> 0" "mask_tex ctx = None" "dest_tex ctx = Some dest"
  shows "blend_opacity_if_needed ds ctx =
     Inr (ctx\<lparr>mask_tex := Some \<lparr>format = PIXMAN_a8, width = width dest, height = height dest,
        bits = Heap (replicate (nat (to_uint32 (height dest * to_int16 (round_up_4 (width dest)))))
                 (opacity_byte ctx)),
        stride = to_int16 (round_up_4 (width dest))\<rparr>\<rparr>)"
  using assms
  by (simp add: blend_opacity_if_needed_def Let_def opacity_byte_code round_up_4_code
      pixman_image_create_bits_def)

lemma blend_existing_mask:
  assumes "(blending_mode ctx AND NEMA_BL_OPA) \<noteq> 0" "mask_tex ctx = Some m" "bits m = Heap data"
  shows "blend_opacity_if_needed ds ctx =
     (case scale_mask_bytes data (opacity_byte ctx) (nat (to_uint32 (stride m * height m))) 0 of
        None \<Rightarrow> Inl (Buffer_overrun, ds)
      | Some data' \<Rightarrow> Inr (ctx\<lparr>mask_tex := Some (m\<lparr>bits := Heap data'\<rparr>)\<rparr>))"
  using assms
  by (simp add: blend_opacity_if_needed_def Let_def opacity_byte_code buffer_bytes_def)

subsection \<open>The loop of round_mask_if_needed\<close>

lemma memcpy_nat:
  "s + n \<le> length src \<Longrightarrow> d + n \<le> length dst \<Longrightarrow>
   memcpy dst (int d) src (int s) (int n) = Some (take d dst @ take n (drop s src) @ drop (d + n) dst)"
  by (simp add: memcpy_def nat_add_distrib)

lemma memset_nat:
  "d + n \<le> length dst \<Longrightarrow>
   memset dst (int d) v (int n) = Some (take d dst @ replicate n v @ drop (d + n) dst)"
  by (simp add: memset_def nat_add_distrib)

lemma length_padded_row:
  "Suc r * s \<le> length msk \<Longrightarrow> length (padded_row s p msk r) = s + p"
  by (simp add: padded_row_def)

lemma round_mask_rows_done:
  "\<not> int i < sint hgt \<Longrightarrow> round_mask_rows msk strd padding hgt i sp dp buf = Some buf"
  by (simp add: round_mask_rows.simps)

lemma round_mask_rows_step:
  assumes lt: "int i < sint hgt"
    and src: "Suc i * s \<le> length msk"
    and dst: "Suc i * (s + p) \<le> length buf"
  shows "round_mask_rows msk (int s) (int p) hgt i (int (i * s)) (int (i * (s + p))) buf =
     round_mask_rows msk (int s) (int p) hgt (Suc i) (int (Suc i * s)) (int (Suc i * (s + p)))
       (take (i * (s + p)) buf @ padded_row s p msk i @ drop (Suc i * (s + p)) buf)"
proof -
  let ?P = "s + p"
  have "sint hgt < 2 ^ (LENGTH(16) - 1)"
    by (rule sint_lt)
  with lt have i: "Suc i mod 65536 = Suc i"
    by simp
  let ?buf1 = "take (i * ?P) buf @ take s (drop (i * s) msk) @ drop (i * ?P + s) buf"
  have c: "memcpy buf (int (i * ?P)) msk (int (i * s)) (int s) = Some ?buf1"
    using src dst by (intro memcpy_nat) simp_all
  have l1: "length (take s (drop (i * s) msk)) = s"
    using src by simp
  have lb: "i * ?P \<le> length buf"
    using dst by simp
  have len1: "length ?buf1 = length buf"
    using src dst by simp
  have t1: "take (i * ?P + s) ?buf1 = take (i * ?P) buf @ take s (drop (i * s) msk)"
    using lb l1 by simp
  have d1: "drop (i * ?P + s + p) ?buf1 = drop (Suc i * ?P) buf"
    using lb l1 by (simp add: add.assoc add.commute)
  have "memset ?buf1 (int (i * ?P + s)) 0 (int p) =
      Some (take (i * ?P + s) ?buf1 @ replicate p 0 @ drop (i * ?P + s + p) ?buf1)"
    using dst len1 by (intro memset_nat) simp
  then have m: "memset ?buf1 (int (i * ?P) + int s) 0 (int p) =
      Some (take (i * ?P) buf @ padded_row s p msk i @ drop (Suc i * ?P) buf)"
    unfolding t1 d1 by (simp add: padded_row_def)
  have a1: "int (i * s) + int s = int (Suc i * s)"
    and a2: "int (i * ?P) + (int s + int p) = int (Suc i * ?P)"
    by simp_all
  show ?thesis
    by (subst round_mask_rows.simps) (simp only: lt if_True c m option.case i a1 a2 Suc_eq_plus1 [symmetric])
qed

lemma round_mask_rows_eq:
  assumes "0 \<le> sint hgt" and "nat (sint hgt) * s \<le> length msk"
    and "length buf = nat (sint hgt) * (s + p)" and "i \<le> nat (sint hgt)"
  shows "round_mask_rows msk (int s) (int p) hgt i (int (i * s)) (int (i * (s + p))) buf =
     Some (take (i * (s + p)) buf @ concat (map (padded_row s p msk) [i..<nat (sint hgt)]))"
  using assms(3,4)
proof (induction "nat (sint hgt) - i" arbitrary: i buf)
  case 0
  then have "i = nat (sint hgt)"
    by simp
  with 0 assms(1) show ?case
    by (simp add: round_mask_rows_done)
next
  case (Suc k)
  let ?H = "nat (sint hgt)"
  let ?P = "s + p"
  from Suc.hyps(2) have lt: "i < ?H"
    by simp
  then have lti: "int i < sint hgt"
    by simp
  from lt have "Suc i * s \<le> ?H * s" "Suc i * ?P \<le> ?H * ?P"
    by (simp_all only: mult_le_mono1 Suc_leI)
  with assms(2) Suc.prems(1) have src: "Suc i * s \<le> length msk" and dst: "Suc i * ?P \<le> length buf"
    by simp_all
  let ?buf = "take (i * ?P) buf @ padded_row s p msk i @ drop (Suc i * ?P) buf"
  have lr: "length (padded_row s p msk i) = ?P"
    using src by (rule length_padded_row)
  have lb: "i * ?P \<le> length buf"
    using dst by simp
  have len: "length ?buf = ?H * ?P"
    using lr lb dst Suc.prems(1) by simp
  have k: "k = ?H - Suc i" and le: "Suc i \<le> ?H"
    using Suc.hyps(2) lt by simp_all
  have t: "take (Suc i * ?P) ?buf = take (i * ?P) buf @ padded_row s p msk i"
    using lr lb by simp
  have u: "[i..<?H] = i # [Suc i..<?H]"
    using lt by (simp add: upt_conv_Cons)
  show ?case
    unfolding round_mask_rows_step [OF lti src dst] Suc.hyps(1) [OF k len le] t u
    by simp
qed

lemma padded_rows_length:
  "n * s \<le> length msk \<Longrightarrow> length (padded_rows s p msk n) = n * (s + p)"
proof (induction n)
  case 0
  show ?case
    by (simp add: padded_rows_def)
next
  case (Suc n)
  then have "length (padded_rows s p msk n) = n * (s + p)"
    by simp
  moreover have "length (padded_row s p msk n) = s + p"
    using Suc.prems by (rule length_padded_row)
  ultimately show ?case
    by (simp add: padded_rows_def)
qed

lemma padded_rows_Suc:
  "padded_rows s p msk (Suc n) = padded_rows s p msk n @ padded_row s p msk n"
  by (simp add: padded_rows_def)

lemma padded_rows_row:
  assumes "r < n" and "n * s \<le> length msk"
  shows "take (s + p) (drop (r * (s + p)) (padded_rows s p msk n)) = padded_row s p msk r"
  using assms
proof (induction n)
  case 0
  then show ?case
    by simp
next
  case (Suc n)
  from Suc.prems have l: "n * s \<le> length msk"
    by simp
  note len = padded_rows_length [OF l, of p]
  have lr: "length (padded_row s p msk n) = s + p"
    using Suc.prems(2) by (rule length_padded_row)
  show ?case
  proof (cases "r < n")
    case True
    then have "Suc r * (s + p) \<le> n * (s + p)"
      by (simp only: mult_le_mono1 Suc_leI)
    then have "r * (s + p) + (s + p) \<le> length (padded_rows s p msk n)"
      using len by simp
    then show ?thesis
      using Suc.IH [OF True l] by (simp add: padded_rows_Suc)
  next
    case False
    with Suc.prems have "r = n"
      by simp
    then show ?thesis
      using len lr by (simp add: padded_rows_Suc)
  qed
qed

subsection \<open>Conversions between integer widths\<close>

lemma c_rem_4_zero: "c_rem n 4 = 0 \<longleftrightarrow> take_bit 2 n = 0"
  by (auto simp: c_rem_def sgn_if abs_if take_bit_eq_mod; presburger)

lemma c_rem_pos: "0 \<le> n \<Longrightarrow> c_rem n 4 = n mod 4"
  by (auto simp: c_rem_def sgn_if)

lemma take_bit_2_sint: "take_bit 2 (sint (w :: 'a::len word)) = take_bit 2 (uint w)" if "2 \<le> LENGTH('a)"
proof -
  have "2 \<le> Suc (LENGTH('a) - Suc 0)"
    using that by simp
  then show ?thesis
    unfolding sint_uint by (rule take_bit_signed_take_bit)
qed

lemma ucast16_rem4:
  "c_rem (sint (ucast (v :: 32 word) :: 16 word)) 4 = 0 \<longleftrightarrow> c_rem (sint v) 4 = 0"
proof -
  have "take_bit 2 (sint (ucast v :: 16 word)) = take_bit 2 (uint (ucast v :: 16 word))"
    by (rule take_bit_2_sint) simp
  also have "\<dots> = take_bit 2 (uint v)"
    by (simp add: unsigned_ucast_eq)
  also have "\<dots> = take_bit 2 (sint v)"
    by (rule take_bit_2_sint [symmetric]) simp
  finally show ?thesis
    by (simp add: c_rem_4_zero)
qed

lemma sint_ucast16_signed:
  assumes "- 32768 \<le> sint (v :: 32 word)" and "sint v < 32768"
  shows "sint (ucast v :: 16 word) = sint v"
proof -
  have "sint (ucast v :: 16 word) = signed_take_bit 15 (uint v)"
    by (simp add: signed_ucast_eq)
  also have "\<dots> = signed_take_bit 15 (sint v)"
    by (simp add: sint_uint)
  also have "\<dots> = sint v"
    using assms by (intro signed_take_bit_int_eq_self) simp_all
  finally show ?thesis .
qed

lemma sint_ucast16_unsigned:
  assumes "uint (v :: 32 word) < 32768"
  shows "sint (ucast v :: 16 word) = uint v"
proof -
  have "sint (ucast v :: 16 word) = signed_take_bit 15 (uint v)"
    by (simp add: signed_ucast_eq)
  also have "\<dots> = uint v"
  proof (rule signed_take_bit_int_eq_self)
    have "- (2 ^ 15) \<le> (0 :: int)"
      by simp
    also have "0 \<le> uint v"
      by simp
    finally show "- (2 ^ 15) \<le> uint v" .
    show "uint v < 2 ^ 15"
      using assms by simp
  qed
  finally show ?thesis .
qed

lemma sint_nonneg_uint:
  assumes "0 \<le> sint (v :: 32 word)"
  shows "uint v = sint v"
proof -
  have "uint v = take_bit 32 (sint v)"
    by (simp add: uint_sint)
  also have "\<dots> = sint v"
    using assms sint_lt [of v] by (intro take_bit_int_eq_self) simp_all
  finally show ?thesis .
qed

lemma expected_len_small:
  assumes "0 \<le> sint (a :: 32 word)" and "sint a * uint (b :: 32 word) < 2 ^ 32"
  shows "unat (a * b) = nat (sint a) * unat b"
proof -
  have "uint a = sint a"
    using assms(1) by (rule sint_nonneg_uint)
  then have a: "unat a = nat (sint a)"
    by (simp add: unat_eq_nat_uint)
  have "int (nat (sint a) * unat b) = sint a * uint b"
    using assms(1) by simp
  with assms(2) have "nat (sint a) * unat b < 2 ^ 32"
    by (metis of_nat_less_numeral_power_cancel_iff)
  then show ?thesis
    by (simp add: unat_word_ariths a)
qed

lemma round_mask_aligned:
  "c_rem (sint strd) 4 = 0 \<Longrightarrow> round_mask_if_needed junk msk strd hgt = Inr None"
  by (simp add: round_mask_if_needed_def)

lemma padding_pos:
  assumes "0 < s" and "s mod 4 \<noteq> (0::int)"
  shows "to_uint8 (c_rem (4 - c_rem s 4) 4) = 4 - s mod 4"
    and "to_uint8 (4 - c_rem s 4) = 4 - s mod 4"
proof -
  have m: "0 < s mod 4" "s mod 4 < 4"
    using assms(2) by presburger+
  have c: "c_rem s 4 = s mod 4"
    using assms(1) by (simp add: c_rem_pos)
  have a: "(4 - s mod 4) mod 4 = 4 - s mod 4"
    using m by (intro mod_pos_pos_trivial) simp_all
  have b: "(4 - s mod 4) mod 256 = 4 - s mod 4"
    using m by (intro mod_pos_pos_trivial) simp_all
  have "0 \<le> 4 - s mod 4"
    using m by simp
  then have d: "c_rem (4 - s mod 4) 4 = 4 - s mod 4"
    using a by (simp only: c_rem_pos)
  show "to_uint8 (c_rem (4 - c_rem s 4) 4) = 4 - s mod 4"
    unfolding c d to_uint8_def by (rule b)
  show "to_uint8 (4 - c_rem s 4) = 4 - s mod 4"
    unfolding c to_uint8_def by (rule b)
qed

lemma round_mask_padded:
  assumes s: "0 < sint strd" and r: "c_rem (sint strd) 4 \<noteq> 0" and h: "0 < sint hgt"
    and len: "nat (sint hgt) * nat (sint strd) \<le> length msk"
  shows "round_mask_if_needed junk msk strd hgt =
     Inr (Some (padded_rows (nat (sint strd)) (4 - nat (sint strd) mod 4) msk (nat (sint hgt))))"
proof -
  let ?s = "nat (sint strd)" and ?H = "nat (sint hgt)"
  let ?p = "4 - ?s mod 4"
  from s r have m: "sint strd mod 4 \<noteq> 0"
    by (simp add: c_rem_pos)
  have ss: "sint strd = int ?s"
    using s by simp
  have "int (?s mod 4) = sint strd mod 4"
    using s by (simp add: zmod_int)
  moreover have "?s mod 4 \<le> 4"
    by simp
  ultimately have "int ?p = 4 - sint strd mod 4"
    by (simp add: of_nat_diff)
  then have p: "to_uint8 (c_rem (4 - c_rem (sint strd) 4) 4) = int ?p"
    using padding_pos(1) [OF s m] by simp
  have hh: "sint hgt = int ?H"
    using h by simp
  have n: "(sint strd + int ?p) * sint hgt = int (?H * (?s + ?p))"
    unfolding of_nat_mult of_nat_add ss [symmetric] hh [symmetric] by (simp add: mult.commute)
  have pos: "0 < ?H * (?s + ?p)"
    using s h by simp
  let ?buf = "g_malloc junk (?H * (?s + ?p))"
  have lb: "length ?buf = ?H * (?s + ?p)"
    by (simp add: g_malloc_def)
  have h0: "0 \<le> sint hgt"
    using h by simp
  have "round_mask_rows msk (int ?s) (int ?p) hgt 0 (int (0 * ?s)) (int (0 * (?s + ?p))) ?buf =
      Some (take (0 * (?s + ?p)) ?buf @ concat (map (padded_row ?s ?p msk) [0..<?H]))"
    using h0 len lb by (intro round_mask_rows_eq) simp_all
  then have rows: "round_mask_rows msk (sint strd) (int ?p) hgt 0 0 0 ?buf =
      Some (padded_rows ?s ?p msk ?H)"
    using ss by (simp add: padded_rows_def)
  have n0: "\<not> (sint strd + int ?p) * sint hgt < 0"
    by (subst n) (simp only: of_nat_less_0_iff not_False_eq_True)
  have n1: "(sint strd + int ?p) * sint hgt \<noteq> 0"
    using pos by (subst n) (simp only: of_nat_eq_0_iff)
  have n2: "nat ((sint strd + int ?p) * sint hgt) = ?H * (?s + ?p)"
    by (subst n) (simp only: nat_int)
  show ?thesis
    unfolding round_mask_if_needed_def Let_def p
    by (simp only: r n0 n1 n2 rows if_False option.case)
qed

lemma round_mask_no_rows:
  assumes "c_rem (sint strd) 4 \<noteq> 0" and "sint hgt = 0"
  shows "round_mask_if_needed junk msk strd hgt = Inr None"
  using assms by (simp add: round_mask_if_needed_def Let_def round_mask_rows_done)

subsection \<open>Mask binds\<close>

lemma tex_copy_length: "tex_copy g a len = Inr data \<Longrightarrow> length data = len"
  by (auto simp: tex_copy_def split: if_splits)

lemma read_tex_mask:
  assumes "tex_copy (guest ds (trace ds)) (addr_a cmd) (unat (int_a cmd * u_int_b cmd)) = Inr data"
  shows "read_tex ds cmd PIXMAN_a8 False =
     (case round_mask_if_needed (uninit (guest ds (trace ds))) data
             (ucast (int_a cmd)) (ucast (u_int_b cmd)) of
        Inl f \<Rightarrow> Inl (f, ds)
      | Inr None \<Rightarrow>
          Inr \<lparr>format = PIXMAN_a8, width = sint (u_int_a cmd), height = sint (u_int_b cmd),
               bits = Heap data, stride = sint (int_a cmd)\<rparr>
      | Inr (Some buf) \<Rightarrow>
          Inr \<lparr>format = PIXMAN_a8, width = sint (u_int_a cmd), height = sint (u_int_b cmd),
               bits = Heap buf,
               stride = to_int32 (sint (int_a cmd) + to_uint8 (4 - c_rem (sint (int_a cmd)) 4))\<rparr>)"
  using assms
  by (simp add: read_tex_def Let_def buffer_bytes_def pixman_image_create_bits_def
      split: sum.splits option.splits)

lemma process_cmd_bind_mask:
  assumes "op cmd = NEMA_OP_BIND_TEX" and "u_int_8_a cmd = NEMA_TEX3"
  shows "process_cmd ds cmd ctx =
     (case read_tex (log_event (Dispatch cmd) ds) cmd PIXMAN_a8 False of
        Inl e \<Rightarrow> Inl e
      | Inr img \<Rightarrow> Inr (log_event (Dispatch cmd) ds, ctx\<lparr>mask_tex := Some img\<rparr>))"
  using assms
  by (simp add: process_cmd_def Let_def bind_tex_def NEMA_TEX0_def NEMA_TEX1_def NEMA_TEX3_def)

lemma padded_rows_spec:
  assumes "r < n" and "n * s \<le> length msk"
  shows "take s (drop (r * (s + p)) (padded_rows s p msk n)) = take s (drop (r * s) msk)"
    and "take p (drop (r * (s + p) + s) (padded_rows s p msk n)) = replicate p 0"
proof -
  let ?X = "drop (r * (s + p)) (padded_rows s p msk n)"
  let ?A = "take s (drop (r * s) msk)"
  have "Suc r * s \<le> n * s"
    using assms(1) by (simp only: mult_le_mono1 Suc_leI)
  with assms(2) have la: "length ?A = s"
    by simp
  have x: "take (s + p) ?X = ?A @ replicate p 0"
    using padded_rows_row [OF assms] by (simp add: padded_row_def)
  have "take s ?X = take s (take (s + p) ?X)"
    by simp
  also have "\<dots> = ?A"
    unfolding x using la by simp
  finally show "take s ?X = ?A" .
  have "take p (drop (r * (s + p) + s) (padded_rows s p msk n)) = take p (drop s ?X)"
    by (simp add: add.commute)
  also have "\<dots> = drop s (take (s + p) ?X)"
    by (simp add: drop_take add.commute)
  also have "\<dots> = replicate p 0"
    unfolding x using la by simp
  finally show "take p (drop (r * (s + p) + s) (padded_rows s p msk n)) = replicate p 0" .
qed

lemma pad_nat:
  fixes k :: nat
  assumes "k mod 4 \<noteq> 0"
  shows "0 < 4 - k mod 4" "4 - k mod 4 < 4" "4 dvd k + (4 - k mod 4)"
  using assms by presburger+

lemma tex_copy_ram:
  assumes "\<not> (0x10000000 < a \<and> a < 0x20000000)" and "k \<le> len"
  shows "\<exists>data. tex_copy g a len = Inr data \<and> length data = len
           \<and> take k data = map (ram g) [unat a..<unat a + k]"
  using assms by (auto simp: tex_copy_def take_map)

lemma mask_summary_bind:
  assumes "op cmd = NEMA_OP_BIND_TEX" and "u_int_8_a cmd = NEMA_TEX3"
    and "tex_copy (guest ds (trace ds @ [Dispatch cmd])) (addr_a cmd)
           (unat (int_a cmd * u_int_b cmd)) = Inr data"
    and "round_mask_if_needed (uninit (guest ds (trace ds @ [Dispatch cmd]))) data
           (ucast (int_a cmd)) (ucast (u_int_b cmd)) = Inr rounded"
  shows "mask_summary (process_cmd ds cmd ctx) =
     Inr (Some (case rounded of
        None \<Rightarrow> (sint (int_a cmd), sint (u_int_b cmd), Heap data)
      | Some buf \<Rightarrow> (to_int32 (sint (int_a cmd) + to_uint8 (4 - c_rem (sint (int_a cmd)) 4)),
                     sint (u_int_b cmd), Heap buf)))"
proof -
  let ?d = "log_event (Dispatch cmd) ds"
  have t: "trace ?d = trace ds @ [Dispatch cmd]" "guest ?d = guest ds"
    by (simp_all add: log_event_def)
  show ?thesis
    unfolding mask_summary_def process_cmd_bind_mask [OF assms(1,2)]
    using assms(3,4) by (subst read_tex_mask [where data = data]) (auto simp: t split: option.splits)
qed

lemma mask_summary_bind_fault:
  assumes "op cmd = NEMA_OP_BIND_TEX" and "u_int_8_a cmd = NEMA_TEX3"
    and "tex_copy (guest ds (trace ds @ [Dispatch cmd])) (addr_a cmd)
           (unat (int_a cmd * u_int_b cmd)) = Inr data"
    and "round_mask_if_needed (uninit (guest ds (trace ds @ [Dispatch cmd]))) data
           (ucast (int_a cmd)) (ucast (u_int_b cmd)) = Inl f"
  shows "mask_summary (process_cmd ds cmd ctx) = Inl f"
proof -
  let ?d = "log_event (Dispatch cmd) ds"
  have t: "trace ?d = trace ds @ [Dispatch cmd]" "guest ?d = guest ds"
    by (simp_all add: log_event_def)
  show ?thesis
    unfolding mask_summary_def process_cmd_bind_mask [OF assms(1,2)]
    using assms(3,4) by (subst read_tex_mask [where data = data]) (auto simp: t)
qed

lemma negative_stride_faults:
  "mask_summary (process_cmd ex_ds (ex_bind_mask (- 3) 1) pipeline_ctx_zero) = Inl Buffer_overrun"
proof -
  have g: "guest ex_ds tr = ex_guest" for tr
    by (simp add: ex_ds_def)
  have b: "op (ex_bind_mask s n) = NEMA_OP_BIND_TEX" "u_int_8_a (ex_bind_mask s n) = NEMA_TEX3"
    "addr_a (ex_bind_mask s n) = 16" "int_a (ex_bind_mask s n) = s"
    "u_int_b (ex_bind_mask s n) = n" for s n
    by (simp_all add: ex_bind_mask_def cmd_zero_def)
  have addr: "\<not> (0x10000000 < (16 :: 32 word) \<and> (16 :: 32 word) < 0x20000000)"
    by simp
  from tex_copy_ram [OF addr, of 0 4294967293 ex_guest] obtain data where
    d: "tex_copy ex_guest 16 4294967293 = Inr data"
    by auto
  have s: "sint (- 3 :: 16 word) = - 3" "sint (1 :: 16 word) = 1"
    by simp_all
  have w: "(4294967293 :: 16 word) = - 3"
    by simp
  have "round_mask_if_needed (uninit ex_guest) data (- 3 :: 16 word) (1 :: 16 word)
      = Inl Buffer_overrun"
    by (simp add: round_mask_if_needed_def Let_def s c_rem_def to_uint8_def g_malloc_def
        round_mask_rows.simps memcpy_def)
  with mask_summary_bind_fault [of "ex_bind_mask (- 3) 1" ex_ds data Buffer_overrun
      pipeline_ctx_zero] d
  show ?thesis
    by (simp add: b g w)
qed

subsection \<open>Opacity 255 and the compositor\<close>

lemma those_map_cong:
  "(\<And>x. x \<in> set xs \<Longrightarrow> f x = g x) \<Longrightarrow> those (map f xs) = those (map g xs)"
  by (induction xs) (simp_all split: option.splits)

lemma those_map_None: "x \<in> set xs \<Longrightarrow> f x = None \<Longrightarrow> those (map f xs) = None"
  by (induction xs) (auto split: option.splits)

lemma those_map_Some: "(\<And>x. x \<in> set xs \<Longrightarrow> f x \<noteq> None) \<Longrightarrow> those (map f xs) \<noteq> None"
  by (induction xs) (auto split: option.splits)

text \<open>
  For the opacity 255 on a destination in the 16-bit range, \<open>blend_opacity_if_needed\<close>
  builds the all-255 mask of the destination.
\<close>

lemma blend_opaque_mask:
  assumes "(blending_mode ctx AND NEMA_BL_OPA) \<noteq> 0" and "mask_tex ctx = None"
    and "dest_tex ctx = Some dest" and "opacity_byte ctx = 0xFF"
    and "0 \<le> width dest" "width dest \<le> 32764" "0 \<le> height dest"
    and "height dest * round_up_4 (width dest) < 2 ^ 32"
  shows "blend_opacity_if_needed ds ctx = Inr (ctx\<lparr>mask_tex := Some (opaque_mask dest)\<rparr>)"
proof -
  let ?s = "round_up_4 (width dest)"
  from assms round_up_4_props [of "width dest"] have s: "0 \<le> ?s" "?s < 32768"
    by linarith+
  then have s16: "to_int16 ?s = ?s"
    by (simp add: to_int16_def)
  from assms s have "0 \<le> height dest * ?s"
    by simp
  with assms have "to_uint32 (height dest * ?s) = height dest * ?s"
    by (simp add: to_uint32_def)
  with assms s16 blend_new_mask [of ctx dest ds] show ?thesis
    by (simp add: opaque_mask_def)
qed

lemma opaque_mask_coverage:
  assumes "0 \<le> i" "i < width dest" "0 \<le> j" "j < height dest"
  shows "mask_coverage g (Some (opaque_mask dest)) i j = Some 255"
proof -
  let ?s = "round_up_4 (width dest)"
  from round_up_4_props [of "width dest"] assms have s: "i < ?s" "0 \<le> ?s"
    by linarith+
  from assms have "j + 1 \<le> height dest"
    by simp
  with s have "(j + 1) * ?s \<le> height dest * ?s"
    by (intro mult_right_mono) simp_all
  with s have hi: "j * ?s + i < height dest * ?s"
    by (simp add: algebra_simps)
  from assms s have lo: "0 \<le> j * ?s + i"
    by simp
  from lo hi have n: "nat (j * ?s + i) < nat (height dest * ?s)"
    by simp
  from assms lo hi n show ?thesis
    by (simp add: mask_coverage_def opaque_mask_def buffer_bytes_def Let_def)
qed

text \<open>
  With the origin of the rectangle at or right of and below the destination's origin, the
  compositor gives the same pixels for the all-255 mask of the destination's size as for
  no mask.
\<close>

lemma composite_opaque_mask:
  assumes "0 \<le> dest_x" "0 \<le> dest_y"
  shows "pixman_image_composite g src (Some (opaque_mask dest)) dest clip sx sy 0 0
           dest_x dest_y w h
         = pixman_image_composite g src None dest clip sx sy 0 0 dest_x dest_y w h"
proof -
  have px: "composite_pixel g src (Some (opaque_mask dest)) dest clip sx sy 0 0 dest_x dest_y w h
              (int X) (int Y)
            = composite_pixel g src None dest clip sx sy 0 0 dest_x dest_y w h (int X) (int Y)"
    if "X \<in> set [0..<nat (width dest)]" "Y \<in> set [0..<nat (height dest)]" for X Y
  proof (cases "dest_x \<le> int X \<and> int X < dest_x + w \<and> dest_y \<le> int Y \<and> int Y < dest_y + h
      \<and> in_clip clip (int X) (int Y)")
    case False
    then show ?thesis
      by (auto simp: composite_pixel_def split: option.splits)
  next
    case True
    from that have "int X < width dest" "int Y < height dest"
      by auto
    with True assms have "mask_coverage g (Some (opaque_mask dest)) (0 + int X - dest_x)
        (0 + int Y - dest_y) = Some 255"
      by (intro opaque_mask_coverage) simp_all
    moreover have "mask_coverage g None (0 + int X - dest_x) (0 + int Y - dest_y) = Some 255"
      by (simp add: mask_coverage_def)
    ultimately show ?thesis
      by (simp only: composite_pixel_def)
  qed
  show ?thesis
    unfolding pixman_image_composite_def
    by (intro those_map_cong) (simp only: px)
qed

lemma pixels_after_log:
  "pixels_after ds (Inr (log_event e ds, c)) = Inr (drawn_pixels (guest ds (trace ds)) e)"
  by (simp add: pixels_after_def log_event_def)

lemma argb_at_mapped:
  "0 \<le> off \<Longrightarrow> off + 4 \<le> int n \<Longrightarrow> argb_at (buffer_bytes g (Mapped a n)) off \<noteq> None"
  by (simp add: argb_at_def buffer_bytes_def)

text \<open>Without a mask, a composite of a solid fill reads only the destination.\<close>

lemma composite_solid_defined:
  assumes b: "bits dest = Mapped a n" and s: "4 * width dest \<le> stride dest"
    and n: "height dest * stride dest \<le> int n"
  shows "pixman_image_composite g (Solid_fill c) None dest clip sx sy mx my dx dy w h \<noteq> None"
  unfolding pixman_image_composite_def
proof (intro those_map_Some)
  fix Y X :: nat
  assume Y: "Y \<in> set [0..<nat (height dest)]" and X: "X \<in> set [0..<nat (width dest)]"
  then have x: "int X + 1 \<le> width dest" and y: "int Y + 1 \<le> height dest"
    by auto
  from x s have st: "0 \<le> stride dest" "4 * int X + 4 \<le> stride dest"
    by linarith+
  from y st have "(int Y + 1) * stride dest \<le> height dest * stride dest"
    by (intro mult_right_mono) simp_all
  with st n have hi: "int Y * stride dest + 4 * int X + 4 \<le> int n"
    by (simp add: algebra_simps)
  from st have lo: "0 \<le> int Y * stride dest + 4 * int X"
    by simp
  from argb_at_mapped [OF lo hi, of g a] b obtain old where
    "argb_at (buffer_bytes g (bits dest)) (int Y * stride dest + 4 * int X) = Some old"
    by auto
  then show "composite_pixel g (Solid_fill c) None dest clip sx sy mx my dx dy w h (int X) (int Y)
      \<noteq> None"
    by (simp add: composite_pixel_def source_pixel_def mask_coverage_def)
qed

lemmas c8_ex_defs = ex_dest_row_def ex_src_row_def ex_ctx_row_def ex_ctx_row_opaque_def
  ex_fill_left_def ex_fill_row_def

lemmas composite_defs = pixels_after_def drawn_pixels_def pixman_image_composite_def
  composite_pixel_def argb_at_def source_pixel_def mask_coverage_def in_clip_def over_def
  channel_def buffer_bytes_def

lemma upt_0_2: "[0..<2] = [0, Suc 0]"
  by (simp add: upt_rec)

section \<open>The claims\<close>

subsection \<open>C1: dispatch order and the completion interrupt\<close>

text \<open>
  C1 as stated fails: the claim has all \<open>N\<close> records of the submitted list dispatched,
  none skipped. The interpreter takes no copy of the list: it reads the count and the
  record from the guest's block at every iteration. A list of four records whose
  third record fills a destination bound on the count byte is submitted with the count
  4; its first three records are dispatched, the fill stores 0 on the count byte, the
  loop ends there and the interrupt is raised. The fourth record is never dispatched.
\<close>

theorem list_overwritten_counterexample:
  "map_cl (guest ex_ds_self (trace ex_ds_self)) = (sizeof_nema_cmdlist_t, ex_cl_self)
   \<and> cl_wf ex_cl_self \<and> unat (next_cmd_slot ex_cl_self) = 4
   \<and> take 4 (list ex_cl_self) = [ex_set_clip, ex_bind_count, ex_fill_count, ex_set_color]
   \<and> map_sum fst (\<lambda>d. (dispatched (trace d), last (trace d), inst_processed d))
        (on_nema_io_write ex_ds_self NEMA_REG_OP NEMA_REG_OP_SUBMIT_COMMAND_LIST 4)
      = Inr ([ex_set_clip, ex_bind_count, ex_fill_count], Irq_raise, True)"
proof -
  have m: "map_cl (guest ex_ds_self (trace ex_ds_self)) = (sizeof_nema_cmdlist_t, ex_cl_self)"
    by (simp add: ex_ds_self_def ex_defs)
  have wf: "cl_wf ex_cl_self" "unat (next_cmd_slot ex_cl_self) = 4"
    "take 4 (list ex_cl_self) = [ex_set_clip, ex_bind_count, ex_fill_count, ex_set_color]"
    by (simp_all add: ex_cl_self_def cl_wf_def NEMA_MAX_CMD_COUNT_def)
  have "map_sum fst (\<lambda>d. (dispatched (trace d), last (trace d), inst_processed d))
        (on_nema_io_write ex_ds_self NEMA_REG_OP NEMA_REG_OP_SUBMIT_COMMAND_LIST 4)
      = Inr ([ex_set_clip, ex_bind_count, ex_fill_count], Irq_raise, True)"
    by (simp add: on_nema_io_write_def process_cl_def process_cl_loop_step process_cl_loop_done
        cl_mapped_def ex_ds_self_def ex_cl_self_def ex_set_clip_def ex_bind_count_def
        ex_fill_count_def ex_set_color_def ex_defs run_defs bind_tex_def read_tex_def Let_def
        NEMA_TEX0_def NEMA_TEX1_def NEMA_TEX3_def sizeof_nema_cmdlist_t_def qemu_irq_raise_def
        to_uint16_def)
  with m wf show ?thesis
    by simp
qed


text \<open>
  C1, amended. If the command-list block reads the same list, with a count \<open>N\<close> of at
  most 250, from the write of 2 to offset 0 until the interrupt is raised (no record of
  the list draws into the block), the write does what the dispatcher of the
  specification does on the first \<open>N\<close> records: it hands them to their handlers in index
  order and raises the interrupt once, after the last handler has returned. When the
  write returns, the records dispatched are exactly the first \<open>N\<close>, in order, and the
  interrupt is the last logged action, with the line high. When it does not, a handler
  has faulted: the records up to and including that one were dispatched in order, the
  fault is the one of that handler, and the interrupt was not raised. A list whose first
  \<open>N\<close> records only set values always returns; for \<open>N = 0\<close> no handler runs and the
  interrupt is raised once.
\<close>

theorem submit_dispatches_stable_list:
  assumes len: "fst (map_cl (guest ds (trace ds))) = sizeof_nema_cmdlist_t"
    and stable: "\<forall>es. Irq_raise \<notin> set es \<longrightarrow> snd (map_cl (guest ds (trace ds @ es))) = cl"
    and wf: "cl_wf cl"
    and n: "unat (next_cmd_slot cl) \<le> NEMA_MAX_CMD_COUNT"
  shows "on_nema_io_write ds NEMA_REG_OP NEMA_REG_OP_SUBMIT_COMMAND_LIST sz
           = spec_submit ds (take (unat (next_cmd_slot cl)) (list cl))
       \<and> (\<forall>ds'. on_nema_io_write ds NEMA_REG_OP NEMA_REG_OP_SUBMIT_COMMAND_LIST sz = Inr ds' \<longrightarrow>
            inst_processed ds' \<and>
            (\<exists>es. trace ds' = trace ds @ es @ [Irq_raise] \<and> Irq_raise \<notin> set es
               \<and> dispatched es = take (unat (next_cmd_slot cl)) (list cl)))
       \<and> (\<forall>f dx. on_nema_io_write ds NEMA_REG_OP NEMA_REG_OP_SUBMIT_COMMAND_LIST sz = Inl (f, dx) \<longrightarrow>
            inst_processed dx = inst_processed ds \<and>
            (\<exists>es k s c. k < unat (next_cmd_slot cl) \<and> trace dx = trace ds @ es
               \<and> Irq_raise \<notin> set es \<and> dispatched es = take (Suc k) (list cl)
               \<and> process_cmd s (list cl ! k) c = Inl (f, dx)))
       \<and> ((\<forall>c \<in> set (take (unat (next_cmd_slot cl)) (list cl)). is_setting_op (op c)) \<longrightarrow>
            (\<exists>ds'. on_nema_io_write ds NEMA_REG_OP NEMA_REG_OP_SUBMIT_COMMAND_LIST sz = Inr ds'))
       \<and> (next_cmd_slot cl = 0 \<longrightarrow>
            on_nema_io_write ds NEMA_REG_OP NEMA_REG_OP_SUBMIT_COMMAND_LIST sz
              = Inr (qemu_irq_raise ds))"
proof -
  let ?n = "unat (next_cmd_slot cl)"
  let ?cs = "take ?n (list cl)"
  from wf n have le: "?n \<le> length (list cl)"
    by (simp add: cl_wf_def)
  from loop_refines [OF stable le, of 0 pipeline_ctx_zero] have
    l: "process_cl_loop ds 0 pipeline_ctx_zero = spec_dispatch ds pipeline_ctx_zero ?cs"
    by simp
  with len have w: "on_nema_io_write ds NEMA_REG_OP NEMA_REG_OP_SUBMIT_COMMAND_LIST sz
      = spec_submit ds ?cs"
    by (simp add: on_nema_io_write_def process_cl_def spec_submit_def)
  have ok: "inst_processed ds' \<and>
            (\<exists>es. trace ds' = trace ds @ es @ [Irq_raise] \<and> Irq_raise \<notin> set es
               \<and> dispatched es = ?cs)"
    if "spec_submit ds ?cs = Inr ds'" for ds'
  proof -
    from that obtain ds1 ctx1 where
      d: "spec_dispatch ds pipeline_ctx_zero ?cs = Inr (ds1, ctx1)" and
      r: "ds' = qemu_irq_raise ds1"
      by (auto simp: spec_submit_def split: sum.splits)
    from spec_dispatch_Inr [OF d] obtain es where
      "trace ds1 = trace ds @ es" "Irq_raise \<notin> set es" "dispatched es = ?cs"
      by blast
    with r show ?thesis
      by (auto simp: qemu_irq_raise_def log_event_def)
  qed
  have bad: "inst_processed dx = inst_processed ds \<and>
            (\<exists>es k s c. k < ?n \<and> trace dx = trace ds @ es \<and> Irq_raise \<notin> set es
               \<and> dispatched es = take (Suc k) (list cl)
               \<and> process_cmd s (list cl ! k) c = Inl (f, dx))"
    if "spec_submit ds ?cs = Inl (f, dx)" for f dx
  proof -
    from that have "spec_dispatch ds pipeline_ctx_zero ?cs = Inl (f, dx)"
      by (auto simp: spec_submit_def split: sum.splits)
    from spec_dispatch_Inl [OF this] obtain es k s c where
      k: "k < length ?cs" "trace dx = trace ds @ es" "Irq_raise \<notin> set es"
        "dispatched es = take (Suc k) ?cs" "inst_processed dx = inst_processed ds"
        "process_cmd s (?cs ! k) c = Inl (f, dx)"
      by blast
    from k(1) le have kn: "k < ?n"
      by simp
    then have "take (Suc k) ?cs = take (Suc k) (list cl)" "?cs ! k = list cl ! k"
      by (simp_all add: min_absorb1)
    with k kn show ?thesis
      by auto
  qed
  have sets: "\<exists>ds'. spec_submit ds ?cs = Inr ds'"
    if "\<forall>c \<in> set ?cs. is_setting_op (op c)"
    using spec_dispatch_setting [OF that, of ds pipeline_ctx_zero]
    by (auto simp: spec_submit_def)
  have zero: "spec_submit ds ?cs = Inr (qemu_irq_raise ds)" if "next_cmd_slot cl = 0"
    using that by (simp add: spec_submit_def)
  from ok bad sets zero show ?thesis
    unfolding w by blast
qed

theorem submit_dispatches_stable_list_witness:
  "fst (map_cl (guest ex_ds_draw (trace ex_ds_draw))) = sizeof_nema_cmdlist_t
   \<and> (\<forall>tr. snd (map_cl (guest ex_ds_draw tr)) = ex_cl_draw)
   \<and> cl_wf ex_cl_draw \<and> unat (next_cmd_slot ex_cl_draw) \<le> NEMA_MAX_CMD_COUNT
   \<and> take (unat (next_cmd_slot ex_cl_draw)) (list ex_cl_draw)
       = [ex_set_clip, ex_bind_dest, ex_fill]
   \<and> (\<exists>ds'. on_nema_io_write ex_ds_draw NEMA_REG_OP NEMA_REG_OP_SUBMIT_COMMAND_LIST 4 = Inr ds'
         \<and> inst_processed ds'
         \<and> (\<exists>es. trace ds' = trace ex_ds_draw @ es @ [Irq_raise] \<and> Irq_raise \<notin> set es
               \<and> dispatched es = [ex_set_clip, ex_bind_dest, ex_fill]))"
proof -
  have len: "fst (map_cl (guest ex_ds_draw (trace ex_ds_draw))) = sizeof_nema_cmdlist_t"
    by (simp add: ex_ds_draw_def ex_defs)
  have stable: "\<forall>es. Irq_raise \<notin> set es \<longrightarrow>
      snd (map_cl (guest ex_ds_draw (trace ex_ds_draw @ es))) = ex_cl_draw"
    by (simp add: ex_ds_draw_def ex_defs)
  have wf: "cl_wf ex_cl_draw"
    by (simp add: cl_wf_def ex_cl_draw_def NEMA_MAX_CMD_COUNT_def)
  have n: "unat (next_cmd_slot ex_cl_draw) \<le> NEMA_MAX_CMD_COUNT"
    by (simp add: ex_cl_draw_def NEMA_MAX_CMD_COUNT_def)
  have t: "take (unat (next_cmd_slot ex_cl_draw)) (list ex_cl_draw)
      = [ex_set_clip, ex_bind_dest, ex_fill]"
    by (simp add: ex_cl_draw_def)
  have "\<exists>r. spec_submit ex_ds_draw [ex_set_clip, ex_bind_dest, ex_fill] = Inr r"
    by (simp add: spec_submit_def ex_ds_draw_def ex_set_clip_def ex_bind_dest_def ex_defs
        run_defs bind_tex_def read_tex_def Let_def NEMA_TEX0_def NEMA_TEX1_def NEMA_TEX3_def
        to_uint16_def)
  with submit_dispatches_stable_list [OF len stable wf n, of 4] t obtain ds' where
    w: "on_nema_io_write ex_ds_draw NEMA_REG_OP NEMA_REG_OP_SUBMIT_COMMAND_LIST 4 = Inr ds'"
    by auto
  from submit_dispatches_stable_list [OF len stable wf n, of 4] w have
    "inst_processed ds' \<and>
     (\<exists>es. trace ds' = trace ex_ds_draw @ es @ [Irq_raise] \<and> Irq_raise \<notin> set es
        \<and> dispatched es = take (unat (next_cmd_slot ex_cl_draw)) (list ex_cl_draw))"
    by blast
  moreover have "\<forall>tr. snd (map_cl (guest ex_ds_draw tr)) = ex_cl_draw"
    by (simp add: ex_ds_draw_def ex_defs)
  ultimately show ?thesis
    using w t len wf n by simp
qed

subsection \<open>C2: validation before drawing\<close>

text \<open>
  C2 as stated fails: the claim has every drawing operation fault before any pixel is
  written when no clip has been set. On a device where no clip was ever set, DRAW_RECT
  with a bound destination returns, and has stroked a rectangle on the destination
  surface.
\<close>

theorem draw_rect_without_clip_counterexample:
  "\<not> has_clip_set ex_ds \<and>
   map_sum fst (\<lambda>r. trace (fst r)) (process_cmd ex_ds ex_draw_rect ex_ctx_dest) =
     Inr [Dispatch ex_draw_rect,
          Cairo (Some ex_surface) [Rectangle 0 0 8 8, Set_source_rgba 0xFFFF0000 None, Stroke],
          Unmap ex_dest]"
  by (simp add: ex_defs run_defs Let_def)

text \<open>
  C2, amended. Before BLIT and FILL_RECT the interpreter derives readiness from the
  current context and faults when no clip has been set, no destination image or surface
  is bound, the presence of a mask differs from the has-mask flag, or the
  constant-colour flag differs from the has-opacity flag; at the fault the log holds the
  dispatch of the record and no drawing call. DRAW_RECT, FILL_RECT_ROUNDED and
  DRAW_RECT_ROUNDED check nothing and always return; DRAW_LINE returns when no mask is
  bound and faults, before it draws, when one is.
\<close>

theorem compositing_ops_validate:
  "((op cmd = NEMA_OP_BLIT \<or> op cmd = NEMA_OP_FILL_RECT) \<and> \<not> ctx_ready ds ctx \<longrightarrow>
      (\<exists>f. process_cmd ds cmd ctx = Inl (f, log_event (Dispatch cmd) ds)))
   \<and> (op cmd = NEMA_OP_DRAW_RECT \<or> op cmd = NEMA_OP_FILL_RECT_ROUNDED
        \<or> op cmd = NEMA_OP_DRAW_RECT_ROUNDED \<or> (op cmd = NEMA_OP_DRAW_LINE \<and> mask_tex ctx = None) \<longrightarrow>
      (\<exists>ds'. process_cmd ds cmd ctx = Inr (ds', pipeline_ctx_zero)))
   \<and> (op cmd = NEMA_OP_DRAW_LINE \<and> mask_tex ctx \<noteq> None \<longrightarrow>
        process_cmd ds cmd ctx = Inl (Cairo_mask_not_implemented, log_event (Dispatch cmd) ds))"
proof (intro conjI impI)
  assume a: "(op cmd = NEMA_OP_BLIT \<or> op cmd = NEMA_OP_FILL_RECT) \<and> \<not> ctx_ready ds ctx"
  let ?d = "log_event (Dispatch cmd) ds"
  from a have "\<not> ctx_ready ?d ctx"
    by (simp add: ctx_ready_def log_event_def)
  then obtain f where f: "validate_ctx ?d ctx = Some f"
    using validate_ctx_ready by (cases "validate_ctx ?d ctx") auto
  then have "execute_blit ?d ctx = Inl (f, ?d)" "execute_fill_rect ?d cmd ctx = Inl (f, ?d)"
    by (simp_all add: execute_blit_def execute_fill_rect_def)
  with a have "process_cmd ds cmd ctx = Inl (f, ?d)"
    by (auto simp: process_cmd_def Let_def nema_op_defs then_clean_up_def)
  then show "\<exists>f. process_cmd ds cmd ctx = Inl (f, ?d)"
    by blast
next
  assume a: "op cmd = NEMA_OP_DRAW_RECT \<or> op cmd = NEMA_OP_FILL_RECT_ROUNDED
        \<or> op cmd = NEMA_OP_DRAW_RECT_ROUNDED \<or> (op cmd = NEMA_OP_DRAW_LINE \<and> mask_tex ctx = None)"
  let ?d = "log_event (Dispatch cmd) ds"
  have "\<exists>d c. execute_draw_rect ?d cmd ctx = Inr (d, c)"
    "\<exists>d c. execute_fill_rect_rounded ?d cmd ctx = Inr (d, c)"
    "\<exists>d c. execute_draw_rect_rounded ?d cmd ctx = Inr (d, c)"
    "mask_tex ctx = None \<Longrightarrow> \<exists>d c. execute_draw_line ?d cmd ctx = Inr (d, c)"
    by (simp_all add: execute_draw_rect_def execute_fill_rect_rounded_def
        execute_draw_rect_rounded_def execute_draw_line_def cairo_prepare_source_def)
  then have "\<exists>ds'. then_clean_up (execute_draw_rect ?d cmd ctx) = Inr (ds', pipeline_ctx_zero)"
    "\<exists>ds'. then_clean_up (execute_fill_rect_rounded ?d cmd ctx) = Inr (ds', pipeline_ctx_zero)"
    "\<exists>ds'. then_clean_up (execute_draw_rect_rounded ?d cmd ctx) = Inr (ds', pipeline_ctx_zero)"
    "mask_tex ctx = None \<Longrightarrow>
       \<exists>ds'. then_clean_up (execute_draw_line ?d cmd ctx) = Inr (ds', pipeline_ctx_zero)"
    using clean_up_ctx_snd by (fastforce simp: then_clean_up_def)+
  with a show "\<exists>ds'. process_cmd ds cmd ctx = Inr (ds', pipeline_ctx_zero)"
    by (auto simp: process_cmd_def Let_def nema_op_defs)
next
  assume a: "op cmd = NEMA_OP_DRAW_LINE \<and> mask_tex ctx \<noteq> None"
  then show "process_cmd ds cmd ctx = Inl (Cairo_mask_not_implemented, log_event (Dispatch cmd) ds)"
    by (simp add: process_cmd_def Let_def nema_op_defs then_clean_up_def execute_draw_line_def
        cairo_prepare_source_def)
qed

theorem compositing_ops_validate_witness:
  "(op ex_fill = NEMA_OP_FILL_RECT \<and> \<not> ctx_ready ex_ds ex_ctx_dest
      \<and> (\<exists>f. process_cmd ex_ds ex_fill ex_ctx_dest = Inl (f, log_event (Dispatch ex_fill) ex_ds)))
   \<and> (op ex_draw_rect = NEMA_OP_DRAW_RECT
      \<and> (\<exists>ds'. process_cmd ex_ds ex_draw_rect ex_ctx_dest = Inr (ds', pipeline_ctx_zero)))
   \<and> (op ex_line = NEMA_OP_DRAW_LINE \<and> mask_tex ex_ctx_mask \<noteq> None
      \<and> process_cmd ex_ds_clip ex_line ex_ctx_mask =
          Inl (Cairo_mask_not_implemented, log_event (Dispatch ex_line) ex_ds_clip))"
proof -
  have a: "op ex_fill = NEMA_OP_FILL_RECT" "\<not> ctx_ready ex_ds ex_ctx_dest"
    by (simp_all add: ex_defs ctx_ready_def)
  have b: "op ex_draw_rect = NEMA_OP_DRAW_RECT"
    by (simp add: ex_defs)
  have c: "op ex_line = NEMA_OP_DRAW_LINE" "mask_tex ex_ctx_mask \<noteq> None"
    by (simp_all add: ex_defs)
  from a compositing_ops_validate [where cmd = ex_fill and ds = ex_ds and ctx = ex_ctx_dest]
  have "\<exists>f. process_cmd ex_ds ex_fill ex_ctx_dest = Inl (f, log_event (Dispatch ex_fill) ex_ds)"
    by blast
  moreover from b compositing_ops_validate [where cmd = ex_draw_rect and ds = ex_ds and ctx = ex_ctx_dest]
  have "\<exists>ds'. process_cmd ex_ds ex_draw_rect ex_ctx_dest = Inr (ds', pipeline_ctx_zero)"
    by blast
  moreover from c compositing_ops_validate [where cmd = ex_line and ds = ex_ds_clip and ctx = ex_ctx_mask]
  have "process_cmd ex_ds_clip ex_line ex_ctx_mask =
          Inl (Cairo_mask_not_implemented, log_event (Dispatch ex_line) ex_ds_clip)"
    by blast
  ultimately show ?thesis
    using a b c by blast
qed

subsection \<open>C3: what the clearing after a drawing operation keeps\<close>

text \<open>
  C3 as stated fails: the claim has the clearing after a successful drawing operation
  keep the blend flags, the constant colour and its flag. On a ready context with the
  has-opacity flag (mode 4), the constant colour \<open>0x80000000\<close> and its flag set, a
  FILL_RECT returns with mode 0, colour 0 and the flag cleared.
\<close>

theorem fill_rect_resets_blend_counterexample:
  "blending_mode ex_ctx_opa = 4 \<and> const_color ex_ctx_opa = 0x80000000
   \<and> const_color_set ex_ctx_opa
   \<and> map_sum fst (\<lambda>r. (blending_mode (snd r), const_color (snd r), const_color_set (snd r)))
         (process_cmd ex_ds_clip ex_fill ex_ctx_opa) = Inr (0, 0, False)"
  by (simp add: ex_defs run_defs Let_def)

text \<open>
  C3, amended. Every drawing operation (DRAW_LINE, BLIT, FILL_RECT, DRAW_RECT,
  FILL_RECT_ROUNDED, DRAW_RECT_ROUNDED) that returns leaves every field of the
  pipeline context zero: no destination, source or mask image, no surfaces, blend mode
  0, constant colour 0 and the constant-colour flag cleared. Blend configuration and
  constant colour do not outlive a drawing operation.
\<close>

theorem draw_clears_whole_ctx:
  assumes "is_drawing_op (op cmd)"
    and "process_cmd ds cmd ctx = Inr (ds', ctx')"
  shows "ctx' = pipeline_ctx_zero \<and> dest_tex ctx' = None \<and> src_tex ctx' = None
    \<and> mask_tex ctx' = None \<and> dest_surface ctx' = None \<and> src_surface ctx' = None
    \<and> blending_mode ctx' = 0 \<and> const_color ctx' = 0 \<and> \<not> const_color_set ctx'"
proof -
  from assms have "ctx' = pipeline_ctx_zero"
    by (auto simp: process_cmd_def is_drawing_op_def nema_op_defs Let_def
        dest: then_clean_up_Inr split: if_splits)
  then show ?thesis
    by (simp add: pipeline_ctx_zero_def)
qed

theorem draw_clears_whole_ctx_witness:
  "is_drawing_op (op ex_fill) \<and> \<not> isl (process_cmd ex_ds_clip ex_fill ex_ctx_opa)
   \<and> snd (projr (process_cmd ex_ds_clip ex_fill ex_ctx_opa)) = pipeline_ctx_zero
   \<and> blending_mode (snd (projr (process_cmd ex_ds_clip ex_fill ex_ctx_opa))) = 0"
proof -
  have a: "is_drawing_op (op ex_fill)"
    by (simp add: is_drawing_op_def ex_defs nema_op_defs)
  have "\<exists>r. process_cmd ex_ds_clip ex_fill ex_ctx_opa = Inr r"
    by (simp add: ex_defs run_defs Let_def)
  then obtain d c where b: "process_cmd ex_ds_clip ex_fill ex_ctx_opa = Inr (d, c)"
    by auto
  from draw_clears_whole_ctx [OF a b] a b show ?thesis
    by (simp add: pipeline_ctx_zero_def)
qed

subsection \<open>C4: the clip state persists, the pipeline context does not\<close>

text \<open>
  C4. Over two consecutive submissions that return, the clip state after each is the
  clip state before it, overwritten by the SET_CLIP records among those it dispatched
  and by nothing else; when the second dispatches no SET_CLIP, the flag and the rectangle
  are as the first left them. A register write that is not a submission, and a register
  read, leave the clip state too. Each submission runs its loop from the all-zero
  context, whatever the one before left in its own: the first record of the second list is
  handled on the zero context, so a list that returns cannot begin with BLIT or
  FILL_RECT.
\<close>

theorem clip_persists_ctx_starts_zero:
  assumes s1: "on_nema_io_write ds0 NEMA_REG_OP NEMA_REG_OP_SUBMIT_COMMAND_LIST sz0 = Inr ds1"
    and s2: "on_nema_io_write ds1 NEMA_REG_OP NEMA_REG_OP_SUBMIT_COMMAND_LIST sz1 = Inr ds2"
  shows "clip_state ds1 = clip_after (clip_state ds0) (dispatched (new_events ds0 ds1))
    \<and> clip_state ds2 = clip_after (clip_state ds1) (dispatched (new_events ds1 ds2))
    \<and> ((\<forall>c \<in> set (dispatched (new_events ds1 ds2)). op c \<noteq> NEMA_OP_SET_CLIP) \<longrightarrow>
          has_clip_set ds2 = has_clip_set ds1 \<and> nema_clip_region ds2 = nema_clip_region ds1
          \<and> pixman_clip_region ds2 = pixman_clip_region ds1)
    \<and> (\<forall>offset val sz ds'. \<not> (offset = NEMA_REG_OP \<and> val = NEMA_REG_OP_SUBMIT_COMMAND_LIST) \<longrightarrow>
          on_nema_io_write ds1 offset val sz = Inr ds' \<longrightarrow> clip_state ds' = clip_state ds1)
    \<and> (\<forall>addr sz. clip_state (snd (on_nema_io_read ds1 addr sz)) = clip_state ds1)
    \<and> (\<exists>d c. process_cl_loop ds0 0 pipeline_ctx_zero = Inr (d, c) \<and> ds1 = qemu_irq_raise d)
    \<and> (\<exists>d c. process_cl_loop ds1 0 pipeline_ctx_zero = Inr (d, c) \<and> ds2 = qemu_irq_raise d)
    \<and> (0 < unat (next_cmd_slot (cl_mapped ds1)) \<longrightarrow>
          (\<exists>d c. process_cmd ds1 (list (cl_mapped ds1) ! 0) pipeline_ctx_zero = Inr (d, c))
          \<and> op (list (cl_mapped ds1) ! 0) \<noteq> NEMA_OP_BLIT
          \<and> op (list (cl_mapped ds1) ! 0) \<noteq> NEMA_OP_FILL_RECT)"
proof -
  have run: "\<exists>d c. process_cl_loop ds 0 pipeline_ctx_zero = Inr (d, c) \<and> ds' = qemu_irq_raise d"
    if "on_nema_io_write ds NEMA_REG_OP NEMA_REG_OP_SUBMIT_COMMAND_LIST sz = Inr ds'"
    for ds ds' sz
    using that
    by (auto simp: on_nema_io_write_def process_cl_def Let_def split: if_splits sum.splits)
  have clip: "clip_state ds' = clip_after (clip_state ds) (dispatched (new_events ds ds'))"
    if "on_nema_io_write ds NEMA_REG_OP NEMA_REG_OP_SUBMIT_COMMAND_LIST sz = Inr ds'"
    for ds ds' sz
  proof -
    from run [OF that] obtain d c where
      l: "process_cl_loop ds 0 pipeline_ctx_zero = Inr (d, c)" and d: "ds' = qemu_irq_raise d"
      by blast
    from process_cl_loop_Inr [OF l] obtain es where
      es: "trace d = trace ds @ es" "clip_state d = clip_after (clip_state ds) (dispatched es)"
      by blast
    from d es(1) have "new_events ds ds' = es @ [Irq_raise]"
      by (simp add: new_events_def qemu_irq_raise_def log_event_def)
    moreover from d have "clip_state ds' = clip_state d"
      by (simp add: clip_state_def qemu_irq_raise_def log_event_def)
    ultimately show ?thesis
      using es(2) by (simp add: dispatched_append)
  qed
  note c1 = clip [OF s1] and c2 = clip [OF s2]
  have frame: "has_clip_set ds2 = has_clip_set ds1 \<and> nema_clip_region ds2 = nema_clip_region ds1
          \<and> pixman_clip_region ds2 = pixman_clip_region ds1"
    if "\<forall>c \<in> set (dispatched (new_events ds1 ds2)). op c \<noteq> NEMA_OP_SET_CLIP"
    using c2 clip_after_no_set_clip [OF that] by (simp add: clip_state_def)
  have other: "clip_state ds' = clip_state ds1"
    if "\<not> (offset = NEMA_REG_OP \<and> val = NEMA_REG_OP_SUBMIT_COMMAND_LIST)"
      and "on_nema_io_write ds1 offset val sz = Inr ds'" for offset val sz ds'
    using that
    by (auto simp: on_nema_io_write_def clip_state_def qemu_irq_lower_def log_event_def
        split: if_splits)
  have rd: "clip_state (snd (on_nema_io_read ds1 addr sz)) = clip_state ds1" for addr sz
    by (simp add: on_nema_io_read_def)
  from run [OF s2] obtain d c where
    l: "process_cl_loop ds1 0 pipeline_ctx_zero = Inr (d, c)" and d: "ds2 = qemu_irq_raise d"
    by blast
  have first: "(\<exists>d c. process_cmd ds1 (list (cl_mapped ds1) ! 0) pipeline_ctx_zero = Inr (d, c))
          \<and> op (list (cl_mapped ds1) ! 0) \<noteq> NEMA_OP_BLIT
          \<and> op (list (cl_mapped ds1) ! 0) \<noteq> NEMA_OP_FILL_RECT"
    if lt: "0 < unat (next_cmd_slot (cl_mapped ds1))"
  proof -
    from lt l have len: "0 < length (list (cl_mapped ds1))"
      by (auto simp: process_cl_loop.simps [of ds1 0] split: if_splits)
    from l have r: "\<exists>d c. process_cmd ds1 (list (cl_mapped ds1) ! 0) pipeline_ctx_zero = Inr (d, c)"
      unfolding process_cl_loop_step [OF lt len] by (auto split: sum.splits)
    have "\<not> ctx_ready ds1 pipeline_ctx_zero"
      by (simp add: ctx_ready_def pipeline_ctx_zero_def)
    with r not_ready_faults [of "list (cl_mapped ds1) ! 0" ds1 pipeline_ctx_zero] show ?thesis
      by auto
  qed
  from c1 c2 frame other rd run [OF s1] run [OF s2] first show ?thesis
    by blast
qed

theorem clip_persists_ctx_starts_zero_witness:
  "\<exists>ds1 ds2.
     on_nema_io_write ex_ds_pair NEMA_REG_OP NEMA_REG_OP_SUBMIT_COMMAND_LIST 4 = Inr ds1
     \<and> on_nema_io_write ds1 NEMA_REG_OP NEMA_REG_OP_SUBMIT_COMMAND_LIST 4 = Inr ds2
     \<and> dispatched (new_events ex_ds_pair ds1) = [ex_set_clip, ex_set_color]
     \<and> dispatched (new_events ds1 ds2) = [ex_bind_dest, ex_fill]
     \<and> clip_state ex_ds_pair = (False, region_zero, region_zero)
     \<and> clip_state ds1 = (True, ex_clip, ex_clip) \<and> clip_state ds2 = (True, ex_clip, ex_clip)
     \<and> (\<exists>d c. process_cmd ds1 (list (cl_mapped ds1) ! 0) pipeline_ctx_zero = Inr (d, c))"
proof -
  let ?ds1 = "ex_ds_pair\<lparr>inst_processed := True, has_clip_set := True,
    pixman_clip_region := ex_clip, nema_clip_region := ex_clip,
    trace := [Dispatch ex_set_clip, Dispatch ex_set_color, Irq_raise]\<rparr>"
  have s1: "on_nema_io_write ex_ds_pair NEMA_REG_OP NEMA_REG_OP_SUBMIT_COMMAND_LIST 4 = Inr ?ds1"
    by (simp add: on_nema_io_write_def process_cl_def process_cl_loop_step process_cl_loop_done
        cl_mapped_def ex_ds_pair_def ex_cl_two_def ex_set_clip_def ex_set_color_def ex_defs
        process_cmd_def nema_op_defs log_event_def Let_def sizeof_nema_cmdlist_t_def
        qemu_irq_raise_def)
  have "\<exists>d. on_nema_io_write ?ds1 NEMA_REG_OP NEMA_REG_OP_SUBMIT_COMMAND_LIST 4 = Inr d"
    by (simp add: on_nema_io_write_def process_cl_def process_cl_loop_step process_cl_loop_done
        cl_mapped_def ex_ds_pair_def ex_cl_fill_def ex_bind_dest_def ex_defs run_defs
        bind_tex_def read_tex_def Let_def NEMA_TEX0_def NEMA_TEX1_def NEMA_TEX3_def
        sizeof_nema_cmdlist_t_def qemu_irq_raise_def to_uint16_def)
  then obtain ds2 where
    s2: "on_nema_io_write ?ds1 NEMA_REG_OP NEMA_REG_OP_SUBMIT_COMMAND_LIST 4 = Inr ds2"
    by blast
  have m: "cl_mapped ?ds1 = ex_cl_fill"
    by (simp add: cl_mapped_def ex_ds_pair_def ex_defs)
  have n: "0 < unat (next_cmd_slot (cl_mapped ?ds1))"
    by (simp add: m ex_cl_fill_def)
  have d1: "dispatched (new_events ex_ds_pair ?ds1) = [ex_set_clip, ex_set_color]"
    by (simp add: new_events_def ex_ds_pair_def ex_defs)
  have c0: "clip_state ex_ds_pair = (False, region_zero, region_zero)"
    "clip_state ?ds1 = (True, ex_clip, ex_clip)"
    by (simp_all add: clip_state_def ex_ds_pair_def ex_defs)
  have d2: "dispatched (new_events ?ds1 ds2) = [ex_bind_dest, ex_fill]"
    using s2
    by (simp add: on_nema_io_write_def process_cl_def process_cl_loop_step process_cl_loop_done
        cl_mapped_def ex_ds_pair_def ex_cl_fill_def ex_bind_dest_def ex_defs run_defs
        bind_tex_def read_tex_def Let_def NEMA_TEX0_def NEMA_TEX1_def NEMA_TEX3_def
        sizeof_nema_cmdlist_t_def qemu_irq_raise_def to_uint16_def new_events_def)
      (auto simp: dispatched_append)
  have no: "\<forall>c \<in> set (dispatched (new_events ?ds1 ds2)). op c \<noteq> NEMA_OP_SET_CLIP"
    unfolding d2 by (simp add: ex_bind_dest_def ex_fill_def cmd_zero_def nema_op_defs)
  from clip_persists_ctx_starts_zero [OF s1 s2] no n c0
  have "clip_state ds2 = (True, ex_clip, ex_clip)"
    "\<exists>d c. process_cmd ?ds1 (list (cl_mapped ?ds1) ! 0) pipeline_ctx_zero = Inr (d, c)"
    by (auto simp: clip_state_def)
  with s1 s2 d1 d2 c0 show ?thesis
    by blast
qed

subsection \<open>C5: a count above 250\<close>

text \<open>
  C5, evaluated at a failing input. The claim has a list whose count exceeds 250
  rejected without a read beyond the array. With a count of 251 and 250 SET_CLIP
  records, \<open>process_cl\<close> dispatches all 250 records and then indexes \<open>list[250]\<close>: the
  source compares the index with the count only.
\<close>

theorem oversized_list_reads_index_250:
  "unat (next_cmd_slot ex_cl_251) = 251 \<and> cl_wf ex_cl_251
   \<and> map_cl (guest ex_ds_251 (trace ex_ds_251)) = (sizeof_nema_cmdlist_t, ex_cl_251)
   \<and> map_sum (\<lambda>e. (fst e, dispatched (trace (snd e)))) (\<lambda>d. ())
       (on_nema_io_write ex_ds_251 NEMA_REG_OP NEMA_REG_OP_SUBMIT_COMMAND_LIST 4)
     = Inl (List_index_out_of_bounds 250, replicate 250 ex_set_clip)"
proof -
  have m: "map_cl (guest ex_ds_251 (trace ex_ds_251)) = (sizeof_nema_cmdlist_t, ex_cl_251)"
    by (simp add: ex_cl_defs ex_defs)
  from oversized_loop [of ex_ds_251 0 pipeline_ctx_zero] obtain dx where
    "process_cl_loop ex_ds_251 0 pipeline_ctx_zero = Inl (List_index_out_of_bounds 250, dx)"
    "dispatched (trace dx) = replicate 250 ex_set_clip"
    by (auto simp: ex_ds_251_def ex_ds_def)
  with m have "map_sum (\<lambda>e. (fst e, dispatched (trace (snd e)))) (\<lambda>d. ())
       (on_nema_io_write ex_ds_251 NEMA_REG_OP NEMA_REG_OP_SUBMIT_COMMAND_LIST 4)
     = Inl (List_index_out_of_bounds 250, replicate 250 ex_set_clip)"
    by (simp add: on_nema_io_write_def process_cl_def)
  moreover have "unat (next_cmd_slot ex_cl_251) = 251" "cl_wf ex_cl_251"
    by (simp_all add: ex_cl_251_def cl_wf_def NEMA_MAX_CMD_COUNT_def)
  ultimately show ?thesis
    using m by simp
qed

subsection \<open>C6: padding of mask rows\<close>

text \<open>
  C6 as stated fails, at four binds of a mask at address 16 whose stride is not a
  multiple of 4. Stride 65537, height 1: the image gets stride 65540 over a buffer of
  4 bytes, since the rows are copied with the stride cut to 16 bits. Stride 5,
  height 0: the stride stays 5. Stride 5, height 65537: the buffer holds one row of 8
  bytes for an image of 65537 rows. Stride -3, height 1: the copy of the first row has
  a negative length.
\<close>

theorem mask_bind_padding_counterexample:
  "c_rem (sint (int_a (ex_bind_mask 65537 1))) 4 \<noteq> 0
   \<and> mask_summary (process_cmd ex_ds (ex_bind_mask 65537 1) pipeline_ctx_zero)
       = Inr (Some (65540, 1, Heap [16, 0, 0, 0]))
   \<and> c_rem (sint (int_a (ex_bind_mask 5 0))) 4 \<noteq> 0
   \<and> mask_summary (process_cmd ex_ds (ex_bind_mask 5 0) pipeline_ctx_zero)
       = Inr (Some (5, 0, Heap []))
   \<and> c_rem (sint (int_a (ex_bind_mask 5 65537))) 4 \<noteq> 0
   \<and> mask_summary (process_cmd ex_ds (ex_bind_mask 5 65537) pipeline_ctx_zero)
       = Inr (Some (8, 65537, Heap [16, 17, 18, 19, 20, 0, 0, 0]))
   \<and> c_rem (sint (int_a (ex_bind_mask (- 3) 1))) 4 \<noteq> 0
   \<and> mask_summary (process_cmd ex_ds (ex_bind_mask (- 3) 1) pipeline_ctx_zero)
       = Inl Buffer_overrun"
proof -
  let ?g = "guest ex_ds"
  have g: "guest ex_ds tr = ex_guest" for tr
    by (simp add: ex_ds_def)
  have b: "op (ex_bind_mask s n) = NEMA_OP_BIND_TEX" "u_int_8_a (ex_bind_mask s n) = NEMA_TEX3"
    "addr_a (ex_bind_mask s n) = 16" "int_a (ex_bind_mask s n) = s"
    "u_int_b (ex_bind_mask s n) = n" for s n
    by (simp_all add: ex_bind_mask_def cmd_zero_def)
  have addr: "\<not> (0x10000000 < (16 :: 32 word) \<and> (16 :: 32 word) < 0x20000000)"
    by simp
  have c: "c_rem 65537 4 \<noteq> 0" "c_rem 5 4 \<noteq> 0" "to_uint8 (4 - c_rem 65537 4) = 3"
    "to_uint8 (4 - c_rem 5 4) = 3" "to_int32 65540 = 65540" "to_int32 8 = 8"
    by (simp_all add: c_rem_def to_uint8_def to_int32_def)
  have w: "(65537 :: 16 word) = 1"
    by simp
  have wide: "mask_summary (process_cmd ex_ds (ex_bind_mask 65537 1) pipeline_ctx_zero)
       = Inr (Some (65540, 1, Heap [16, 0, 0, 0]))"
  proof -
    from tex_copy_ram [OF addr, of 1 65537 ex_guest] obtain data where
      d: "tex_copy ex_guest 16 65537 = Inr data" "length data = 65537"
        "take 1 data = [16]"
      by (auto simp: ex_guest_def)
    have "round_mask_if_needed (uninit ex_guest) data (1 :: 16 word) (1 :: 16 word) =
        Inr (Some (padded_rows (nat (sint (1 :: 16 word))) (4 - nat (sint (1 :: 16 word)) mod 4)
          data (nat (sint (1 :: 16 word)))))"
      by (rule round_mask_padded) (simp_all add: c_rem_def d)
    then have "round_mask_if_needed (uninit ex_guest) data 1 1 = Inr (Some [16, 0, 0, 0])"
      using d(3) by (simp add: padded_rows_def padded_row_def numeral_3_eq_3)
    with mask_summary_bind [of "ex_bind_mask 65537 1" ex_ds data "Some [16, 0, 0, 0]"
        pipeline_ctx_zero] d(1)
    show ?thesis
      by (simp add: b g c w)
  qed
  have flat: "mask_summary (process_cmd ex_ds (ex_bind_mask 5 0) pipeline_ctx_zero)
       = Inr (Some (5, 0, Heap []))"
  proof -
    have d: "tex_copy ex_guest 16 0 = Inr []"
      by (simp add: tex_copy_def)
    have "round_mask_if_needed (uninit ex_guest) [] (5 :: 16 word) (0 :: 16 word) = Inr None"
      by (rule round_mask_no_rows) (simp_all add: c_rem_def)
    with mask_summary_bind [of "ex_bind_mask 5 0" ex_ds "[]" None pipeline_ctx_zero] d
    show ?thesis
      by (simp add: b g c)
  qed
  have tall: "mask_summary (process_cmd ex_ds (ex_bind_mask 5 65537) pipeline_ctx_zero)
       = Inr (Some (8, 65537, Heap [16, 17, 18, 19, 20, 0, 0, 0]))"
  proof -
    from tex_copy_ram [OF addr, of 5 327685 ex_guest] obtain data where
      d: "tex_copy ex_guest 16 327685 = Inr data" "length data = 327685"
        "take 5 data = [16, 17, 18, 19, 20]"
      by (auto simp: ex_guest_def upt_rec)
    have "round_mask_if_needed (uninit ex_guest) data (5 :: 16 word) (1 :: 16 word) =
        Inr (Some (padded_rows (nat (sint (5 :: 16 word))) (4 - nat (sint (5 :: 16 word)) mod 4)
          data (nat (sint (1 :: 16 word)))))"
      by (rule round_mask_padded) (simp_all add: c_rem_def d)
    then have "round_mask_if_needed (uninit ex_guest) data 5 1
        = Inr (Some [16, 17, 18, 19, 20, 0, 0, 0])"
      using d(3) by (simp add: padded_rows_def padded_row_def numeral_3_eq_3)
    with mask_summary_bind [of "ex_bind_mask 5 65537" ex_ds data
        "Some [16, 17, 18, 19, 20, 0, 0, 0]" pipeline_ctx_zero] d(1)
    show ?thesis
      by (simp add: b g c w)
  qed
  have neg: "c_rem (sint (int_a (ex_bind_mask (- 3) 1))) 4 \<noteq> 0"
    by (simp add: b c_rem_def)
  from wide flat tall c neg negative_stride_faults show ?thesis
    by (simp add: b)
qed

text \<open>
  C6, amended. A mask bind whose read of guest memory succeeds: when the declared stride
  is a multiple of 4, the bytes read and the stride are used as they are. When it is
  not, and stride and height both lie between 1 and 32767, the image gets the stride
  rounded up to the next multiple of 4 and a buffer of that many bytes for each row, in
  which every row starts with the bytes of the source row and ends with zero bytes.
\<close>

theorem mask_bind_padding:
  assumes bind: "op cmd = NEMA_OP_BIND_TEX" "u_int_8_a cmd = NEMA_TEX3"
    and copy: "tex_copy (guest ds (trace ds @ [Dispatch cmd])) (addr_a cmd)
                 (unat (int_a cmd * u_int_b cmd)) = Inr data"
  shows "(c_rem (sint (int_a cmd)) 4 = 0 \<longrightarrow>
           process_cmd ds cmd ctx =
             Inr (log_event (Dispatch cmd) ds,
                  ctx\<lparr>mask_tex := Some \<lparr>format = PIXMAN_a8, width = sint (u_int_a cmd),
                     height = sint (u_int_b cmd), bits = Heap data,
                     stride = sint (int_a cmd)\<rparr>\<rparr>))
       \<and> (c_rem (sint (int_a cmd)) 4 \<noteq> 0 \<and> 0 < sint (int_a cmd) \<and> sint (int_a cmd) < 32768
            \<and> 0 < uint (u_int_b cmd) \<and> uint (u_int_b cmd) < 32768 \<longrightarrow>
           (\<exists>buf s p n. s = nat (sint (int_a cmd)) \<and> n = unat (u_int_b cmd)
              \<and> 0 < p \<and> p < 4 \<and> 4 dvd s + p
              \<and> process_cmd ds cmd ctx =
                  Inr (log_event (Dispatch cmd) ds,
                       ctx\<lparr>mask_tex := Some \<lparr>format = PIXMAN_a8, width = sint (u_int_a cmd),
                          height = sint (u_int_b cmd), bits = Heap buf,
                          stride = int (s + p)\<rparr>\<rparr>)
              \<and> length data = n * s \<and> length buf = n * (s + p)
              \<and> (\<forall>r < n. take s (drop (r * (s + p)) buf) = take s (drop (r * s) data)
                     \<and> take p (drop (r * (s + p) + s) buf) = replicate p 0)))"
proof (intro conjI impI)
  let ?d = "log_event (Dispatch cmd) ds"
  have copy': "tex_copy (guest ?d (trace ?d)) (addr_a cmd) (unat (int_a cmd * u_int_b cmd)) = Inr data"
    using copy by (simp add: log_event_def)
  note rt = read_tex_mask [OF copy']
  {
    assume "c_rem (sint (int_a cmd)) 4 = 0"
    then have "c_rem (sint (ucast (int_a cmd) :: 16 word)) 4 = 0"
      by (simp add: ucast16_rem4)
    then have "round_mask_if_needed (uninit (guest ?d (trace ?d))) data
        (ucast (int_a cmd)) (ucast (u_int_b cmd)) = Inr None"
      by (rule round_mask_aligned)
    then show "process_cmd ds cmd ctx =
             Inr (?d, ctx\<lparr>mask_tex := Some \<lparr>format = PIXMAN_a8, width = sint (u_int_a cmd),
                     height = sint (u_int_b cmd), bits = Heap data,
                     stride = sint (int_a cmd)\<rparr>\<rparr>)"
      by (simp add: process_cmd_bind_mask [OF bind] rt)
  }
  {
    assume a: "c_rem (sint (int_a cmd)) 4 \<noteq> 0 \<and> 0 < sint (int_a cmd) \<and> sint (int_a cmd) < 32768
            \<and> 0 < uint (u_int_b cmd) \<and> uint (u_int_b cmd) < 32768"
    let ?s = "nat (sint (int_a cmd))" and ?n = "unat (u_int_b cmd)"
    let ?p = "4 - ?s mod 4"
    let ?strd = "ucast (int_a cmd) :: 16 word" and ?hgt = "ucast (u_int_b cmd) :: 16 word"
    let ?buf = "padded_rows ?s ?p data ?n"
    from a have s16: "sint ?strd = sint (int_a cmd)"
      by (intro sint_ucast16_signed) simp_all
    from a have h16: "sint ?hgt = uint (u_int_b cmd)"
      by (intro sint_ucast16_unsigned) simp
    from a have "sint (int_a cmd) * uint (u_int_b cmd) \<le> 32768 * 32768"
      by (intro mult_mono) simp_all
    then have "sint (int_a cmd) * uint (u_int_b cmd) < 2 ^ 32"
      by simp
    with a have "unat (int_a cmd * u_int_b cmd) = ?s * ?n"
      by (intro expected_len_small) simp_all
    with tex_copy_length [OF copy] have len: "length data = ?n * ?s"
      by (simp add: mult.commute)
    have hn: "nat (sint ?hgt) = ?n"
      by (simp add: h16)
    have "round_mask_if_needed (uninit (guest ?d (trace ?d))) data ?strd ?hgt =
        Inr (Some (padded_rows (nat (sint ?strd)) (4 - nat (sint ?strd) mod 4) data (nat (sint ?hgt))))"
      using a len by (intro round_mask_padded) (simp_all add: s16 h16 hn)
    then have rm: "round_mask_if_needed (uninit (guest ?d (trace ?d))) data ?strd ?hgt = Inr (Some ?buf)"
      by (simp only: s16 hn)
    from a have "0 \<le> sint (int_a cmd)"
      by simp
    then have "c_rem (sint (int_a cmd)) 4 = sint (int_a cmd) mod 4"
      by (rule c_rem_pos)
    with a have m: "sint (int_a cmd) mod 4 \<noteq> 0"
      by simp
    have im: "int (?s mod 4) = sint (int_a cmd) mod 4"
      using a by (simp add: zmod_int)
    moreover have "?s mod 4 \<le> 4"
      by simp
    ultimately have ip: "int ?p = 4 - sint (int_a cmd) mod 4"
      by (simp add: of_nat_diff)
    have nm: "?s mod 4 \<noteq> 0"
    proof
      assume "?s mod 4 = 0"
      then have "int (?s mod 4) = 0"
        by simp
      with im m show False
        by simp
    qed
    from a have "to_uint8 (4 - c_rem (sint (int_a cmd)) 4) = 4 - sint (int_a cmd) mod 4"
      using padding_pos(2) [OF _ m] by simp
    then have pad: "to_uint8 (4 - c_rem (sint (int_a cmd)) 4) = int ?p"
      using ip by simp
    have sp: "sint (int_a cmd) + int ?p = int (?s + ?p)"
      using a by simp
    have "int (?s + ?p) < 32768 + 4"
      using a by simp
    then have st: "to_int32 (sint (int_a cmd) + int ?p) = int (?s + ?p)"
      unfolding sp by (simp add: to_int32_def)
    have pc: "process_cmd ds cmd ctx =
        Inr (?d, ctx\<lparr>mask_tex := Some \<lparr>format = PIXMAN_a8, width = sint (u_int_a cmd),
                          height = sint (u_int_b cmd), bits = Heap ?buf,
                          stride = int (?s + ?p)\<rparr>\<rparr>)"
      by (simp only: process_cmd_bind_mask [OF bind] rt rm pad st sum.case option.case)
    have p: "0 < ?p" "?p < 4" "4 dvd ?s + ?p"
      using nm by (rule pad_nat)+
    have lb: "length ?buf = ?n * (?s + ?p)"
      using len by (intro padded_rows_length) simp
    have rows: "\<forall>r < ?n. take ?s (drop (r * (?s + ?p)) ?buf) = take ?s (drop (r * ?s) data)
        \<and> take ?p (drop (r * (?s + ?p) + ?s) ?buf) = replicate ?p 0"
    proof (intro allI impI)
      fix r
      assume "r < ?n"
      moreover have "?n * ?s \<le> length data"
        using len by simp
      ultimately show "take ?s (drop (r * (?s + ?p)) ?buf) = take ?s (drop (r * ?s) data)
        \<and> take ?p (drop (r * (?s + ?p) + ?s) ?buf) = replicate ?p 0"
        by (intro conjI padded_rows_spec)
    qed
    from p pc len lb rows
    show "\<exists>buf s p n. s = nat (sint (int_a cmd)) \<and> n = unat (u_int_b cmd)
              \<and> 0 < p \<and> p < 4 \<and> 4 dvd s + p
              \<and> process_cmd ds cmd ctx =
                  Inr (log_event (Dispatch cmd) ds,
                       ctx\<lparr>mask_tex := Some \<lparr>format = PIXMAN_a8, width = sint (u_int_a cmd),
                          height = sint (u_int_b cmd), bits = Heap buf,
                          stride = int (s + p)\<rparr>\<rparr>)
              \<and> length data = n * s \<and> length buf = n * (s + p)
              \<and> (\<forall>r < n. take s (drop (r * (s + p)) buf) = take s (drop (r * s) data)
                     \<and> take p (drop (r * (s + p) + s) buf) = replicate p 0)"
      by blast
  }
qed

theorem mask_bind_padding_witness:
  "op (ex_bind_mask 5 2) = NEMA_OP_BIND_TEX \<and> u_int_8_a (ex_bind_mask 5 2) = NEMA_TEX3
   \<and> tex_copy (guest ex_ds (trace ex_ds @ [Dispatch (ex_bind_mask 5 2)]))
        (addr_a (ex_bind_mask 5 2)) (unat (int_a (ex_bind_mask 5 2) * u_int_b (ex_bind_mask 5 2)))
      = Inr [16, 17, 18, 19, 20, 21, 22, 23, 24, 25]
   \<and> c_rem (sint (int_a (ex_bind_mask 5 2))) 4 \<noteq> 0
   \<and> (\<exists>buf. process_cmd ex_ds (ex_bind_mask 5 2) pipeline_ctx_zero =
          Inr (log_event (Dispatch (ex_bind_mask 5 2)) ex_ds,
               pipeline_ctx_zero\<lparr>mask_tex := Some \<lparr>format = PIXMAN_a8, width = 5, height = 2,
                 bits = Heap buf, stride = 8\<rparr>\<rparr>)
          \<and> length buf = 16
          \<and> take 5 buf = [16, 17, 18, 19, 20] \<and> take 3 (drop 5 buf) = [0, 0, 0]
          \<and> take 5 (drop 8 buf) = [21, 22, 23, 24, 25] \<and> take 3 (drop 13 buf) = [0, 0, 0])
   \<and> c_rem (sint (int_a (ex_bind_mask 8 1))) 4 = 0
   \<and> process_cmd ex_ds (ex_bind_mask 8 1) pipeline_ctx_zero =
          Inr (log_event (Dispatch (ex_bind_mask 8 1)) ex_ds,
               pipeline_ctx_zero\<lparr>mask_tex := Some \<lparr>format = PIXMAN_a8, width = 5, height = 1,
                 bits = Heap [16, 17, 18, 19, 20, 21, 22, 23], stride = 8\<rparr>\<rparr>)"
proof -
  have b: "op (ex_bind_mask s n) = NEMA_OP_BIND_TEX" "u_int_8_a (ex_bind_mask s n) = NEMA_TEX3"
    "addr_a (ex_bind_mask s n) = 16" "int_a (ex_bind_mask s n) = s"
    "u_int_b (ex_bind_mask s n) = n" "u_int_a (ex_bind_mask s n) = 5" for s n
    by (simp_all add: ex_bind_mask_def cmd_zero_def)
  have g: "guest ex_ds tr = ex_guest" for tr
    by (simp add: ex_ds_def)
  let ?data = "[16, 17, 18, 19, 20, 21, 22, 23, 24, 25] :: byte list"
  have copy: "tex_copy (guest ex_ds (trace ex_ds @ [Dispatch (ex_bind_mask 5 2)]))
        (addr_a (ex_bind_mask 5 2)) (unat (int_a (ex_bind_mask 5 2) * u_int_b (ex_bind_mask 5 2)))
      = Inr ?data"
    by (simp add: b g tex_copy_def ex_guest_def upt_rec)
  have copy8: "tex_copy (guest ex_ds (trace ex_ds @ [Dispatch (ex_bind_mask 8 1)]))
        (addr_a (ex_bind_mask 8 1)) (unat (int_a (ex_bind_mask 8 1) * u_int_b (ex_bind_mask 8 1)))
      = Inr [16, 17, 18, 19, 20, 21, 22, 23]"
    by (simp add: b g tex_copy_def ex_guest_def upt_rec)
  have r: "c_rem (sint (int_a (ex_bind_mask 5 2))) 4 \<noteq> 0"
    "c_rem (sint (int_a (ex_bind_mask 8 1))) 4 = 0"
    by (simp_all add: b c_rem_def)
  have range: "0 < sint (int_a (ex_bind_mask 5 2))" "sint (int_a (ex_bind_mask 5 2)) < 32768"
    "0 < uint (u_int_b (ex_bind_mask 5 2))" "uint (u_int_b (ex_bind_mask 5 2)) < 32768"
    by (simp_all add: b)
  from mask_bind_padding [OF b(1,2) copy, of pipeline_ctx_zero] r(1) range
  obtain buf s p n where
    s: "s = nat (sint (int_a (ex_bind_mask 5 2)))" and n: "n = unat (u_int_b (ex_bind_mask 5 2))"
    and p: "0 < p" "p < 4" "4 dvd s + p"
    and pc: "process_cmd ex_ds (ex_bind_mask 5 2) pipeline_ctx_zero =
        Inr (log_event (Dispatch (ex_bind_mask 5 2)) ex_ds,
             pipeline_ctx_zero\<lparr>mask_tex := Some \<lparr>format = PIXMAN_a8,
               width = sint (u_int_a (ex_bind_mask 5 2)), height = sint (u_int_b (ex_bind_mask 5 2)),
               bits = Heap buf, stride = int (s + p)\<rparr>\<rparr>)"
    and len: "length buf = n * (s + p)"
    and rows: "\<forall>r < n. take s (drop (r * (s + p)) buf) = take s (drop (r * s) ?data)
                 \<and> take p (drop (r * (s + p) + s) buf) = replicate p 0"
    by blast
  from s n have sn: "s = 5" "n = 2"
    by (simp_all add: b)
  with p have p3: "p = 3"
    by presburger
  from rows [rule_format, of 0] rows [rule_format, of 1]
  have "take 5 buf = [16, 17, 18, 19, 20]" "take 3 (drop 5 buf) = [0, 0, 0]"
    "take 5 (drop 8 buf) = [21, 22, 23, 24, 25]" "take 3 (drop 13 buf) = [0, 0, 0]"
    by (simp_all add: sn p3 numeral_3_eq_3)
  moreover from len have "length buf = 16"
    by (simp add: sn p3)
  moreover from pc have "process_cmd ex_ds (ex_bind_mask 5 2) pipeline_ctx_zero =
          Inr (log_event (Dispatch (ex_bind_mask 5 2)) ex_ds,
               pipeline_ctx_zero\<lparr>mask_tex := Some \<lparr>format = PIXMAN_a8, width = 5, height = 2,
                 bits = Heap buf, stride = 8\<rparr>\<rparr>)"
    by (simp add: sn p3 b)
  moreover from mask_bind_padding [OF b(1,2) copy8, of pipeline_ctx_zero] r(2)
  have "process_cmd ex_ds (ex_bind_mask 8 1) pipeline_ctx_zero =
          Inr (log_event (Dispatch (ex_bind_mask 8 1)) ex_ds,
               pipeline_ctx_zero\<lparr>mask_tex := Some \<lparr>format = PIXMAN_a8, width = 5, height = 1,
                 bits = Heap [16, 17, 18, 19, 20, 21, 22, 23], stride = 8\<rparr>\<rparr>)"
    by (simp add: b)
  ultimately show ?thesis
    using copy r b(1,2) by blast
qed

subsection \<open>C7: the opacity mask\<close>

text \<open>
  C7 as stated fails. With the has-opacity flag set, no mask bound and a destination
  32765 pixels wide, the new mask gets the stride -32768, not 32768: the stride is
  computed in 16 bits. With a bound mask whose buffer is shorter than stride times
  height, the scaling loop runs past the end of the buffer.
\<close>

theorem opacity_mask_counterexample:
  "(blending_mode ex_ctx_wide AND NEMA_BL_OPA) \<noteq> 0 \<and> mask_tex ex_ctx_wide = None
   \<and> map_option width (dest_tex ex_ctx_wide) = Some 32765
   \<and> map_sum fst (\<lambda>c. map_option stride (mask_tex c)) (blend_opacity_if_needed ex_ds_clip ex_ctx_wide)
       = Inr (Some (- 32768))
   \<and> (blending_mode ex_ctx_mask_short AND NEMA_BL_OPA) \<noteq> 0
   \<and> mask_tex ex_ctx_mask_short = Some ex_mask_short
   \<and> map_sum fst (\<lambda>c. ()) (blend_opacity_if_needed ex_ds_clip ex_ctx_mask_short)
       = Inl Buffer_overrun"
proof -
  have a: "(blending_mode ex_ctx_wide AND NEMA_BL_OPA) \<noteq> 0" "mask_tex ex_ctx_wide = None"
    "dest_tex ex_ctx_wide = Some ex_dest_wide"
    by (simp_all add: ex_ctx_wide_def pipeline_ctx_zero_def NEMA_BL_OPA_def)
  have "to_int16 (round_up_4 (width ex_dest_wide)) = - 32768"
    by (simp add: ex_dest_wide_def round_up_4_def to_int16_def)
  with blend_new_mask [OF a, of ex_ds_clip]
  have 1: "map_sum fst (\<lambda>c. map_option stride (mask_tex c))
      (blend_opacity_if_needed ex_ds_clip ex_ctx_wide) = Inr (Some (- 32768))"
    by simp
  have b: "(blending_mode ex_ctx_mask_short AND NEMA_BL_OPA) \<noteq> 0"
    "mask_tex ex_ctx_mask_short = Some ex_mask_short" "bits ex_mask_short = Heap [16, 0, 0, 0]"
    by (simp_all add: ex_ctx_mask_short_def ex_mask_short_def ex_ctx_dest_def pipeline_ctx_zero_def
        NEMA_BL_OPA_def)
  have "scale_mask_bytes [16, 0, 0, 0] (opacity_byte ex_ctx_mask_short)
      (nat (to_uint32 (stride ex_mask_short * height ex_mask_short))) 0 = None"
    by (simp add: scale_mask_bytes.simps ex_mask_short_def to_uint32_def)
  with blend_existing_mask [OF b, of ex_ds_clip]
  have 2: "map_sum fst (\<lambda>c. ()) (blend_opacity_if_needed ex_ds_clip ex_ctx_mask_short)
       = Inl Buffer_overrun"
    by simp
  from a b 1 2 show ?thesis
    by (simp add: ex_dest_wide_def)
qed

text \<open>
  C7, amended. When the has-opacity flag is clear, the context is returned as it is.
  When it is set, no mask is bound and the destination has a width between 0 and 32764
  and a height of at least 0 with height times rounded width below \<open>2^32\<close>, a new
  8-bit mask of the destination's width and height is bound, its stride the width
  rounded up to a multiple of 4 and every byte the top byte of the constant colour.
  When it is set and a mask is bound whose buffer holds exactly stride times height
  bytes, every byte \<open>b\<close> of the buffer becomes \<open>(b * opacity) >> 8\<close>.
\<close>

theorem opacity_mask:
  "((blending_mode ctx AND NEMA_BL_OPA) = 0 \<longrightarrow> blend_opacity_if_needed ds ctx = Inr ctx)
   \<and> ((blending_mode ctx AND NEMA_BL_OPA) \<noteq> 0 \<and> mask_tex ctx = None \<and> dest_tex ctx = Some dest
        \<and> 0 \<le> width dest \<and> width dest \<le> 32764 \<and> 0 \<le> height dest
        \<and> height dest * round_up_4 (width dest) < 2 ^ 32 \<longrightarrow>
       blend_opacity_if_needed ds ctx =
         Inr (ctx\<lparr>mask_tex := Some \<lparr>format = PIXMAN_a8, width = width dest,
            height = height dest,
            bits = Heap (replicate (nat (height dest * round_up_4 (width dest))) (opacity_byte ctx)),
            stride = round_up_4 (width dest)\<rparr>\<rparr>)
       \<and> 4 dvd round_up_4 (width dest) \<and> width dest \<le> round_up_4 (width dest)
       \<and> round_up_4 (width dest) < width dest + 4)
   \<and> ((blending_mode ctx AND NEMA_BL_OPA) \<noteq> 0 \<and> mask_tex ctx = Some m \<and> bits m = Heap data
        \<and> stride m * height m = int (length data) \<and> length data < 2 ^ 32 \<longrightarrow>
       blend_opacity_if_needed ds ctx =
         Inr (ctx\<lparr>mask_tex := Some (m\<lparr>bits := Heap (map (scale_byte (opacity_byte ctx)) data)\<rparr>)\<rparr>))"
proof (intro conjI impI)
  assume "(blending_mode ctx AND NEMA_BL_OPA) = 0"
  then show "blend_opacity_if_needed ds ctx = Inr ctx"
    by (rule blend_flag_clear)
next
  assume a: "(blending_mode ctx AND NEMA_BL_OPA) \<noteq> 0 \<and> mask_tex ctx = None
        \<and> dest_tex ctx = Some dest
        \<and> 0 \<le> width dest \<and> width dest \<le> 32764 \<and> 0 \<le> height dest
        \<and> height dest * round_up_4 (width dest) < 2 ^ 32"
  let ?s = "round_up_4 (width dest)"
  from a have w: "0 \<le> width dest" "width dest \<le> 32764"
    by simp_all
  with round_up_4_props [of "width dest"] have s: "0 \<le> ?s" "?s < 32768"
    by linarith+
  then have s16: "to_int16 ?s = ?s"
    by (simp add: to_int16_def)
  from a s have "0 \<le> height dest * ?s"
    by simp
  with a have "to_uint32 (height dest * ?s) = height dest * ?s"
    by (simp add: to_uint32_def)
  with a s16 blend_new_mask [of ctx dest ds]
  show "blend_opacity_if_needed ds ctx =
         Inr (ctx\<lparr>mask_tex := Some \<lparr>format = PIXMAN_a8, width = width dest,
            height = height dest,
            bits = Heap (replicate (nat (height dest * ?s)) (opacity_byte ctx)),
            stride = ?s\<rparr>\<rparr>)"
    by simp
  show "4 dvd ?s" "width dest \<le> ?s" "?s < width dest + 4"
    by (rule round_up_4_props)+
next
  assume a: "(blending_mode ctx AND NEMA_BL_OPA) \<noteq> 0 \<and> mask_tex ctx = Some m
        \<and> bits m = Heap data
        \<and> stride m * height m = int (length data) \<and> length data < 2 ^ 32"
  then have "to_uint32 (stride m * height m) = int (length data)"
    by (simp add: to_uint32_def)
  then have "nat (to_uint32 (stride m * height m)) = length data"
    by simp
  with a blend_existing_mask [of ctx m data ds] scale_mask_bytes_all [of "length data" data]
  show "blend_opacity_if_needed ds ctx =
         Inr (ctx\<lparr>mask_tex := Some (m\<lparr>bits := Heap (map (scale_byte (opacity_byte ctx)) data)\<rparr>)\<rparr>)"
    by simp
qed

theorem opacity_mask_witness:
  "(blending_mode ex_ctx_dest AND NEMA_BL_OPA) = 0
   \<and> blend_opacity_if_needed ex_ds_clip ex_ctx_dest = Inr ex_ctx_dest
   \<and> (blending_mode ex_ctx_opa AND NEMA_BL_OPA) \<noteq> 0 \<and> mask_tex ex_ctx_opa = None
   \<and> dest_tex ex_ctx_opa = Some ex_dest
   \<and> blend_opacity_if_needed ex_ds_clip ex_ctx_opa =
        Inr (ex_ctx_opa\<lparr>mask_tex := Some \<lparr>format = PIXMAN_a8, width = 8, height = 8,
               bits = Heap (replicate 64 0x80), stride = 8\<rparr>\<rparr>)
   \<and> (blending_mode ex_ctx_mask_opa AND NEMA_BL_OPA) \<noteq> 0
   \<and> mask_tex ex_ctx_mask_opa = Some ex_mask \<and> bits ex_mask = Heap (replicate 64 0xFF)
   \<and> blend_opacity_if_needed ex_ds_clip ex_ctx_mask_opa =
        Inr (ex_ctx_mask_opa\<lparr>mask_tex := Some (ex_mask\<lparr>bits := Heap (replicate 64 0x7F)\<rparr>)\<rparr>)"
proof -
  have a: "(blending_mode ex_ctx_dest AND NEMA_BL_OPA) = 0"
    by (simp add: ex_ctx_dest_def pipeline_ctx_zero_def)
  have b: "(blending_mode ex_ctx_opa AND NEMA_BL_OPA) \<noteq> 0" "mask_tex ex_ctx_opa = None"
    "dest_tex ex_ctx_opa = Some ex_dest"
    by (simp_all add: ex_ctx_opa_def ex_ctx_dest_def pipeline_ctx_zero_def NEMA_BL_OPA_def)
  have d: "width ex_dest = 8" "height ex_dest = 8" "round_up_4 8 = 8"
    by (simp_all add: ex_dest_def round_up_4_def)
  have c: "(blending_mode ex_ctx_mask_opa AND NEMA_BL_OPA) \<noteq> 0"
    "mask_tex ex_ctx_mask_opa = Some ex_mask" "bits ex_mask = Heap (replicate 64 0xFF)"
    "stride ex_mask * height ex_mask = int (length (replicate 64 (0xFF :: byte)))"
    by (simp_all add: ex_ctx_mask_opa_def ex_ctx_dest_def pipeline_ctx_zero_def NEMA_BL_OPA_def
        ex_mask_def)
  have o: "opacity_byte ex_ctx_opa = 0x80" "opacity_byte ex_ctx_mask_opa = 0x80"
    by (simp_all add: opacity_byte_def ex_ctx_opa_def ex_ctx_mask_opa_def drop_bit_eq_div)
  have s: "scale_byte 0x80 0xFF = 0x7F"
    by (simp add: scale_byte_def)
  from a opacity_mask [where ctx = ex_ctx_dest and ds = ex_ds_clip]
  have 1: "blend_opacity_if_needed ex_ds_clip ex_ctx_dest = Inr ex_ctx_dest"
    by blast
  from b d opacity_mask [where ctx = ex_ctx_opa and ds = ex_ds_clip and dest = ex_dest]
  have 2: "blend_opacity_if_needed ex_ds_clip ex_ctx_opa =
        Inr (ex_ctx_opa\<lparr>mask_tex := Some \<lparr>format = PIXMAN_a8, width = 8, height = 8,
               bits = Heap (replicate 64 0x80), stride = 8\<rparr>\<rparr>)"
    by (simp add: o)
  from c opacity_mask [where ctx = ex_ctx_mask_opa and ds = ex_ds_clip and m = ex_mask
      and data = "replicate 64 0xFF"]
  have 3: "blend_opacity_if_needed ex_ds_clip ex_ctx_mask_opa =
        Inr (ex_ctx_mask_opa\<lparr>mask_tex := Some (ex_mask\<lparr>bits := Heap (replicate 64 0x7F)\<rparr>)\<rparr>)"
    by (simp add: o s)
  from a b c 1 2 3 show ?thesis
    by blast
qed

subsection \<open>C8: opacity 255\<close>

text \<open>
  C8 as stated fails, on the compositor as the specification describes it. The mask that
  stands for the opacity has the size of the destination and is laid with its corner on
  the corner of the rectangle. A fill of three pixels that starts one pixel left of a
  destination of two pixels paints both pixels without the has-opacity flag; with the
  flag and the opacity 255 the second pixel lies outside the mask and keeps its value.
  On a destination 32765 pixels wide and two rows high the stride of the mask, an
  \<open>int16_t\<close>, is -32768: with the flag the compositor reads the second row of the mask
  outside its buffer, without the flag it needs no mask.
\<close>

theorem opacity_255_counterexample:
  "ctx_ready ex_ds_clip ex_ctx_row \<and> ctx_ready ex_ds_clip ex_ctx_row_opaque
   \<and> mask_tex ex_ctx_row_opaque = None \<and> opacity_byte ex_ctx_row_opaque = 0xFF
   \<and> pixels_after ex_ds_clip (execute_fill_rect ex_ds_clip ex_fill_left ex_ctx_row)
       = Inr (Some [[0xFFFF0000, 0xFFFF0000]])
   \<and> pixels_after ex_ds_clip (execute_fill_rect ex_ds_clip ex_fill_left ex_ctx_row_opaque)
       = Inr (Some [[0xFFFF0000, 0x07060504]])
   \<and> mask_tex ex_ctx_wide2_opaque = None \<and> opacity_byte ex_ctx_wide2_opaque = 0xFF
   \<and> pixels_after ex_ds_clip (execute_fill_rect ex_ds_clip ex_fill ex_ctx_wide2) \<noteq> Inr None
   \<and> pixels_after ex_ds_clip (execute_fill_rect ex_ds_clip ex_fill ex_ctx_wide2_opaque) = Inr None"
proof -
  have r: "ctx_ready ex_ds_clip ex_ctx_row" "ctx_ready ex_ds_clip ex_ctx_row_opaque"
    "mask_tex ex_ctx_row_opaque = None" "opacity_byte ex_ctx_row_opaque = 0xFF"
    by (simp_all add: ctx_ready_def opacity_byte_def drop_bit_eq_div c8_ex_defs ex_defs
        NEMA_BL_MASK_def NEMA_BL_OPA_def)
  have p1: "pixels_after ex_ds_clip (execute_fill_rect ex_ds_clip ex_fill_left ex_ctx_row)
       = Inr (Some [[0xFFFF0000, 0xFFFF0000]])"
    by (simp add: composite_defs c8_ex_defs ex_defs run_defs to_uint16_def Let_def upt_0_2)
  have p2: "pixels_after ex_ds_clip (execute_fill_rect ex_ds_clip ex_fill_left ex_ctx_row_opaque)
       = Inr (Some [[0xFFFF0000, 0x07060504]])"
    by (simp add: composite_defs c8_ex_defs ex_defs run_defs to_uint16_def Let_def upt_0_2)
  have w1: "pixels_after ex_ds_clip (execute_fill_rect ex_ds_clip ex_fill ex_ctx_wide2) \<noteq> Inr None"
  proof -
    have v: "validate_ctx ex_ds_clip ex_ctx_wide2 = None"
      by (simp add: validate_ctx_ready ctx_ready_def ex_ctx_wide2_def ex_defs)
    have f: "(blending_mode ex_ctx_wide2 AND NEMA_BL_OPA) = 0"
      "dest_tex ex_ctx_wide2 = Some ex_dest_wide2" "mask_tex ex_ctx_wide2 = None"
      by (simp_all add: ex_ctx_wide2_def pipeline_ctx_zero_def)
    have "bits ex_dest_wide2 = Mapped 0x1000 262120" "4 * width ex_dest_wide2 \<le> stride ex_dest_wide2"
      "height ex_dest_wide2 * stride ex_dest_wide2 \<le> int 262120"
      by (simp_all add: ex_dest_wide2_def)
    from composite_solid_defined [OF this] v f show ?thesis
      by (simp add: execute_fill_rect_def blend_flag_clear pixels_after_log drawn_pixels_def)
  qed
  have w2: "pixels_after ex_ds_clip (execute_fill_rect ex_ds_clip ex_fill ex_ctx_wide2_opaque)
      = Inr None"
    and w3: "mask_tex ex_ctx_wide2_opaque = None" "opacity_byte ex_ctx_wide2_opaque = 0xFF"
  proof -
    let ?g = "guest ex_ds_clip (trace ex_ds_clip)"
    let ?m = "\<lparr>format = PIXMAN_a8, width = 32765, height = 2,
               bits = Heap (replicate 4294901760 0xFF), stride = - 32768\<rparr>"
    have v: "validate_ctx ex_ds_clip ex_ctx_wide2_opaque = None"
      by (simp add: validate_ctx_ready ctx_ready_def ex_ctx_wide2_opaque_def ex_ctx_wide2_def ex_defs
          NEMA_BL_MASK_def NEMA_BL_OPA_def)
    have f: "(blending_mode ex_ctx_wide2_opaque AND NEMA_BL_OPA) \<noteq> 0"
      "mask_tex ex_ctx_wide2_opaque = None" "dest_tex ex_ctx_wide2_opaque = Some ex_dest_wide2"
      by (simp_all add: ex_ctx_wide2_opaque_def ex_ctx_wide2_def pipeline_ctx_zero_def NEMA_BL_OPA_def)
    have o: "opacity_byte ex_ctx_wide2_opaque = 0xFF"
      by (simp add: opacity_byte_def ex_ctx_wide2_opaque_def drop_bit_eq_div)
    have s: "to_int16 (round_up_4 (width ex_dest_wide2)) = - 32768"
      "nat (to_uint32 (height ex_dest_wide2 * - 32768)) = 4294901760"
      by (simp_all add: ex_dest_wide2_def round_up_4_def to_int16_def to_uint32_def)
    from blend_new_mask [OF f, of ex_ds_clip] s o have
      b: "blend_opacity_if_needed ex_ds_clip ex_ctx_wide2_opaque
          = Inr (ex_ctx_wide2_opaque\<lparr>mask_tex := Some ?m\<rparr>)"
      by (simp add: ex_dest_wide2_def)
    have "argb_at (buffer_bytes ?g (Mapped 0x1000 262120)) 131060 \<noteq> None"
      by (rule argb_at_mapped) simp_all
    then obtain old where
      old: "argb_at (buffer_bytes ?g (Mapped 0x1000 262120)) 131060 = Some old"
      by auto
    have px: "composite_pixel ?g (Solid_fill (u_int_c ex_fill)) (Some ?m) ex_dest_wide2
        (pixman_clip_region ex_ds_clip) 0 0 0 0 0 0 8 8 (int 0) (int 1) = None"
      using old
      by (simp add: composite_pixel_def ex_dest_wide2_def source_pixel_def mask_coverage_def
          in_clip_def ex_ds_clip_def ex_clip_def buffer_bytes_def [of _ "Heap _"])
    have m0: "0 \<in> set [0..<nat (width ex_dest_wide2)]" and m1: "1 \<in> set [0..<nat (height ex_dest_wide2)]"
      by (simp_all add: ex_dest_wide2_def)
    have row: "those (map (\<lambda>X. composite_pixel ?g (Solid_fill (u_int_c ex_fill)) (Some ?m)
        ex_dest_wide2 (pixman_clip_region ex_ds_clip) 0 0 0 0 0 0 8 8 (int X) (int 1))
        [0..<nat (width ex_dest_wide2)]) = None"
      by (rule those_map_None [OF m0]) (use px in simp)
    have "pixman_image_composite ?g (Solid_fill (u_int_c ex_fill)) (Some ?m) ex_dest_wide2
        (pixman_clip_region ex_ds_clip) 0 0 0 0 0 0 8 8 = None"
      unfolding pixman_image_composite_def
      by (rule those_map_None [OF m1]) (use row in simp)
    with v b f show "pixels_after ex_ds_clip (execute_fill_rect ex_ds_clip ex_fill ex_ctx_wide2_opaque)
        = Inr None"
      by (simp add: execute_fill_rect_def pixels_after_log drawn_pixels_def ex_fill_def cmd_zero_def
          to_int16_def to_uint16_def)
    from f o show "mask_tex ex_ctx_wide2_opaque = None" "opacity_byte ex_ctx_wide2_opaque = 0xFF"
      by simp_all
  qed
  from r p1 p2 w1 w2 w3 show ?thesis
    by simp
qed

text \<open>
  C8, amended, on the compositor as the specification describes it. Take two ready
  contexts with the same destination and source and no mask, one with the has-opacity
  flag and a constant colour whose top byte is 255, the other without the flag, on a
  destination whose width is at most 32764 and whose mask size, the height times the
  width rounded up to a multiple of 4, is below \<open>2^32\<close>. A fill whose rectangle starts at
  non-negative coordinates leaves the same destination pixels with either context, and so
  does a blit.
\<close>

theorem opacity_255_same_pixels:
  assumes rp: "ctx_ready ds ctx_p" and ro: "ctx_ready ds ctx_o"
    and dp: "dest_tex ctx_p = Some dest" and d_o: "dest_tex ctx_o = Some dest"
    and sr: "src_tex ctx_o = src_tex ctx_p"
    and mp: "mask_tex ctx_p = None" and mo: "mask_tex ctx_o = None"
    and fp: "(blending_mode ctx_p AND NEMA_BL_OPA) = 0"
    and fo: "(blending_mode ctx_o AND NEMA_BL_OPA) \<noteq> 0" and op255: "opacity_byte ctx_o = 0xFF"
    and w: "0 \<le> width dest" "width dest \<le> 32764" and h: "0 \<le> height dest"
    and sz: "height dest * round_up_4 (width dest) < 2 ^ 32"
  shows "(0 \<le> to_int16 (sint (int_a cmd)) \<and> 0 \<le> to_int16 (sint (int_b cmd)) \<longrightarrow>
            (\<exists>px. pixels_after ds (execute_fill_rect ds cmd ctx_o) = Inr px
                \<and> pixels_after ds (execute_fill_rect ds cmd ctx_p) = Inr px))
       \<and> (src_tex ctx_p \<noteq> None \<longrightarrow>
            (\<exists>px. pixels_after ds (execute_blit ds ctx_o) = Inr px
                \<and> pixels_after ds (execute_blit ds ctx_p) = Inr px))"
proof -
  let ?g = "guest ds (trace ds)"
  from rp ro have vp: "validate_ctx ds ctx_p = None" and vo: "validate_ctx ds ctx_o = None"
    by (simp_all add: validate_ctx_ready)
  note bo = blend_opaque_mask [OF fo mo d_o op255 w h sz, of ds]
  note bp = blend_flag_clear [OF fp, of ds]
  have fill: "\<exists>px. pixels_after ds (execute_fill_rect ds cmd ctx_o) = Inr px
                \<and> pixels_after ds (execute_fill_rect ds cmd ctx_p) = Inr px"
    if "0 \<le> to_int16 (sint (int_a cmd))" "0 \<le> to_int16 (sint (int_b cmd))"
  proof -
    let ?dx = "to_int16 (sint (int_a cmd))" and ?dy = "to_int16 (sint (int_b cmd))"
    let ?w = "to_uint16 (uint (u_int_a cmd))" and ?h = "to_uint16 (uint (u_int_b cmd))"
    let ?c = "pixman_clip_region ds"
    have "pixels_after ds (execute_fill_rect ds cmd ctx_o) =
        Inr (pixman_image_composite ?g (Solid_fill (u_int_c cmd)) (Some (opaque_mask dest)) dest ?c
               0 0 0 0 ?dx ?dy ?w ?h)"
      by (simp add: execute_fill_rect_def vo bo d_o pixels_after_log drawn_pixels_def)
    moreover have "pixels_after ds (execute_fill_rect ds cmd ctx_p) =
        Inr (pixman_image_composite ?g (Solid_fill (u_int_c cmd)) None dest ?c
               0 0 0 0 ?dx ?dy ?w ?h)"
      by (simp add: execute_fill_rect_def vp bp dp mp pixels_after_log drawn_pixels_def)
    ultimately show ?thesis
      using composite_opaque_mask [OF that] by simp
  qed
  have blit: "\<exists>px. pixels_after ds (execute_blit ds ctx_o) = Inr px
                \<and> pixels_after ds (execute_blit ds ctx_p) = Inr px"
    if "src_tex ctx_p \<noteq> None"
  proof -
    from that obtain src where s: "src_tex ctx_p = Some src"
      by auto
    let ?w = "to_uint16 (width dest)" and ?h = "to_uint16 (height dest)"
    let ?c = "pixman_clip_region ds"
    have "pixels_after ds (execute_blit ds ctx_o) =
        Inr (pixman_image_composite ?g (Image_source src) (Some (opaque_mask dest)) dest ?c
               0 0 0 0 0 0 ?w ?h)"
      by (simp add: execute_blit_def vo bo d_o sr s pixels_after_log drawn_pixels_def)
    moreover have "pixels_after ds (execute_blit ds ctx_p) =
        Inr (pixman_image_composite ?g (Image_source src) None dest ?c 0 0 0 0 0 0 ?w ?h)"
      by (simp add: execute_blit_def vp bp dp mp s pixels_after_log drawn_pixels_def)
    ultimately show ?thesis
      using composite_opaque_mask [of 0 0] by simp
  qed
  from fill blit show ?thesis
    by blast
qed

theorem opacity_255_same_pixels_witness:
  "ctx_ready ex_ds_clip ex_ctx_row \<and> ctx_ready ex_ds_clip ex_ctx_row_opaque
   \<and> dest_tex ex_ctx_row = Some ex_dest_row \<and> dest_tex ex_ctx_row_opaque = Some ex_dest_row
   \<and> src_tex ex_ctx_row_opaque = src_tex ex_ctx_row \<and> src_tex ex_ctx_row \<noteq> None
   \<and> mask_tex ex_ctx_row = None \<and> mask_tex ex_ctx_row_opaque = None
   \<and> (blending_mode ex_ctx_row AND NEMA_BL_OPA) = 0
   \<and> (blending_mode ex_ctx_row_opaque AND NEMA_BL_OPA) \<noteq> 0
   \<and> opacity_byte ex_ctx_row_opaque = 0xFF
   \<and> 0 \<le> to_int16 (sint (int_a ex_fill_row)) \<and> 0 \<le> to_int16 (sint (int_b ex_fill_row))
   \<and> pixels_after ex_ds_clip (execute_fill_rect ex_ds_clip ex_fill_row ex_ctx_row_opaque)
       = Inr (Some [[0xFFFF0000, 0xFFFF0000]])
   \<and> pixels_after ex_ds_clip (execute_fill_rect ex_ds_clip ex_fill_row ex_ctx_row)
       = Inr (Some [[0xFFFF0000, 0xFFFF0000]])
   \<and> pixels_after ex_ds_clip (execute_blit ex_ds_clip ex_ctx_row_opaque)
       = Inr (Some [[0xFFFF0000, 0xFF00FF00]])
   \<and> pixels_after ex_ds_clip (execute_blit ex_ds_clip ex_ctx_row)
       = Inr (Some [[0xFFFF0000, 0xFF00FF00]])"
proof -
  have rp: "ctx_ready ex_ds_clip ex_ctx_row" and ro: "ctx_ready ex_ds_clip ex_ctx_row_opaque"
    and dp: "dest_tex ex_ctx_row = Some ex_dest_row"
    and d_o: "dest_tex ex_ctx_row_opaque = Some ex_dest_row"
    and sr: "src_tex ex_ctx_row_opaque = src_tex ex_ctx_row" and sn: "src_tex ex_ctx_row \<noteq> None"
    and mp: "mask_tex ex_ctx_row = None" and mo: "mask_tex ex_ctx_row_opaque = None"
    and fp: "(blending_mode ex_ctx_row AND NEMA_BL_OPA) = 0"
    and fo: "(blending_mode ex_ctx_row_opaque AND NEMA_BL_OPA) \<noteq> 0"
    and op255: "opacity_byte ex_ctx_row_opaque = 0xFF"
    by (simp_all add: ctx_ready_def opacity_byte_def drop_bit_eq_div c8_ex_defs ex_defs
        NEMA_BL_MASK_def NEMA_BL_OPA_def)
  have w: "0 \<le> width ex_dest_row" "width ex_dest_row \<le> 32764" and h: "0 \<le> height ex_dest_row"
    and sz: "height ex_dest_row * round_up_4 (width ex_dest_row) < 2 ^ 32"
    by (simp_all add: ex_dest_row_def round_up_4_def)
  have o: "0 \<le> to_int16 (sint (int_a ex_fill_row))" "0 \<le> to_int16 (sint (int_b ex_fill_row))"
    by (simp_all add: ex_fill_row_def cmd_zero_def to_int16_def)
  have p1: "pixels_after ex_ds_clip (execute_fill_rect ex_ds_clip ex_fill_row ex_ctx_row)
       = Inr (Some [[0xFFFF0000, 0xFFFF0000]])"
    by (simp add: composite_defs c8_ex_defs ex_defs run_defs to_uint16_def Let_def upt_0_2)
  have p2: "pixels_after ex_ds_clip (execute_blit ex_ds_clip ex_ctx_row)
       = Inr (Some [[0xFFFF0000, 0xFF00FF00]])"
    by (simp add: composite_defs c8_ex_defs ex_defs run_defs to_uint16_def Let_def upt_0_2)
  note t = opacity_255_same_pixels [OF rp ro dp d_o sr mp mo fp fo op255 w h sz,
      where cmd = ex_fill_row]
  from t o p1 have
    "pixels_after ex_ds_clip (execute_fill_rect ex_ds_clip ex_fill_row ex_ctx_row_opaque)
       = Inr (Some [[0xFFFF0000, 0xFFFF0000]])"
    by auto
  moreover from t sn p2 have
    "pixels_after ex_ds_clip (execute_blit ex_ds_clip ex_ctx_row_opaque)
       = Inr (Some [[0xFFFF0000, 0xFF00FF00]])"
    by auto
  ultimately show ?thesis
    using rp ro dp d_o sr sn mp mo fp fo op255 o p1 p2 by simp
qed

subsection \<open>C9: DRAW_RECT\<close>

text \<open>
  C9. DRAW_RECT checks nothing and applies no clip: on every device state, also one
  where no clip was ever set, and on every context it returns, and the one cairo
  context it uses, on the destination surface of the context, receives the rectangle,
  the colour and the stroke and no clip. DRAW_LINE, FILL_RECT_ROUNDED and
  DRAW_RECT_ROUNDED, when they return, have first applied the device's clip region.
\<close>

theorem draw_rect_no_clip_no_validation:
  "(op cmd = NEMA_OP_DRAW_RECT \<longrightarrow>
      (\<exists>ds'. process_cmd ds cmd ctx = Inr (ds', pipeline_ctx_zero)
         \<and> cairo_calls ds ds' =
             [(dest_surface ctx,
               [Rectangle (sint (int_a cmd)) (sint (int_b cmd)) (uint (u_int_a cmd))
                  (uint (u_int_b cmd)),
                Set_source_rgba (u_int_c cmd) None, Stroke])]))
   \<and> (op cmd = NEMA_OP_DRAW_LINE \<or> op cmd = NEMA_OP_FILL_RECT_ROUNDED
        \<or> op cmd = NEMA_OP_DRAW_RECT_ROUNDED \<longrightarrow>
      (\<forall>ds' ctx'. process_cmd ds cmd ctx = Inr (ds', ctx') \<longrightarrow>
         (\<exists>cs. cairo_calls ds ds' = [(dest_surface ctx, Apply_clip (nema_clip_region ds) # cs)])))"
proof (intro conjI impI allI)
  assume a: "op cmd = NEMA_OP_DRAW_RECT"
  let ?e = "Cairo (dest_surface ctx)
     [Rectangle (sint (int_a cmd)) (sint (int_b cmd)) (uint (u_int_a cmd)) (uint (u_int_b cmd)),
      Set_source_rgba (u_int_c cmd) None, Stroke]"
  let ?d = "log_event ?e (log_event (Dispatch cmd) ds)"
  obtain ds' where c: "clean_up_ctx ?d ctx = (ds', pipeline_ctx_zero)"
    using clean_up_ctx_snd by blast
  with a have "process_cmd ds cmd ctx = Inr (ds', pipeline_ctx_zero)"
    by (simp add: process_cmd_def Let_def nema_op_defs then_clean_up_def execute_draw_rect_def
        log_event_def)
  with cairo_calls_clean_up [OF c]
  show "\<exists>ds'. process_cmd ds cmd ctx = Inr (ds', pipeline_ctx_zero)
         \<and> cairo_calls ds ds' =
             [(dest_surface ctx,
               [Rectangle (sint (int_a cmd)) (sint (int_b cmd)) (uint (u_int_a cmd))
                  (uint (u_int_b cmd)),
                Set_source_rgba (u_int_c cmd) None, Stroke])]"
    by blast
next
  fix ds' ctx'
  assume a: "op cmd = NEMA_OP_DRAW_LINE \<or> op cmd = NEMA_OP_FILL_RECT_ROUNDED
        \<or> op cmd = NEMA_OP_DRAW_RECT_ROUNDED"
    and r: "process_cmd ds cmd ctx = Inr (ds', ctx')"
  let ?d = "log_event (Dispatch cmd) ds"
  from a r have "\<exists>cs. clean_up_ctx
       (log_event (Cairo (dest_surface ctx) (Apply_clip (nema_clip_region ds) # cs)) ?d) ctx
       = (ds', ctx')"
    by (auto simp: process_cmd_def Let_def nema_op_defs then_clean_up_def
        execute_draw_line_def execute_fill_rect_rounded_def execute_draw_rect_rounded_def
        log_event_def split: sum.splits)
  then show "\<exists>cs. cairo_calls ds ds' = [(dest_surface ctx, Apply_clip (nema_clip_region ds) # cs)]"
    using cairo_calls_clean_up by blast
qed

theorem draw_rect_no_clip_no_validation_witness:
  "op ex_draw_rect = NEMA_OP_DRAW_RECT \<and> \<not> has_clip_set ex_ds
   \<and> (\<exists>ds'. process_cmd ex_ds ex_draw_rect ex_ctx_dest = Inr (ds', pipeline_ctx_zero)
        \<and> cairo_calls ex_ds ds' =
            [(Some ex_surface, [Rectangle 0 0 8 8, Set_source_rgba 0xFFFF0000 None, Stroke])])
   \<and> op ex_line = NEMA_OP_DRAW_LINE
   \<and> (\<exists>ds' ctx' cs. process_cmd ex_ds_clip ex_line ex_ctx_dest = Inr (ds', ctx')
        \<and> cairo_calls ex_ds_clip ds' = [(Some ex_surface, Apply_clip ex_clip # cs)])"
proof -
  have a: "op ex_draw_rect = NEMA_OP_DRAW_RECT" "\<not> has_clip_set ex_ds"
    "op ex_line = NEMA_OP_DRAW_LINE"
    by (simp_all add: ex_defs)
  have "\<exists>r. process_cmd ex_ds_clip ex_line ex_ctx_dest = Inr r"
    by (simp add: ex_defs run_defs Let_def)
  then obtain d c where r: "process_cmd ex_ds_clip ex_line ex_ctx_dest = Inr (d, c)"
    by auto
  from a(1) draw_rect_no_clip_no_validation [where cmd = ex_draw_rect and ds = ex_ds and ctx = ex_ctx_dest]
  have "\<exists>ds'. process_cmd ex_ds ex_draw_rect ex_ctx_dest = Inr (ds', pipeline_ctx_zero)
        \<and> cairo_calls ex_ds ds' =
            [(Some ex_surface, [Rectangle 0 0 8 8, Set_source_rgba 0xFFFF0000 None, Stroke])]"
    by (simp add: ex_defs)
  moreover from a(3) r draw_rect_no_clip_no_validation [where cmd = ex_line and ds = ex_ds_clip and ctx = ex_ctx_dest]
  have "\<exists>cs. cairo_calls ex_ds_clip d = [(Some ex_surface, Apply_clip ex_clip # cs)]"
    by (simp add: ex_defs)
  ultimately show ?thesis
    using a r by blast
qed

subsection \<open>C10: register reads\<close>

text \<open>
  C10. Every read from the register region, at any offset and of any size, returns 0
  and leaves the device state as it was.
\<close>

theorem on_nema_io_read_zero:
  "fst (on_nema_io_read ds addr sz) = 0 \<and> snd (on_nema_io_read ds addr sz) = ds"
  by (simp add: on_nema_io_read_def)

end
